(* ===== verification/Prelude.thy ===== *)
theory Prelude
  imports Main "HOL-Library.Word" "HOL-Library.Monad_Syntax"
begin

text \<open>
  Shared vocabulary of the development: the machine integers of the C++ code, the outcome of a
  computation that may stop at a failed assertion, the generic lemmas about lists and about that
  outcome, and the collections the component proofs draw on.

  An operation that can fail is a function into \<open>'a option\<close>: \<open>None\<close> says that the C++ program
  stops there (a failed \<open>NS_ASSERT\<close> or \<open>NS_ABORT\<close>) or that its behaviour is undefined (a
  dereferenced end iterator, a signed overflow, a read past the end of a buffer).
\<close>

unbundle bit_operations_syntax

subsection \<open>Machine integers and addresses\<close>

type_synonym u8 = "8 word"
type_synonym u16 = "16 word"
type_synonym u32 = "32 word"
type_synonym u64 = "64 word"
type_synonym s32 = "32 word"

text \<open>An IPv4 address is its 32-bit value, a MAC address its 48-bit value; times are counted in
  nanoseconds, the resolution of the simulator.\<close>

type_synonym ipv4 = "32 word"
type_synonym mac = "48 word"
type_synonym time = int

definition ip4 :: "nat \<Rightarrow> nat \<Rightarrow> nat \<Rightarrow> nat \<Rightarrow> ipv4" where
  "ip4 a b c d = word_of_nat (((a * 256 + b) * 256 + c) * 256 + d)"

text \<open>\<open>int32_t(a) - int32_t(b)\<close>: the subtraction of two \<open>int\<close>s, undefined when it overflows.\<close>

definition s32_sub :: "u32 \<Rightarrow> u32 \<Rightarrow> int option" where
  "s32_sub a b =
     (let d = sint a - sint b in if - (2 ^ 31) \<le> d \<and> d < 2 ^ 31 then Some d else None)"

lemma s32_sub_self [simp]: "s32_sub a a = Some 0"
  by (simp add: s32_sub_def)

subsection \<open>Outcomes\<close>

named_theorems pres "preservation facts, in the form of pred_option introduction rules"
named_theorems frame "which parts of the state an operation leaves alone"

lemma pres_Some: "P x \<Longrightarrow> pred_option P (Some x)"
  by simp

lemma pres_bind:
  assumes "pred_option Q m" and "\<And>x. Q x \<Longrightarrow> pred_option P (f x)"
  shows "pred_option P (Option.bind m f)"
  using assms by (cases m) auto

lemma pres_if:
  assumes "b \<Longrightarrow> pred_option P x" and "\<not> b \<Longrightarrow> pred_option P y"
  shows "pred_option P (if b then x else y)"
  using assms by simp

lemma pres_conj: "pred_option P m \<Longrightarrow> pred_option Q m \<Longrightarrow> pred_option (\<lambda>x. P x \<and> Q x) m"
  by (cases m) auto

lemma pres_True: "pred_option (\<lambda>_. True) m"
  by (cases m) auto

lemma presD: "pred_option P m \<Longrightarrow> m = Some x \<Longrightarrow> P x"
  by simp

lemma presI: "(\<And>x. m = Some x \<Longrightarrow> P x) \<Longrightarrow> pred_option P m"
  by (cases m) auto

text \<open>A failing step inside a loop over a list stops the loop.\<close>

fun foldM :: "('a \<Rightarrow> 's \<Rightarrow> 's option) \<Rightarrow> 'a list \<Rightarrow> 's \<Rightarrow> 's option" where
  "foldM f [] s = Some s"
| "foldM f (x # xs) s = do { s \<leftarrow> f x s; foldM f xs s }"

lemma foldM_pres:
  assumes "I s" and "\<And>x s. x \<in> set xs \<Longrightarrow> I s \<Longrightarrow> pred_option I (f x s)"
  shows "pred_option I (foldM f xs s)"
  using assms
proof (induction xs arbitrary: s)
  case Nil
  then show ?case by simp
next
  case (Cons x xs)
  show ?case
    by (simp, rule pres_bind [where Q = I]) (use Cons in auto)
qed

lemma foldM_total:
  assumes "I s" and "\<And>x s. x \<in> set xs \<Longrightarrow> I s \<Longrightarrow> \<exists>s'. f x s = Some s' \<and> I s'"
  shows "\<exists>s'. foldM f xs s = Some s' \<and> I s'"
  using assms
proof (induction xs arbitrary: s)
  case Nil
  then show ?case by simp
next
  case (Cons x xs)
  then obtain s1 where "f x s = Some s1" "I s1" by (metis list.set_intros(1))
  with Cons show ?case by simp
qed

subsection \<open>Lists\<close>

text \<open>\<open>std::find\<close> over a vector, and the index-free form of a search loop that returns at the first
  match.\<close>

lemma find_filter: "List.find P (filter Q xs) = List.find (\<lambda>x. Q x \<and> P x) xs"
  by (induction xs) auto

lemma find_SomeD: "List.find P xs = Some x \<Longrightarrow> x \<in> set xs \<and> P x"
  by (auto simp: find_Some_iff in_set_conv_nth)

lemma distinct_map_filter: "distinct (map f xs) \<Longrightarrow> distinct (map f (filter P xs))"
  by (induction xs) auto

text \<open>The loop that appends each element of one vector to another unless it is there already.\<close>

fun append_new :: "'a list \<Rightarrow> 'a list \<Rightarrow> 'a list" where
  "append_new [] acc = acc"
| "append_new (x # xs) acc = append_new xs (if x \<in> set acc then acc else acc @ [x])"

lemma set_append_new [simp]: "set (append_new xs acc) = set xs \<union> set acc"
  by (induction xs acc rule: append_new.induct) auto

end
