(* ===== verification/Std_Map.thy ===== *)
theory Std_Map
  imports Prelude
begin

text \<open>
  \<open>std::map\<close>, as an association list in ascending order of the keys: the list is what an iteration
  from \<open>begin()\<close> to \<open>end()\<close> visits. \<open>find\<close> is \<^const>\<open>map_of\<close>. The interface the clients rely on is the
  locale \<open>ordered_map\<close>; its laws are proved here for the model's operations.
\<close>

type_synonym ('k, 'v) smap = "('k \<times> 'v) list"

text \<open>The keys strictly ascend.\<close>

fun smap_inv :: "('k::linorder, 'v) smap \<Rightarrow> bool" where
  "smap_inv [] = True"
| "smap_inv [p] = True"
| "smap_inv (p # q # m) = (fst p < fst q \<and> smap_inv (q # m))"

text \<open>\<open>m[k] = v\<close>, also \<open>i->second = v\<close> through an iterator at \<open>k\<close>.\<close>

fun smap_put :: "'k::linorder \<Rightarrow> 'v \<Rightarrow> ('k, 'v) smap \<Rightarrow> ('k, 'v) smap" where
  "smap_put k v [] = [(k, v)]"
| "smap_put k v ((k', v') # m) =
     (if k < k' then (k, v) # (k', v') # m
      else if k = k' then (k, v) # m
      else (k', v') # smap_put k v m)"

text \<open>\<open>m.insert(std::make_pair(k, v))\<close>: no effect when the key is there.\<close>

definition smap_insert :: "'k::linorder \<Rightarrow> 'v \<Rightarrow> ('k, 'v) smap \<Rightarrow> ('k, 'v) smap" where
  "smap_insert k v m = (if map_of m k = None then smap_put k v m else m)"

text \<open>\<open>m.erase(k)\<close>.\<close>

definition smap_erase :: "'k \<Rightarrow> ('k, 'v) smap \<Rightarrow> ('k, 'v) smap" where
  "smap_erase k m = filter (\<lambda>p. fst p \<noteq> k) m"

subsection \<open>The order of the keys\<close>

lemma smap_inv_sorted: "smap_inv m \<longleftrightarrow> sorted_wrt (<) (map fst m)"
proof (induction m rule: smap_inv.induct)
  case (3 p q m)
  then show ?case by (auto intro: less_trans)
qed simp_all

lemma smap_inv_distinct: "smap_inv m \<Longrightarrow> distinct (map fst m)"
  by (simp add: smap_inv_sorted strict_sorted_iff)

lemma set_smap_put: "set (smap_put k v m) \<subseteq> insert (k, v) (set m)"
  by (induction k v m rule: smap_put.induct) auto

lemma keys_smap_put [simp]: "fst ` set (smap_put k v m) = insert k (fst ` set m)"
  by (induction k v m rule: smap_put.induct) auto

lemma smap_inv_put [simp]: "smap_inv m \<Longrightarrow> smap_inv (smap_put k v m)"
  unfolding smap_inv_sorted
  by (induction k v m rule: smap_put.induct) (auto simp: set_map simp del: list.set_map dest: less_imp_neq)

lemma smap_inv_insert [simp]: "smap_inv m \<Longrightarrow> smap_inv (smap_insert k v m)"
  by (simp add: smap_insert_def)

lemma smap_inv_filter [simp]: "smap_inv m \<Longrightarrow> smap_inv (filter P m)"
  by (simp add: smap_inv_sorted sorted_wrt_map sorted_wrt_filter)

lemma smap_inv_erase [simp]: "smap_inv m \<Longrightarrow> smap_inv (smap_erase k m)"
  by (simp add: smap_erase_def)

lemma smap_inv_tl: "smap_inv (p # m) \<Longrightarrow> smap_inv m"
  by (simp add: smap_inv_sorted)

lemma smap_inv_map_val [simp]: "smap_inv (map (\<lambda>(k, v). (k, f k v)) m) = smap_inv m"
  by (simp add: smap_inv_sorted case_prod_beta comp_def)

subsection \<open>Lookup\<close>

lemma map_of_notin_None: "k \<notin> fst ` set m \<Longrightarrow> map_of m k = None"
  by (simp add: map_of_eq_None_iff)

lemma map_of_put:
  "smap_inv m \<Longrightarrow> map_of (smap_put k v m) k' = (if k' = k then Some v else map_of m k')"
  unfolding smap_inv_sorted
  by (induction k v m rule: smap_put.induct) (auto simp: map_of_eq_None_iff)

lemma map_of_put_same [simp]: "map_of (smap_put k v m) k = Some v"
  by (induction k v m rule: smap_put.induct) auto

lemma map_of_put_other [simp]: "k' \<noteq> k \<Longrightarrow> map_of (smap_put k v m) k' = map_of m k'"
  by (induction k v m rule: smap_put.induct) auto

lemma map_of_insert:
  "map_of (smap_insert k v m) k' =
     (if k' = k then (case map_of m k of None \<Rightarrow> Some v | Some w \<Rightarrow> Some w) else map_of m k')"
  by (auto simp: smap_insert_def split: option.splits)

lemma map_of_erase: "map_of (smap_erase k m) k' = (if k' = k then None else map_of m k')"
  unfolding smap_erase_def by (induction m) auto

lemma map_of_filter_val:
  "distinct (map fst m) \<Longrightarrow>
   map_of (filter P m) k = (case map_of m k of None \<Rightarrow> None | Some v \<Rightarrow> if P (k, v) then Some v else None)"
  by (induction m) (auto split: option.splits simp: map_of_eq_None_iff image_iff)

lemma map_of_map_val:
  "map_of (map (\<lambda>(k, v). (k, f k v)) m) k = map_option (f k) (map_of m k)"
  by (induction m) auto

text \<open>Two ordered maps with the same bindings are the same list.\<close>

lemma smap_ext:
  assumes "smap_inv m" "smap_inv n" "\<And>k. map_of m k = map_of n k"
  shows "m = n"
proof -
  have "map_of m = map_of n" using assms(3) by (rule ext)
  then have "set m = set n"
    by (metis assms(1,2) smap_inv_distinct map_of_is_SomeI map_of_SomeD subrelI subset_antisym)
  moreover have "sorted (map fst m)" "sorted (map fst n)" "distinct (map fst m)" "distinct (map fst n)"
    using assms(1,2) by (simp_all add: smap_inv_sorted strict_sorted_iff)
  moreover have "inj_on fst (set m \<union> set n)"
    using calculation by (simp add: distinct_map)
  ultimately show ?thesis
    by (intro map_sorted_distinct_set_unique)
qed

text \<open>Rebuilding a map by inserting its elements one after the other, in any order.\<close>

definition smap_of_list :: "('k::linorder \<times> 'v) list \<Rightarrow> ('k, 'v) smap" where
  "smap_of_list ps = fold (\<lambda>p m. smap_insert (fst p) (snd p) m) ps []"

lemma smap_inv_fold_insert:
  "smap_inv m \<Longrightarrow> smap_inv (fold (\<lambda>p m. smap_insert (fst p) (snd p) m) ps m)"
  by (induction ps arbitrary: m) auto

lemma smap_inv_of_list [simp]: "smap_inv (smap_of_list ps)"
  unfolding smap_of_list_def by (rule smap_inv_fold_insert) simp

lemma map_of_fold_insert:
  "map_of (fold (\<lambda>p m. smap_insert (fst p) (snd p) m) ps m) k =
     (case map_of m k of Some v \<Rightarrow> Some v | None \<Rightarrow> map_of ps k)"
  by (induction ps arbitrary: m) (auto simp: map_of_insert split: option.splits)

lemma map_of_smap_of_list [simp]: "map_of (smap_of_list ps) k = map_of ps k"
  by (simp add: smap_of_list_def map_of_fold_insert)

lemma smap_of_list_id: "smap_inv m \<Longrightarrow> smap_of_list m = m"
  by (rule smap_ext) auto

lemma length_smap_put:
  "smap_inv m \<Longrightarrow> length (smap_put k v m) = (if map_of m k = None then Suc (length m) else length m)"
  unfolding smap_inv_sorted
  by (induction k v m rule: smap_put.induct) (auto simp: map_of_eq_None_iff)

subsection \<open>The interface\<close>

text \<open>What the routing table, the socket tables, the timers and the RERR header rely on: every
  operation keeps the order of the keys and acts on the bindings as its name says. The clients'
  lemmas about sequences of operations are proved from these laws alone.\<close>

locale ordered_map =
  fixes inv :: "'m \<Rightarrow> bool"
    and look :: "'m \<Rightarrow> 'k \<Rightarrow> 'v option"
    and put :: "'k \<Rightarrow> 'v \<Rightarrow> 'm \<Rightarrow> 'm"
    and insrt :: "'k \<Rightarrow> 'v \<Rightarrow> 'm \<Rightarrow> 'm"
    and erase :: "'k \<Rightarrow> 'm \<Rightarrow> 'm"
  assumes inv_put: "inv m \<Longrightarrow> inv (put k v m)"
    and inv_insrt: "inv m \<Longrightarrow> inv (insrt k v m)"
    and inv_erase: "inv m \<Longrightarrow> inv (erase k m)"
    and look_put: "inv m \<Longrightarrow> look (put k v m) k' = (if k' = k then Some v else look m k')"
    and look_insrt: "inv m \<Longrightarrow>
      look (insrt k v m) k' = (if k' = k \<and> look m k = None then Some v else look m k')"
    and look_erase: "inv m \<Longrightarrow> look (erase k m) k' = (if k' = k then None else look m k')"
    and extensional: "inv m \<Longrightarrow> inv n \<Longrightarrow> (\<And>k. look m k = look n k) \<Longrightarrow> m = n"
begin

lemma put_put_same: "inv m \<Longrightarrow> put k v (put k w m) = put k v m"
  by (rule extensional) (simp_all add: inv_put look_put)

lemma put_commute: "inv m \<Longrightarrow> k \<noteq> k' \<Longrightarrow> put k v (put k' w m) = put k' w (put k v m)"
  by (rule extensional) (auto simp add: inv_put look_put)

lemma put_same: "inv m \<Longrightarrow> look m k = Some v \<Longrightarrow> put k v m = m"
  by (rule extensional) (auto simp add: inv_put look_put)

lemma insrt_present: "inv m \<Longrightarrow> look m k = Some v \<Longrightarrow> insrt k w m = m"
  by (rule extensional) (auto simp add: inv_insrt look_insrt)

lemma erase_absent: "inv m \<Longrightarrow> look m k = None \<Longrightarrow> erase k m = m"
  by (rule extensional) (auto simp add: inv_erase look_erase)

lemma erase_put: "inv m \<Longrightarrow> look m k = None \<Longrightarrow> erase k (put k v m) = m"
  by (rule extensional) (auto simp add: inv_erase inv_put look_erase look_put)

lemma insrt_idem: "inv m \<Longrightarrow> insrt k w (insrt k v m) = insrt k v m"
  by (rule extensional) (auto simp add: inv_insrt look_insrt)

end

interpretation sm: ordered_map "smap_inv :: ('k::linorder, 'v) smap \<Rightarrow> bool" map_of smap_put smap_insert smap_erase
proof unfold_locales
  fix m :: "('k, 'v) smap" and n :: "('k, 'v) smap"
  assume "smap_inv m" "smap_inv n" "\<And>k. map_of m k = map_of n k"
  then show "m = n" by (rule smap_ext)
qed (auto simp: map_of_put map_of_insert map_of_erase split: option.splits)

end
