(* ===== verification/Ns3_Env.thy ===== *)
theory Ns3_Env
  imports Std_Map
begin

text \<open>
  The boundary to the simulator. Nothing of ns-3 is under the repository, so what the code asks it
  is a field of the parameter record \<open>ns3\<close> (its clock, its constants, the IPv4 stack's answers, the
  byte order of a \<open>Buffer\<close>, the ARP caches, the random stream), and what the code makes it do is an
  entry of the effect log (\<open>effect\<close>): a datagram handed to a socket, an event scheduled, a callback
  invoked. A \<open>Timer\<close> is the list of the calls made on it, the oldest first.
\<close>

subsection \<open>Values exchanged with the stack\<close>

text \<open>Object handles: \<open>Ptr<NetDevice>\<close>, \<open>Ptr<Socket>\<close>, \<open>Ptr<ArpCache>\<close> and callbacks. A pointer that
  may be null is an option.\<close>

type_synonym dev = nat
type_synonym sock = nat
type_synonym arp = nat
type_synonym callback = nat

text \<open>\<open>Ipv4InterfaceAddress\<close>: the three components the code reads and one for all the others,
  which take part in its equality.\<close>

record iface =
  ia_local :: ipv4
  ia_mask :: ipv4
  ia_broadcast :: ipv4
  ia_other :: nat

text \<open>\<open>Ipv4Route\<close>.\<close>

record ipv4_route =
  rt_destination :: ipv4
  rt_source :: ipv4
  rt_gateway :: ipv4
  rt_device :: "dev option"

text \<open>\<open>Ipv4Header\<close>.\<close>

record ipv4_header =
  ih_source :: ipv4
  ih_destination :: ipv4
  ih_protocol :: u8
  ih_ttl :: u8

text \<open>\<open>Packet\<close>: its uid, its bytes, and the two packet tags the code looks at (\<open>SocketIpTtlTag\<close> and
  the module's own \<open>DeferredRouteOutputTag\<close>). Packets the module creates itself go out as a
  \<open>control\<close>: their bytes and their TTL tag.\<close>

record packet =
  pk_uid :: u64
  pk_bytes :: "u8 list"
  pk_ttl_tag :: "u8 option"
  pk_oif_tag :: "s32 option"

record control =
  ct_ttl :: u8
  ct_bytes :: "u8 list"

text \<open>\<open>ArpCache::Entry\<close>.\<close>

record arp_entry =
  ae_alive :: bool
  ae_permanent :: bool
  ae_expired :: bool
  ae_mac :: mac

subsection \<open>Time\<close>

definition Seconds :: "int \<Rightarrow> time" where
  "Seconds n = n * 1000000000"

definition MilliSeconds :: "int \<Rightarrow> time" where
  "MilliSeconds n = n * 1000000"

definition MicroSeconds :: "int \<Rightarrow> time" where
  "MicroSeconds n = n * 1000"

lemma Seconds_0 [simp]: "Seconds 0 = 0"
  by (simp add: Seconds_def)

lemmas time_units = Seconds_def MilliSeconds_def MicroSeconds_def

subsection \<open>Timers\<close>

datatype timer_call =
    TmSetDelay time
  | TmSetFunction
  | TmSetArguments ipv4
  | TmCancel
  | TmSchedule "time option"
  | TmExpire

text \<open>\<open>TmSchedule None\<close> is \<open>Schedule()\<close>, which uses the delay set before. \<open>TmExpire\<close> is no call: the
  simulator records that the time has come.\<close>

type_synonym timer = "timer_call list"

text \<open>The last word on whether a timer runs: a \<open>Schedule\<close> starts it, a \<open>Cancel\<close> and its expiry stop it,
  the other calls leave it as it is.\<close>

fun tm_after :: "bool \<Rightarrow> timer_call \<Rightarrow> bool" where
  "tm_after r TmCancel = False"
| "tm_after r (TmSchedule d) = True"
| "tm_after r (TmSetDelay d) = r"
| "tm_after r TmSetFunction = r"
| "tm_after r (TmSetArguments a) = r"
| "tm_after r TmExpire = False"

definition tm_started :: "timer \<Rightarrow> bool" where
  "tm_started t = foldl tm_after False t"

lemma tm_started_schedule [simp]: "tm_started (t @ [TmSchedule d])"
  by (simp add: tm_started_def)

lemma tm_started_two [simp]: "tm_started (t @ [c, TmSchedule d])"
  by (simp add: tm_started_def)

lemma tm_started_three [simp]: "tm_started (t @ [c, c', TmSchedule d])"
  by (simp add: tm_started_def)

lemma tm_started_Nil [simp]: "\<not> tm_started []"
  by (simp add: tm_started_def)

subsection \<open>The byte order of a buffer\<close>

text \<open>\<open>WriteHtonU32\<close>, \<open>ReadNtohU32\<close>, and \<open>WriteTo\<close>, \<open>ReadFrom\<close> on an address.\<close>

record codec =
  put_u32 :: "u32 \<Rightarrow> u8 list"
  get_u32 :: "u8 list \<Rightarrow> u32"
  put_addr :: "ipv4 \<Rightarrow> u8 list"
  get_addr :: "u8 list \<Rightarrow> ipv4"

text \<open>What the documentation of \<open>Buffer::Iterator\<close> promises: four bytes for a 32-bit value, and
  reading gives back what was written.\<close>

definition codec_ok :: "codec \<Rightarrow> bool" where
  "codec_ok C \<longleftrightarrow>
     (\<forall>w. length (put_u32 C w) = 4 \<and> get_u32 C (put_u32 C w) = w) \<and>
     (\<forall>a. length (put_addr C a) = 4 \<and> get_addr C (put_addr C a) = a)"

text \<open>Network byte order satisfies the promise; the witnesses use it.\<close>

definition be_put :: "u32 \<Rightarrow> u8 list" where
  "be_put w = [ucast (drop_bit 24 w), ucast (drop_bit 16 w), ucast (drop_bit 8 w), ucast w]"

fun be_get :: "u8 list \<Rightarrow> u32" where
  "be_get [a, b, c, d] =
     push_bit 24 (ucast a) OR push_bit 16 (ucast b) OR push_bit 8 (ucast c) OR ucast d"
| "be_get _ = 0"

definition be_codec :: codec where
  "be_codec = \<lparr>put_u32 = be_put, get_u32 = be_get, put_addr = be_put, get_addr = be_get\<rparr>"

lemma be_get_put [simp]: "be_get (be_put w) = w"
proof (rule bit_word_eqI)
  fix n
  assume "n < LENGTH(32)"
  then have "n < 8 \<or> (8 \<le> n \<and> n < 16) \<or> (16 \<le> n \<and> n < 24) \<or> (24 \<le> n \<and> n < 32)" by auto
  then show "bit (be_get (be_put w)) n = bit w n"
    by (elim disjE) (auto simp add: be_put_def bit_or_iff bit_push_bit_iff bit_ucast_iff
      bit_drop_bit_eq possible_bit_word)
qed

lemma length_be_put [simp]: "length (be_put w) = 4"
  by (simp add: be_put_def)

lemma be_codec_ok: "codec_ok be_codec"
  by (simp add: codec_ok_def be_codec_def)

text \<open>Reading consumes bytes from the front of what is left; a read past the end fails.\<close>

fun ReadU8 :: "u8 list \<Rightarrow> (u8 \<times> u8 list) option" where
  "ReadU8 [] = None"
| "ReadU8 (b # bs) = Some (b, bs)"

definition ReadNtohU32 :: "codec \<Rightarrow> u8 list \<Rightarrow> (u32 \<times> u8 list) option" where
  "ReadNtohU32 C bs = (if length bs < 4 then None else Some (get_u32 C (take 4 bs), drop 4 bs))"

definition ReadFrom :: "codec \<Rightarrow> u8 list \<Rightarrow> (ipv4 \<times> u8 list) option" where
  "ReadFrom C bs = (if length bs < 4 then None else Some (get_addr C (take 4 bs), drop 4 bs))"

subsection \<open>The parameter record\<close>

text \<open>The IPv4 stack of the node, as it answers during one event.\<close>

record ipv4_stack =
  ip_if_for_addr :: "ipv4 \<Rightarrow> int"
  ip_if_for_dev :: "dev option \<Rightarrow> int"
  ip_net_device :: "int \<Rightarrow> dev"
  ip_address :: "int \<Rightarrow> iface"
  ip_n_addresses :: "int \<Rightarrow> nat"
  ip_n_interfaces :: nat
  ip_is_up :: "int \<Rightarrow> bool"
  ip_is_destination :: "ipv4 \<Rightarrow> int \<Rightarrow> bool"
  ip_is_forwarding :: "int \<Rightarrow> bool"
  ip_arp_cache :: "int \<Rightarrow> arp option"
  ip_dev_wifi :: "dev \<Rightarrow> bool"
  ip_dev_mac :: "dev \<Rightarrow> bool"
  ip_dev_adhoc :: "dev \<Rightarrow> bool"

record ns3 =
  now :: time
  max_time :: time
  to_ms :: "time \<Rightarrow> int"
  any_addr :: ipv4
  any_mac :: mac
  any_iface :: iface
  any_route :: ipv4_route
  any_ttl :: u8
  mk_iface :: "ipv4 \<Rightarrow> ipv4 \<Rightarrow> iface"
  mask_ones :: ipv4
  is_multicast :: "ipv4 \<Rightarrow> bool"
  is_broadcast :: "ipv4 \<Rightarrow> bool"
  wire :: codec
  udp_protocol :: u8
  udp_dst_port :: "packet \<Rightarrow> u16"
  uniform :: "nat \<Rightarrow> int \<Rightarrow> int \<Rightarrow> int"
  rreq_delay_left :: time
  arp_lookup :: "arp \<Rightarrow> ipv4 \<Rightarrow> arp_entry option"
  new_socket :: "nat \<Rightarrow> sock"
  stack :: ipv4_stack

text \<open>A concrete environment, for the witnesses: a loopback interface and a wireless one with the
  address 10.1.1.1.\<close>

definition example_iface :: iface where
  "example_iface = \<lparr>ia_local = ip4 10 1 1 1, ia_mask = ip4 255 255 255 0,
     ia_broadcast = ip4 10 1 1 255, ia_other = 0\<rparr>"

definition example_stack :: ipv4_stack where
  "example_stack =
     \<lparr>ip_if_for_addr = (\<lambda>a. if a = ip4 127 0 0 1 then 0 else if a = ip4 10 1 1 1 then 1 else - 1),
      ip_if_for_dev = (\<lambda>d. case d of None \<Rightarrow> - 1 | Some d \<Rightarrow> int d),
      ip_net_device = nat,
      ip_address = (\<lambda>i. if i = 0 then \<lparr>ia_local = ip4 127 0 0 1, ia_mask = ip4 255 0 0 0,
                                      ia_broadcast = ip4 127 255 255 255, ia_other = 0\<rparr>
                         else example_iface),
      ip_n_addresses = (\<lambda>i. 1), ip_n_interfaces = 1, ip_is_up = (\<lambda>i. True),
      ip_is_destination = (\<lambda>a i. a = ip4 10 1 1 1), ip_is_forwarding = (\<lambda>i. True),
      ip_arp_cache = (\<lambda>i. if i = 1 then Some 0 else None),
      ip_dev_wifi = (\<lambda>d. d = 1), ip_dev_mac = (\<lambda>d. d = 1), ip_dev_adhoc = (\<lambda>d. d = 1)\<rparr>"

definition example_env :: "time \<Rightarrow> ns3" where
  "example_env t =
     \<lparr>now = t, max_time = 2 ^ 63 - 1, to_ms = (\<lambda>t. t div 1000000), any_addr = 0, any_mac = 0,
      any_iface = \<lparr>ia_local = 0, ia_mask = 0, ia_broadcast = 0, ia_other = 0\<rparr>,
      any_route = \<lparr>rt_destination = 0, rt_source = 0, rt_gateway = 0, rt_device = None\<rparr>,
      any_ttl = 0, mk_iface = (\<lambda>a m. \<lparr>ia_local = a, ia_mask = m, ia_broadcast = a OR NOT m, ia_other = 0\<rparr>),
      mask_ones = - 1, is_multicast = (\<lambda>a. ip4 224 0 0 0 \<le> a \<and> a \<le> ip4 239 255 255 255),
      is_broadcast = (\<lambda>a. a = ip4 255 255 255 255), wire = be_codec, udp_protocol = 17,
      udp_dst_port = (\<lambda>p. 9), uniform = (\<lambda>n lo hi. lo), rreq_delay_left = 0,
      arp_lookup = (\<lambda>c a. Some \<lparr>ae_alive = True, ae_permanent = False, ae_expired = False,
                                 ae_mac = ucast a\<rparr>),
      new_socket = (\<lambda>n. n), stack = example_stack\<rparr>"

lemma example_env_simps [simp]:
  "now (example_env t) = t" "wire (example_env t) = be_codec" "any_addr (example_env t) = 0"
  "stack (example_env t) = example_stack" "new_socket (example_env t) n = n"
  "uniform (example_env t) n lo hi = lo" "to_ms (example_env t) x = x div 1000000"
  by (simp_all add: example_env_def)

subsection \<open>Effects\<close>

datatype effect =
    SockSend sock control ipv4 \<comment> \<open>\<open>socket->SendTo\<close> to the module's UDP port\<close>
  | SchedSend time sock control ipv4 \<comment> \<open>\<open>Simulator::Schedule\<close> of \<open>SendTo\<close>\<close>
  | SchedRequest time ipv4 \<comment> \<open>\<open>Simulator::Schedule\<close> of \<open>SendRequest\<close>\<close>
  | SchedStart \<comment> \<open>\<open>Simulator::ScheduleNow\<close> of \<open>Start\<close>\<close>
  | Forward callback ipv4_route packet ipv4_header \<comment> \<open>the unicast forward callback\<close>
  | Deliver callback packet ipv4_header int \<comment> \<open>the local delivery callback\<close>
  | Error callback packet ipv4_header \<comment> \<open>the error callback, with \<open>ERROR_NOROUTETOHOST\<close>\<close>
  | SockOpen sock dev ipv4 bool \<comment> \<open>a socket created, bound to a device and an address; with \<open>SetIpRecvTtl\<close>?\<close>
  | SockClose sock
  | TxTraceOn dev \<comment> \<open>connect or disconnect the MAC's \<open>DroppedMpdu\<close> trace\<close>
  | TxTraceOff dev
  | SetStream int
  | Ran effect \<comment> \<open>the simulator runs a call that was scheduled\<close>

text \<open>The scheduled calls that have not run yet: scheduled more often than run.\<close>

definition due :: "effect \<Rightarrow> effect list \<Rightarrow> bool" where
  "due e l \<longleftrightarrow> count_list l (Ran e) < count_list l e"

lemma due_append_other [simp]: "x \<noteq> e \<Longrightarrow> x \<noteq> Ran e \<Longrightarrow> due e (l @ [x]) = due e l"
  by (simp add: due_def)

lemma due_append_same [simp]: "due e l \<Longrightarrow> due e (l @ [e])"
  by (simp add: due_def)

lemma due_mem: "due e l \<Longrightarrow> e \<in> set l"
  by (metis count_notin not_less_zero due_def)

end
