(* ===== verification/Packet_Format.thy ===== *)
theory Packet_Format
  imports Ns3_Env
begin

text \<open>
  \<open>model/madaodv-packet.{h,cc}\<close>: the five headers, their flag bits, their wire formats. A
  \<open>Serialize\<close> yields the bytes it writes; a \<open>Deserialize\<close> yields the header it read and the bytes
  left over, or fails where it would read past the end of the packet or where its final
  \<open>NS_ASSERT (dist == GetSerializedSize ())\<close> does. The accessors of the classes are the selectors
  and updates of the records. The formats share the interface \<open>wire_format\<close>.
\<close>

subsection \<open>The message type\<close>

datatype MessageType =
    MADAODVTYPE_RREQ
  | MADAODVTYPE_RREP
  | MADAODVTYPE_RERR
  | MADAODVTYPE_RREP_ACK

text \<open>The values of the enumeration, and the cast back.\<close>

fun MessageType_value :: "MessageType \<Rightarrow> u8" where
  "MessageType_value MADAODVTYPE_RREQ = 1"
| "MessageType_value MADAODVTYPE_RREP = 2"
| "MessageType_value MADAODVTYPE_RERR = 3"
| "MessageType_value MADAODVTYPE_RREP_ACK = 4"

record TypeHeader =
  th_type :: MessageType
  th_valid :: bool

definition TypeHeader_new :: "MessageType \<Rightarrow> TypeHeader" where
  "TypeHeader_new t = \<lparr>th_type = t, th_valid = True\<rparr>"

definition TypeHeader_GetSerializedSize :: nat where
  "TypeHeader_GetSerializedSize = 1"

definition TypeHeader_Serialize :: "TypeHeader \<Rightarrow> u8 list" where
  "TypeHeader_Serialize h = [MessageType_value (th_type h)]"

text \<open>\<open>Deserialize\<close> into a header \<open>h\<close> that holds a value already: an unknown type leaves \<open>m_type\<close> and
  clears \<open>m_valid\<close>.\<close>

definition TypeHeader_Deserialize :: "TypeHeader \<Rightarrow> u8 list \<Rightarrow> (TypeHeader \<times> u8 list) option" where
  "TypeHeader_Deserialize h bs = do {
     (t, rest) \<leftarrow> ReadU8 bs;
     let h = (if t = 1 then \<lparr>th_type = MADAODVTYPE_RREQ, th_valid = True\<rparr>
              else if t = 2 then \<lparr>th_type = MADAODVTYPE_RREP, th_valid = True\<rparr>
              else if t = 3 then \<lparr>th_type = MADAODVTYPE_RERR, th_valid = True\<rparr>
              else if t = 4 then \<lparr>th_type = MADAODVTYPE_RREP_ACK, th_valid = True\<rparr>
              else h\<lparr>th_valid := False\<rparr>);
     (if length bs - length rest = TypeHeader_GetSerializedSize then Some (h, rest) else None)
   }"

definition TypeHeader_Print :: "TypeHeader \<Rightarrow> string" where
  "TypeHeader_Print h = (case th_type h of
      MADAODVTYPE_RREQ \<Rightarrow> ''RREQ''
    | MADAODVTYPE_RREP \<Rightarrow> ''RREP''
    | MADAODVTYPE_RERR \<Rightarrow> ''RERR''
    | MADAODVTYPE_RREP_ACK \<Rightarrow> ''RREP_ACK'')"

definition TypeHeader_eq :: "TypeHeader \<Rightarrow> TypeHeader \<Rightarrow> bool" where
  "TypeHeader_eq h g = (th_type h = th_type g \<and> th_valid h = th_valid g)"

subsection \<open>RREQ\<close>

record RreqHeader =
  rq_flags :: u8
  rq_reserved :: u8
  rq_hopCount :: u8
  rq_requestID :: u32
  rq_dst :: ipv4
  rq_dstSeqNo :: u32
  rq_origin :: ipv4
  rq_originSeqNo :: u32

text \<open>The constructor with its default arguments.\<close>

definition RreqHeader_new :: "ns3 \<Rightarrow> RreqHeader" where
  "RreqHeader_new E = \<lparr>rq_flags = 0, rq_reserved = 0, rq_hopCount = 0, rq_requestID = 0,
     rq_dst = any_addr E, rq_dstSeqNo = 0, rq_origin = any_addr E, rq_originSeqNo = 0\<rparr>"

definition RreqHeader_GetSerializedSize :: nat where
  "RreqHeader_GetSerializedSize = 23"

definition RreqHeader_Serialize :: "codec \<Rightarrow> RreqHeader \<Rightarrow> u8 list" where
  "RreqHeader_Serialize C h =
     [rq_flags h, rq_reserved h, rq_hopCount h]
     @ put_u32 C (rq_requestID h)
     @ put_addr C (rq_dst h)
     @ put_u32 C (rq_dstSeqNo h)
     @ put_addr C (rq_origin h)
     @ put_u32 C (rq_originSeqNo h)"

definition RreqHeader_Deserialize :: "codec \<Rightarrow> u8 list \<Rightarrow> (RreqHeader \<times> u8 list) option" where
  "RreqHeader_Deserialize C bs = do {
     (flags, i) \<leftarrow> ReadU8 bs;
     (reserved, i) \<leftarrow> ReadU8 i;
     (hopCount, i) \<leftarrow> ReadU8 i;
     (requestID, i) \<leftarrow> ReadNtohU32 C i;
     (dst, i) \<leftarrow> ReadFrom C i;
     (dstSeqNo, i) \<leftarrow> ReadNtohU32 C i;
     (origin, i) \<leftarrow> ReadFrom C i;
     (originSeqNo, i) \<leftarrow> ReadNtohU32 C i;
     (if length bs - length i = RreqHeader_GetSerializedSize
      then Some (\<lparr>rq_flags = flags, rq_reserved = reserved, rq_hopCount = hopCount,
              rq_requestID = requestID, rq_dst = dst, rq_dstSeqNo = dstSeqNo, rq_origin = origin,
              rq_originSeqNo = originSeqNo\<rparr>, i)
      else None)
   }"

text \<open>The flag bits: \<open>m_flags |= (1 << n)\<close>, \<open>m_flags &= ~(1 << n)\<close>, \<open>m_flags & (1 << n)\<close>.\<close>

definition set_flag :: "nat \<Rightarrow> bool \<Rightarrow> u8 \<Rightarrow> u8" where
  "set_flag n f w = (if f then w OR push_bit n 1 else w AND NOT (push_bit n 1))"

definition get_flag :: "nat \<Rightarrow> u8 \<Rightarrow> bool" where
  "get_flag n w = (w AND push_bit n 1 \<noteq> 0)"

definition RreqHeader_SetGratuitousRrep :: "bool \<Rightarrow> RreqHeader \<Rightarrow> RreqHeader" where
  "RreqHeader_SetGratuitousRrep f h = h\<lparr>rq_flags := set_flag 5 f (rq_flags h)\<rparr>"

definition RreqHeader_GetGratuitousRrep :: "RreqHeader \<Rightarrow> bool" where
  "RreqHeader_GetGratuitousRrep h = get_flag 5 (rq_flags h)"

definition RreqHeader_SetDestinationOnly :: "bool \<Rightarrow> RreqHeader \<Rightarrow> RreqHeader" where
  "RreqHeader_SetDestinationOnly f h = h\<lparr>rq_flags := set_flag 4 f (rq_flags h)\<rparr>"

definition RreqHeader_GetDestinationOnly :: "RreqHeader \<Rightarrow> bool" where
  "RreqHeader_GetDestinationOnly h = get_flag 4 (rq_flags h)"

definition RreqHeader_SetUnknownSeqno :: "bool \<Rightarrow> RreqHeader \<Rightarrow> RreqHeader" where
  "RreqHeader_SetUnknownSeqno f h = h\<lparr>rq_flags := set_flag 3 f (rq_flags h)\<rparr>"

definition RreqHeader_GetUnknownSeqno :: "RreqHeader \<Rightarrow> bool" where
  "RreqHeader_GetUnknownSeqno h = get_flag 3 (rq_flags h)"

definition RreqHeader_eq :: "RreqHeader \<Rightarrow> RreqHeader \<Rightarrow> bool" where
  "RreqHeader_eq h g =
     (rq_flags h = rq_flags g \<and> rq_reserved h = rq_reserved g \<and> rq_hopCount h = rq_hopCount g \<and>
      rq_requestID h = rq_requestID g \<and> rq_dst h = rq_dst g \<and> rq_dstSeqNo h = rq_dstSeqNo g \<and>
      rq_origin h = rq_origin g \<and> rq_originSeqNo h = rq_originSeqNo g)"

subsection \<open>RREP\<close>

record RrepHeader =
  rp_flags :: u8
  rp_prefixSize :: u8
  rp_hopCount :: u8
  rp_dst :: ipv4
  rp_dstSeqNo :: u32
  rp_origin :: ipv4
  rp_lifeTime :: u32

text \<open>The lifetime is stored in milliseconds, cut to 32 bits.\<close>

definition RrepHeader_new ::
  "ns3 \<Rightarrow> u8 \<Rightarrow> u8 \<Rightarrow> ipv4 \<Rightarrow> u32 \<Rightarrow> ipv4 \<Rightarrow> time \<Rightarrow> RrepHeader" where
  "RrepHeader_new E prefixSize hopCount dst dstSeqNo origin lifeTime =
     \<lparr>rp_flags = 0, rp_prefixSize = prefixSize, rp_hopCount = hopCount, rp_dst = dst,
      rp_dstSeqNo = dstSeqNo, rp_origin = origin, rp_lifeTime = word_of_int (to_ms E lifeTime)\<rparr>"

definition RrepHeader_GetSerializedSize :: nat where
  "RrepHeader_GetSerializedSize = 19"

definition RrepHeader_Serialize :: "codec \<Rightarrow> RrepHeader \<Rightarrow> u8 list" where
  "RrepHeader_Serialize C h =
     [rp_flags h, rp_prefixSize h, rp_hopCount h]
     @ put_addr C (rp_dst h)
     @ put_u32 C (rp_dstSeqNo h)
     @ put_addr C (rp_origin h)
     @ put_u32 C (rp_lifeTime h)"

definition RrepHeader_Deserialize :: "codec \<Rightarrow> u8 list \<Rightarrow> (RrepHeader \<times> u8 list) option" where
  "RrepHeader_Deserialize C bs = do {
     (flags, i) \<leftarrow> ReadU8 bs;
     (prefixSize, i) \<leftarrow> ReadU8 i;
     (hopCount, i) \<leftarrow> ReadU8 i;
     (dst, i) \<leftarrow> ReadFrom C i;
     (dstSeqNo, i) \<leftarrow> ReadNtohU32 C i;
     (origin, i) \<leftarrow> ReadFrom C i;
     (lifeTime, i) \<leftarrow> ReadNtohU32 C i;
     (if length bs - length i = RrepHeader_GetSerializedSize
      then Some (\<lparr>rp_flags = flags, rp_prefixSize = prefixSize, rp_hopCount = hopCount,
              rp_dst = dst, rp_dstSeqNo = dstSeqNo, rp_origin = origin, rp_lifeTime = lifeTime\<rparr>, i)
      else None)
   }"

definition RrepHeader_SetLifeTime :: "ns3 \<Rightarrow> time \<Rightarrow> RrepHeader \<Rightarrow> RrepHeader" where
  "RrepHeader_SetLifeTime E t h = h\<lparr>rp_lifeTime := word_of_int (to_ms E t)\<rparr>"

definition RrepHeader_GetLifeTime :: "RrepHeader \<Rightarrow> time" where
  "RrepHeader_GetLifeTime h = MilliSeconds (uint (rp_lifeTime h))"

definition RrepHeader_SetAckRequired :: "bool \<Rightarrow> RrepHeader \<Rightarrow> RrepHeader" where
  "RrepHeader_SetAckRequired f h = h\<lparr>rp_flags := set_flag 6 f (rp_flags h)\<rparr>"

definition RrepHeader_GetAckRequired :: "RrepHeader \<Rightarrow> bool" where
  "RrepHeader_GetAckRequired h = get_flag 6 (rp_flags h)"

definition RrepHeader_eq :: "RrepHeader \<Rightarrow> RrepHeader \<Rightarrow> bool" where
  "RrepHeader_eq h g =
     (rp_flags h = rp_flags g \<and> rp_prefixSize h = rp_prefixSize g \<and> rp_hopCount h = rp_hopCount g \<and>
      rp_dst h = rp_dst g \<and> rp_dstSeqNo h = rp_dstSeqNo g \<and> rp_origin h = rp_origin g \<and>
      rp_lifeTime h = rp_lifeTime g)"

definition RrepHeader_SetHello :: "ns3 \<Rightarrow> ipv4 \<Rightarrow> u32 \<Rightarrow> time \<Rightarrow> RrepHeader \<Rightarrow> RrepHeader" where
  "RrepHeader_SetHello E origin srcSeqNo lifetime h =
     h\<lparr>rp_flags := 0, rp_prefixSize := 0, rp_hopCount := 0, rp_dst := origin,
       rp_dstSeqNo := srcSeqNo, rp_origin := origin, rp_lifeTime := word_of_int (to_ms E lifetime)\<rparr>"

subsection \<open>RREP-ACK\<close>

record RrepAckHeader =
  ra_reserved :: u8

definition RrepAckHeader_new :: RrepAckHeader where
  "RrepAckHeader_new = \<lparr>ra_reserved = 0\<rparr>"

definition RrepAckHeader_GetSerializedSize :: nat where
  "RrepAckHeader_GetSerializedSize = 1"

definition RrepAckHeader_Serialize :: "RrepAckHeader \<Rightarrow> u8 list" where
  "RrepAckHeader_Serialize h = [ra_reserved h]"

definition RrepAckHeader_Deserialize :: "u8 list \<Rightarrow> (RrepAckHeader \<times> u8 list) option" where
  "RrepAckHeader_Deserialize bs = do {
     (reserved, i) \<leftarrow> ReadU8 bs;
     (if length bs - length i = RrepAckHeader_GetSerializedSize
      then Some (\<lparr>ra_reserved = reserved\<rparr>, i) else None)
   }"

definition RrepAckHeader_eq :: "RrepAckHeader \<Rightarrow> RrepAckHeader \<Rightarrow> bool" where
  "RrepAckHeader_eq h g = (ra_reserved h = ra_reserved g)"

subsection \<open>RERR\<close>

record RerrHeader =
  re_flag :: u8
  re_reserved :: u8
  re_unreachable :: "(ipv4, u32) smap"

definition RerrHeader_new :: RerrHeader where
  "RerrHeader_new = \<lparr>re_flag = 0, re_reserved = 0, re_unreachable = []\<rparr>"

text \<open>\<open>(uint8_t) m_unreachableDstSeqNo.size ()\<close>.\<close>

definition RerrHeader_GetDestCount :: "RerrHeader \<Rightarrow> u8" where
  "RerrHeader_GetDestCount h = word_of_nat (length (re_unreachable h))"

definition RerrHeader_GetSerializedSize :: "RerrHeader \<Rightarrow> nat" where
  "RerrHeader_GetSerializedSize h = 3 + 8 * unat (RerrHeader_GetDestCount h)"

definition RerrHeader_Serialize :: "codec \<Rightarrow> RerrHeader \<Rightarrow> u8 list" where
  "RerrHeader_Serialize C h =
     [re_flag h, re_reserved h, RerrHeader_GetDestCount h]
     @ concat (map (\<lambda>(a, s). put_addr C a @ put_u32 C s) (re_unreachable h))"

text \<open>The loop of \<open>Deserialize\<close>: \<open>n\<close> destinations are left, \<open>m\<close> is the map so far.\<close>

fun read_dests :: "codec \<Rightarrow> nat \<Rightarrow> u8 list \<Rightarrow> (ipv4, u32) smap \<Rightarrow> ((ipv4, u32) smap \<times> u8 list) option"
where
  "read_dests C 0 i m = Some (m, i)"
| "read_dests C (Suc n) i m = do {
     (address, i) \<leftarrow> ReadFrom C i;
     (seqNo, i) \<leftarrow> ReadNtohU32 C i;
     read_dests C n i (smap_insert address seqNo m)
   }"

definition RerrHeader_Deserialize :: "codec \<Rightarrow> u8 list \<Rightarrow> (RerrHeader \<times> u8 list) option" where
  "RerrHeader_Deserialize C bs = do {
     (flag, i) \<leftarrow> ReadU8 bs;
     (reserved, i) \<leftarrow> ReadU8 i;
     (dest, i) \<leftarrow> ReadU8 i;
     (m, i) \<leftarrow> read_dests C (unat dest) i [];
     let h = \<lparr>re_flag = flag, re_reserved = reserved, re_unreachable = m\<rparr>;
     (if length bs - length i = RerrHeader_GetSerializedSize h then Some (h, i) else None)
   }"

definition RerrHeader_SetNoDelete :: "bool \<Rightarrow> RerrHeader \<Rightarrow> RerrHeader" where
  "RerrHeader_SetNoDelete f h = h\<lparr>re_flag := set_flag 0 f (re_flag h)\<rparr>"

definition RerrHeader_GetNoDelete :: "RerrHeader \<Rightarrow> bool" where
  "RerrHeader_GetNoDelete h = get_flag 0 (re_flag h)"

definition RerrHeader_AddUnDestination ::
  "ipv4 \<Rightarrow> u32 \<Rightarrow> RerrHeader \<Rightarrow> (bool \<times> RerrHeader) option" where
  "RerrHeader_AddUnDestination dst seqNo h =
     (if map_of (re_unreachable h) dst \<noteq> None then Some (True, h)
      else if RerrHeader_GetDestCount h < 255
      then Some (True, h\<lparr>re_unreachable := smap_insert dst seqNo (re_unreachable h)\<rparr>)
      else None)"

text \<open>The pair taken from the front, when there is one, and the header left.\<close>

definition RerrHeader_RemoveUnDestination :: "RerrHeader \<Rightarrow> (ipv4 \<times> u32) option \<times> RerrHeader" where
  "RerrHeader_RemoveUnDestination h =
     (case re_unreachable h of
        [] \<Rightarrow> (None, h)
      | un # m \<Rightarrow> (Some un, h\<lparr>re_unreachable := m\<rparr>))"

definition RerrHeader_Clear :: "RerrHeader \<Rightarrow> RerrHeader" where
  "RerrHeader_Clear h = h\<lparr>re_unreachable := [], re_flag := 0, re_reserved := 0\<rparr>"

text \<open>The loop of \<open>operator==\<close>: compare the next \<open>n\<close> entries pairwise.\<close>

fun dests_eq :: "nat \<Rightarrow> (ipv4, u32) smap \<Rightarrow> (ipv4, u32) smap \<Rightarrow> bool" where
  "dests_eq (Suc n) (j # js) (k # ks) =
     (if fst j \<noteq> fst k \<or> snd j \<noteq> snd k then False else dests_eq n js ks)"
| "dests_eq n js ks = True"

definition RerrHeader_eq :: "RerrHeader \<Rightarrow> RerrHeader \<Rightarrow> bool" where
  "RerrHeader_eq h g =
     (if re_flag h \<noteq> re_flag g \<or> re_reserved h \<noteq> re_reserved g \<or>
         RerrHeader_GetDestCount h \<noteq> RerrHeader_GetDestCount g
      then False
      else dests_eq (unat (RerrHeader_GetDestCount h)) (re_unreachable h) (re_unreachable g))"

end
