(* ===== verification/Expiring.thy ===== *)
theory Expiring
  imports Ns3_Env
begin

text \<open>
  The duplicate cache, the neighbour list and the packet queue are vectors of records with an
  expiry date, and each purges itself with \<open>erase (remove_if (...))\<close> before it is used. What they
  share is that a record once dead stays dead; the consequences for purging are proved here once
  and reach the components by interpretation.
\<close>

locale expiring =
  fixes dead :: "time \<Rightarrow> 'a \<Rightarrow> bool"
  assumes dead_mono: "t \<le> t' \<Longrightarrow> dead t x \<Longrightarrow> dead t' x"
begin

lemma sweep_idem: "filter (\<lambda>x. \<not> dead t x) (filter (\<lambda>x. \<not> dead t x) xs) = filter (\<lambda>x. \<not> dead t x) xs"
  by simp

text \<open>An earlier purge makes no difference to a later one.\<close>

lemma sweep_later:
  "t \<le> t' \<Longrightarrow> filter (\<lambda>x. \<not> dead t' x) (filter (\<lambda>x. \<not> dead t x) xs) = filter (\<lambda>x. \<not> dead t' x) xs"
  by (induction xs) (auto dest: dead_mono)

lemma sweep_all_alive: "(\<forall>x\<in>set xs. \<not> dead t x) \<Longrightarrow> filter (\<lambda>x. \<not> dead t x) xs = xs"
  by simp

lemma alive_before: "t \<le> t' \<Longrightarrow> \<not> dead t' x \<Longrightarrow> \<not> dead t x"
  using dead_mono by blast

lemma sweep_find:
  "t \<le> t' \<Longrightarrow> List.find P (filter (\<lambda>x. \<not> dead t' x) (filter (\<lambda>x. \<not> dead t x) xs)) =
              List.find P (filter (\<lambda>x. \<not> dead t' x) xs)"
  by (simp only: sweep_later)

end

end
