(* ===== verification/Id_Cache.thy ===== *)
theory Id_Cache
  imports Expiring
begin

text \<open>
  \<open>model/madaodv-id-cache.{h,cc}\<close> and \<open>model/madaodv-dpd.{h,cc}\<close>: the cache of identifiers seen
  lately, which discards duplicate RREQs and duplicate broadcast packets. Its contract is a map
  from identifiers to expiry dates that forgets by itself (\<open>IdCache_seen\<close>).
\<close>

subsection \<open>Model\<close>

record unique_id =
  m_context :: ipv4
  m_id :: u32
  m_expire :: time

record id_cache =
  m_idCache :: "unique_id list"
  m_lifetime :: time

definition IdCache_new :: "time \<Rightarrow> id_cache" where
  "IdCache_new lifetime = \<lparr>m_idCache = [], m_lifetime = lifetime\<rparr>"

definition IdCache_IsExpired :: "time \<Rightarrow> unique_id \<Rightarrow> bool" where
  "IdCache_IsExpired t u = (m_expire u < t)"

definition IdCache_Purge :: "time \<Rightarrow> id_cache \<Rightarrow> id_cache" where
  "IdCache_Purge t c = c\<lparr>m_idCache := filter (\<lambda>u. \<not> IdCache_IsExpired t u) (m_idCache c)\<rparr>"

definition IdCache_IsDuplicate :: "time \<Rightarrow> ipv4 \<Rightarrow> u32 \<Rightarrow> id_cache \<Rightarrow> bool \<times> id_cache" where
  "IdCache_IsDuplicate t addr i c =
     (let c = IdCache_Purge t c in
      if \<exists>u\<in>set (m_idCache c). m_context u = addr \<and> m_id u = i then (True, c)
      else (False, c\<lparr>m_idCache := m_idCache c
              @ [\<lparr>m_context = addr, m_id = i, m_expire = m_lifetime c + t\<rparr>]\<rparr>))"

definition IdCache_GetSize :: "time \<Rightarrow> id_cache \<Rightarrow> u32 \<times> id_cache" where
  "IdCache_GetSize t c = (let c = IdCache_Purge t c in (word_of_nat (length (m_idCache c)), c))"

definition IdCache_SetLifetime :: "time \<Rightarrow> id_cache \<Rightarrow> id_cache" where
  "IdCache_SetLifetime l c = c\<lparr>m_lifetime := l\<rparr>"

text \<open>\<open>DuplicatePacketDetection\<close> is a cache keyed by the source address and the packet's uid, a
  64-bit number that the cache's interface cuts to 32 bits.\<close>

definition Dpd_IsDuplicate :: "time \<Rightarrow> packet \<Rightarrow> ipv4_header \<Rightarrow> id_cache \<Rightarrow> bool \<times> id_cache" where
  "Dpd_IsDuplicate t p header c = IdCache_IsDuplicate t (ih_source header) (ucast (pk_uid p)) c"

definition Dpd_SetLifetime :: "time \<Rightarrow> id_cache \<Rightarrow> id_cache" where
  "Dpd_SetLifetime l c = IdCache_SetLifetime l c"

definition Dpd_GetLifetime :: "id_cache \<Rightarrow> time" where
  "Dpd_GetLifetime c = m_lifetime c"

subsection \<open>Purging\<close>

interpretation ids: expiring IdCache_IsExpired
  by unfold_locales (simp add: IdCache_IsExpired_def)

lemma IdCache_Purge_lifetime [simp]: "m_lifetime (IdCache_Purge t c) = m_lifetime c"
  by (simp add: IdCache_Purge_def)

lemma IdCache_Purge_later:
  "t \<le> t' \<Longrightarrow> IdCache_Purge t' (IdCache_Purge t c) = IdCache_Purge t' c"
  using ids.sweep_later by (simp add: IdCache_Purge_def)

lemma set_IdCache_Purge:
  "set (m_idCache (IdCache_Purge t c)) = {u \<in> set (m_idCache c). t \<le> m_expire u}"
  by (auto simp: IdCache_Purge_def IdCache_IsExpired_def)

subsection \<open>The contract: a map that forgets\<close>

definition uid_key :: "unique_id \<Rightarrow> ipv4 \<times> u32" where
  "uid_key u = (m_context u, m_id u)"

definition IdCache_inv :: "id_cache \<Rightarrow> bool" where
  "IdCache_inv c \<longleftrightarrow> distinct (map uid_key (m_idCache c))"

definition IdCache_seen :: "time \<Rightarrow> id_cache \<Rightarrow> ipv4 \<times> u32 \<Rightarrow> time option" where
  "IdCache_seen t c k =
     map_option m_expire (List.find (\<lambda>u. uid_key u = k \<and> t \<le> m_expire u) (m_idCache c))"

lemma IdCache_seen_None:
  "IdCache_seen t c k = None \<longleftrightarrow> \<not> (\<exists>u\<in>set (m_idCache c). uid_key u = k \<and> t \<le> m_expire u)"
  by (auto simp: IdCache_seen_def find_None_iff)

lemma IdCache_inv_new: "IdCache_inv (IdCache_new l)"
  by (simp add: IdCache_inv_def IdCache_new_def)

lemma IdCache_inv_Purge: "IdCache_inv c \<Longrightarrow> IdCache_inv (IdCache_Purge t c)"
  by (simp add: IdCache_inv_def IdCache_Purge_def distinct_map_filter)

lemma IdCache_dup_iff:
  "fst (IdCache_IsDuplicate t a i c) \<longleftrightarrow>
   (\<exists>u\<in>set (m_idCache c). uid_key u = (a, i) \<and> t \<le> m_expire u)"
  by (auto simp: IdCache_IsDuplicate_def set_IdCache_Purge uid_key_def Let_def)

lemma IdCache_dup_records:
  "set (m_idCache (snd (IdCache_IsDuplicate t a i c))) =
     {u \<in> set (m_idCache c). t \<le> m_expire u} \<union>
     (if fst (IdCache_IsDuplicate t a i c) then {}
      else {\<lparr>m_context = a, m_id = i, m_expire = m_lifetime c + t\<rparr>})"
  by (auto simp: IdCache_IsDuplicate_def set_IdCache_Purge Let_def)

lemma IdCache_dup_lifetime [simp]:
  "m_lifetime (snd (IdCache_IsDuplicate t a i c)) = m_lifetime c"
  by (simp add: IdCache_IsDuplicate_def Let_def)

lemma IdCache_inv_dup: "IdCache_inv c \<Longrightarrow> IdCache_inv (snd (IdCache_IsDuplicate t a i c))"
  using IdCache_inv_Purge [of c t]
  by (auto simp: IdCache_IsDuplicate_def IdCache_inv_def uid_key_def Let_def)

lemma find_append:
  "List.find P (xs @ ys) = (case List.find P xs of None \<Rightarrow> List.find P ys | Some x \<Rightarrow> Some x)"
  by (induction xs) auto

subsection \<open>Runs\<close>

text \<open>A sequence of queries at given times.\<close>

fun IdCache_run :: "(time \<times> ipv4 \<times> u32) list \<Rightarrow> id_cache \<Rightarrow> id_cache" where
  "IdCache_run [] c = c"
| "IdCache_run ((t, a, i) # qs) c = IdCache_run qs (snd (IdCache_IsDuplicate t a i c))"

lemma IdCache_run_keeps:
  assumes "u \<in> set (m_idCache c)" and "\<forall>q\<in>set qs. fst q \<le> m_expire u"
  shows "u \<in> set (m_idCache (IdCache_run qs c))"
  using assms by (induction qs c rule: IdCache_run.induct) (auto simp: IdCache_dup_records)

lemma IdCache_run_no_new:
  assumes "u \<in> set (m_idCache (IdCache_run qs c))" and "uid_key u = k" and "\<forall>q\<in>set qs. snd q \<noteq> k"
  shows "u \<in> set (m_idCache c)"
  using assms
  by (induction qs c rule: IdCache_run.induct)
    (auto simp: IdCache_dup_records uid_key_def split: if_splits)

lemma IdCache_inv_run: "IdCache_inv c \<Longrightarrow> IdCache_inv (IdCache_run qs c)"
  by (induction qs c rule: IdCache_run.induct) (auto intro: IdCache_inv_dup)

text \<open>In a cache that satisfies the invariant the record of an identifier is the only one.\<close>

lemma IdCache_dup_record:
  assumes "IdCache_inv c" "u \<in> set (m_idCache c)" "uid_key u = (a, i)"
  shows "fst (IdCache_IsDuplicate t a i c) \<longleftrightarrow> t \<le> m_expire u"
proof -
  have "v = u" if "v \<in> set (m_idCache c)" "uid_key v = (a, i)" for v
    using assms that unfolding IdCache_inv_def distinct_map inj_on_def by metis
  with assms(2,3) show ?thesis unfolding IdCache_dup_iff by blast
qed

subsection \<open>Properties\<close>

text \<open>C33: the cache implements a map from identifiers to expiry dates that forgets. A query answers
  whether the identifier is in the map, and a new identifier enters it until the current time plus the
  lifetime; a duplicate changes nothing. This is what any later query sees.\<close>

theorem idcache_refines_map:
  assumes "t \<le> t'"
  shows "(fst (IdCache_IsDuplicate t a i c) \<longleftrightarrow> IdCache_seen t c (a, i) \<noteq> None)
     \<and> IdCache_seen t' (snd (IdCache_IsDuplicate t a i c)) =
        (if fst (IdCache_IsDuplicate t a i c) then IdCache_seen t' c
         else (IdCache_seen t' c)
                ((a, i) := (if t' \<le> m_lifetime c + t then Some (m_lifetime c + t) else None)))"
proof (intro conjI ext)
  show "fst (IdCache_IsDuplicate t a i c) \<longleftrightarrow> IdCache_seen t c (a, i) \<noteq> None"
    by (simp add: IdCache_dup_iff IdCache_seen_None)
next
  fix k
  let ?P = "\<lambda>u. uid_key u = k \<and> t' \<le> m_expire u"
  have purge: "List.find ?P (m_idCache (IdCache_Purge t c)) = List.find ?P (m_idCache c)"
    unfolding IdCache_Purge_def using assms
    by (auto simp: find_filter IdCache_IsExpired_def intro!: arg_cong [where f = "\<lambda>P. List.find P _"] ext)
  show "IdCache_seen t' (snd (IdCache_IsDuplicate t a i c)) k =
      (if fst (IdCache_IsDuplicate t a i c) then IdCache_seen t' c
       else (IdCache_seen t' c)
              ((a, i) := (if t' \<le> m_lifetime c + t then Some (m_lifetime c + t) else None))) k"
  proof (cases "fst (IdCache_IsDuplicate t a i c)")
    case True
    then have "snd (IdCache_IsDuplicate t a i c) = IdCache_Purge t c"
      by (auto simp: IdCache_IsDuplicate_def Let_def split: if_splits)
    with True purge show ?thesis by (simp add: IdCache_seen_def)
  next
    case False
    then have new: "m_idCache (snd (IdCache_IsDuplicate t a i c)) = m_idCache (IdCache_Purge t c)
        @ [\<lparr>m_context = a, m_id = i, m_expire = m_lifetime c + t\<rparr>]"
      by (auto simp: IdCache_IsDuplicate_def Let_def split: if_splits)
    from False assms have "IdCache_seen t' c (a, i) = None"
      by (auto simp: IdCache_dup_iff IdCache_seen_None)
    with False new purge show ?thesis
      by (auto simp: IdCache_seen_def find_append uid_key_def split: option.splits)
  qed
qed

theorem idcache_refines_map_witness:
  "IdCache_seen 12 (snd (IdCache_IsDuplicate 10 1 2 (IdCache_new 5))) (1, 2) = Some 15"
  using idcache_refines_map [of 10 12 1 2 "IdCache_new 5"]
  by (simp add: IdCache_dup_iff IdCache_new_def)

text \<open>An identifier that was new at \<open>t0\<close> is a duplicate up to and including \<open>t0\<close> plus the lifetime
  of the cache and new again after, whatever was asked in between; asking again does not prolong
  it.\<close>

lemma idcache_window:
  assumes "IdCache_inv c" and "\<not> fst (IdCache_IsDuplicate t0 a i c)"
    and "\<forall>q\<in>set qs. fst q \<le> t0 + m_lifetime c"
  shows "fst (IdCache_IsDuplicate t a i (IdCache_run qs (snd (IdCache_IsDuplicate t0 a i c))))
         \<longleftrightarrow> t \<le> t0 + m_lifetime c"
proof -
  let ?u = "\<lparr>m_context = a, m_id = i, m_expire = m_lifetime c + t0\<rparr>"
  let ?c = "snd (IdCache_IsDuplicate t0 a i c)"
  have "?u \<in> set (m_idCache ?c)" using assms(2) by (simp add: IdCache_dup_records)
  moreover have "\<forall>q\<in>set qs. fst q \<le> m_expire ?u" using assms(3) by (simp add: add.commute)
  ultimately have "?u \<in> set (m_idCache (IdCache_run qs ?c))" by (rule IdCache_run_keeps)
  then show ?thesis
    using IdCache_dup_record [OF IdCache_inv_run [OF IdCache_inv_dup [OF assms(1)]], of ?u]
    by (simp add: uid_key_def add.commute)
qed

text \<open>Duplicate packet detection keeps 32 of the 64 bits of the packet's uid: two packets of one
  source whose uids differ by \<open>2 ^ 32\<close> count as the same packet.\<close>

lemma dpd_confuses_uids:
  assumes "\<not> fst (Dpd_IsDuplicate t p h c)" and "0 \<le> m_lifetime c"
    and "pk_uid q = pk_uid p + 2 ^ 32" and "ih_source g = ih_source h"
  shows "fst (Dpd_IsDuplicate t q g (snd (Dpd_IsDuplicate t p h c)))"
proof -
  have "ucast (x + 2 ^ 32) = (ucast x :: u32)" for x :: u64
    by transfer (simp add: take_bit_eq_mod mod_mod_cancel)
  with assms show ?thesis
    unfolding Dpd_IsDuplicate_def
    by (auto simp: IdCache_dup_iff [of t _ _ "snd _"] IdCache_dup_records uid_key_def)
qed

end
