(* ===== verification/Neighbor_List.thy ===== *)
theory Neighbor_List
  imports Expiring
begin

text \<open>
  \<open>model/madaodv-neighbor.{h,cc}\<close>: the neighbours heard of lately. Purging reports every neighbour
  that is lost to a callback (the routing protocol's link failure handler), which changes the rest
  of the node's state \<open>'s\<close> and may stop the program; the callback never touches the list itself.
\<close>

subsection \<open>Model\<close>

record neighbor =
  m_neighborAddress :: ipv4
  m_hardwareAddress :: mac
  m_expireTime :: time
  close :: bool

record neighbors =
  m_nb :: "neighbor list"
  m_arp :: "arp list"
  m_ntimer :: timer

text \<open>\<open>m_handleLinkFailure\<close>; \<open>None\<close> is the null callback.\<close>

type_synonym 's link_failure = "(ipv4 \<Rightarrow> 's \<Rightarrow> 's option) option"

definition Neighbors_new :: "time \<Rightarrow> neighbors" where
  "Neighbors_new delay = \<lparr>m_nb = [], m_arp = [], m_ntimer = [TmSetDelay delay, TmSetFunction]\<rparr>"

definition CloseNeighbor :: "time \<Rightarrow> neighbor \<Rightarrow> bool" where
  "CloseNeighbor t nb = (m_expireTime nb < t \<or> close nb)"

text \<open>The reporting loop of \<open>Purge\<close>.\<close>

fun notify_closed ::
  "(ipv4 \<Rightarrow> 's \<Rightarrow> 's option) \<Rightarrow> time \<Rightarrow> neighbor list \<Rightarrow> 's \<Rightarrow> 's option" where
  "notify_closed cb t [] s = Some s"
| "notify_closed cb t (j # js) s =
     (if CloseNeighbor t j
      then do { s \<leftarrow> cb (m_neighborAddress j) s; notify_closed cb t js s }
      else notify_closed cb t js s)"

definition Neighbors_Purge ::
  "time \<Rightarrow> 's link_failure \<Rightarrow> neighbors \<Rightarrow> 's \<Rightarrow> (neighbors \<times> 's) option" where
  "Neighbors_Purge t cb nb s =
     (if m_nb nb = [] then Some (nb, s)
      else do {
        s \<leftarrow> (case cb of None \<Rightarrow> Some s | Some f \<Rightarrow> notify_closed f t (m_nb nb) s);
        Some (nb\<lparr>m_nb := filter (\<lambda>n. \<not> CloseNeighbor t n) (m_nb nb),
                 m_ntimer := m_ntimer nb @ [TmCancel, TmSchedule None]\<rparr>, s)
      })"

definition Neighbors_IsNeighbor ::
  "time \<Rightarrow> 's link_failure \<Rightarrow> ipv4 \<Rightarrow> neighbors \<Rightarrow> 's \<Rightarrow> (bool \<times> neighbors \<times> 's) option" where
  "Neighbors_IsNeighbor t cb addr nb s = do {
     (nb, s) \<leftarrow> Neighbors_Purge t cb nb s;
     Some (\<exists>n\<in>set (m_nb nb). m_neighborAddress n = addr, nb, s)
   }"

definition Neighbors_GetExpireTime ::
  "time \<Rightarrow> 's link_failure \<Rightarrow> ipv4 \<Rightarrow> neighbors \<Rightarrow> 's \<Rightarrow> (time \<times> neighbors \<times> 's) option" where
  "Neighbors_GetExpireTime t cb addr nb s = do {
     (nb, s) \<leftarrow> Neighbors_Purge t cb nb s;
     Some (case List.find (\<lambda>n. m_neighborAddress n = addr) (m_nb nb) of
             Some n \<Rightarrow> m_expireTime n - t
           | None \<Rightarrow> Seconds 0, nb, s)
   }"

text \<open>The first ARP cache with a usable entry decides.\<close>

fun lookup_mac :: "ns3 \<Rightarrow> ipv4 \<Rightarrow> arp list \<Rightarrow> mac" where
  "lookup_mac E addr [] = any_mac E"
| "lookup_mac E addr (i # is) =
     (case arp_lookup E i addr of
        Some entry \<Rightarrow>
          if (ae_alive entry \<or> ae_permanent entry) \<and> \<not> ae_expired entry then ae_mac entry
          else lookup_mac E addr is
      | None \<Rightarrow> lookup_mac E addr is)"

definition Neighbors_LookupMacAddress :: "ns3 \<Rightarrow> neighbors \<Rightarrow> ipv4 \<Rightarrow> mac" where
  "Neighbors_LookupMacAddress E nb addr = lookup_mac E addr (m_arp nb)"

text \<open>The loop of \<open>Update\<close>: the first neighbour with the address is refreshed; \<open>None\<close> when there is
  none.\<close>

fun refresh :: "ns3 \<Rightarrow> neighbors \<Rightarrow> ipv4 \<Rightarrow> time \<Rightarrow> neighbor list \<Rightarrow> neighbor list option" where
  "refresh E nb addr expire [] = None"
| "refresh E nb addr expire (i # is) =
     (if m_neighborAddress i = addr
      then Some (i\<lparr>m_expireTime := max (expire + now E) (m_expireTime i),
                   m_hardwareAddress :=
                     (if m_hardwareAddress i = any_mac E
                      then Neighbors_LookupMacAddress E nb (m_neighborAddress i)
                      else m_hardwareAddress i)\<rparr> # is)
      else map_option (\<lambda>is'. i # is') (refresh E nb addr expire is))"

definition Neighbors_Update ::
  "ns3 \<Rightarrow> 's link_failure \<Rightarrow> ipv4 \<Rightarrow> time \<Rightarrow> neighbors \<Rightarrow> 's \<Rightarrow> (neighbors \<times> 's) option" where
  "Neighbors_Update E cb addr expire nb s =
     (case refresh E nb addr expire (m_nb nb) of
        Some l \<Rightarrow> Some (nb\<lparr>m_nb := l\<rparr>, s)
      | None \<Rightarrow>
          Neighbors_Purge (now E) cb
            (nb\<lparr>m_nb := m_nb nb
                @ [\<lparr>m_neighborAddress = addr,
                    m_hardwareAddress = Neighbors_LookupMacAddress E nb addr,
                    m_expireTime = expire + now E, close = False\<rparr>]\<rparr>) s)"

definition Neighbors_ScheduleTimer :: "neighbors \<Rightarrow> neighbors" where
  "Neighbors_ScheduleTimer nb = nb\<lparr>m_ntimer := m_ntimer nb @ [TmCancel, TmSchedule None]\<rparr>"

definition Neighbors_AddArpCache :: "arp \<Rightarrow> neighbors \<Rightarrow> neighbors" where
  "Neighbors_AddArpCache a nb = nb\<lparr>m_arp := m_arp nb @ [a]\<rparr>"

definition Neighbors_DelArpCache :: "arp option \<Rightarrow> neighbors \<Rightarrow> neighbors" where
  "Neighbors_DelArpCache a nb = nb\<lparr>m_arp := filter (\<lambda>b. Some b \<noteq> a) (m_arp nb)\<rparr>"

definition Neighbors_Clear :: "neighbors \<Rightarrow> neighbors" where
  "Neighbors_Clear nb = nb\<lparr>m_nb := []\<rparr>"

definition Neighbors_ProcessTxError ::
  "time \<Rightarrow> 's link_failure \<Rightarrow> mac \<Rightarrow> neighbors \<Rightarrow> 's \<Rightarrow> (neighbors \<times> 's) option" where
  "Neighbors_ProcessTxError t cb addr nb s =
     Neighbors_Purge t cb
       (nb\<lparr>m_nb := map (\<lambda>i. if m_hardwareAddress i = addr then i\<lparr>close := True\<rparr> else i) (m_nb nb)\<rparr>) s"

subsection \<open>Purging\<close>

interpretation nbs: expiring CloseNeighbor
  by unfold_locales (auto simp: CloseNeighbor_def)

text \<open>The callback runs once for every lost neighbour, in the order of the list.\<close>

lemma notify_closed_foldM:
  "notify_closed cb t js = foldM cb (map m_neighborAddress (filter (CloseNeighbor t) js))"
  by (induction js) (rule ext, simp)+

definition lost :: "time \<Rightarrow> neighbors \<Rightarrow> ipv4 list" where
  "lost t nb = map m_neighborAddress (filter (CloseNeighbor t) (m_nb nb))"

definition call_failure :: "'s link_failure \<Rightarrow> ipv4 list \<Rightarrow> 's \<Rightarrow> 's option" where
  "call_failure cb as s = (case cb of None \<Rightarrow> Some s | Some f \<Rightarrow> foldM f as s)"

lemma Neighbors_Purge_eq:
  "Neighbors_Purge t cb nb s =
     (if m_nb nb = [] then Some (nb, s)
      else map_option
        (\<lambda>s'. (nb\<lparr>m_nb := filter (\<lambda>n. \<not> CloseNeighbor t n) (m_nb nb),
                  m_ntimer := m_ntimer nb @ [TmCancel, TmSchedule None]\<rparr>, s'))
        (call_failure cb (lost t nb) s))"
  by (cases "call_failure cb (lost t nb) s")
    (auto simp: Neighbors_Purge_def call_failure_def lost_def notify_closed_foldM split: option.splits)

subsection \<open>Invariant\<close>

text \<open>One record for each neighbour, and a purge is due as long as there is one.\<close>

definition Neighbors_inv :: "neighbors \<Rightarrow> bool" where
  "Neighbors_inv nb \<longleftrightarrow>
     distinct (map m_neighborAddress (m_nb nb)) \<and> (m_nb nb \<noteq> [] \<longrightarrow> tm_started (m_ntimer nb))"

lemma Neighbors_inv_new: "Neighbors_inv (Neighbors_new d)"
  by (simp add: Neighbors_inv_def Neighbors_new_def)

lemma Neighbors_Purge_inv:
  assumes "distinct (map m_neighborAddress (m_nb nb))" "Neighbors_Purge t cb nb s = Some (nb', s')"
  shows "Neighbors_inv nb'"
  using assms
  by (auto simp: Neighbors_Purge_eq Neighbors_inv_def distinct_map_filter split: if_splits)

lemma refresh_addresses:
  "refresh E nb addr expire l = Some l' \<Longrightarrow> map m_neighborAddress l' = map m_neighborAddress l"
  by (induction l arbitrary: l') (auto split: if_splits)

lemma refresh_None: "refresh E nb addr expire l = None \<longleftrightarrow> addr \<notin> m_neighborAddress ` set l"
  by (induction l) auto

lemma Neighbors_Update_inv:
  assumes "Neighbors_inv nb" "Neighbors_Update E cb addr expire nb s = Some (nb', s')"
  shows "Neighbors_inv nb'"
proof (cases "refresh E nb addr expire (m_nb nb)")
  case None
  then have "addr \<notin> m_neighborAddress ` set (m_nb nb)" by (simp add: refresh_None)
  moreover from None assms(2) have "Neighbors_Purge (now E) cb
            (nb\<lparr>m_nb := m_nb nb
                @ [\<lparr>m_neighborAddress = addr,
                    m_hardwareAddress = Neighbors_LookupMacAddress E nb addr,
                    m_expireTime = expire + now E, close = False\<rparr>]\<rparr>) s = Some (nb', s')"
    by (simp add: Neighbors_Update_def)
  ultimately show ?thesis
    using assms(1) by (intro Neighbors_Purge_inv) (auto simp: Neighbors_inv_def)
next
  case (Some l)
  with assms refresh_addresses [OF Some] show ?thesis
    by (auto simp: Neighbors_Update_def Neighbors_inv_def)
qed

lemma mark_closed_addresses:
  "map m_neighborAddress (map (\<lambda>i. if m_hardwareAddress i = a then i\<lparr>close := True\<rparr> else i) l)
   = map m_neighborAddress l"
  by (induction l) auto

lemma Neighbors_ProcessTxError_inv:
  assumes "Neighbors_inv nb" "Neighbors_ProcessTxError t cb a nb s = Some (nb', s')"
  shows "Neighbors_inv nb'"
proof -
  have "distinct (map m_neighborAddress
          (map (\<lambda>i. if m_hardwareAddress i = a then i\<lparr>close := True\<rparr> else i) (m_nb nb)))"
    unfolding mark_closed_addresses using assms(1) by (simp add: Neighbors_inv_def)
  with assms(2) show ?thesis
    unfolding Neighbors_ProcessTxError_def by (intro Neighbors_Purge_inv) auto
qed

lemma Neighbors_Clear_inv: "Neighbors_inv (Neighbors_Clear nb)"
  by (simp add: Neighbors_inv_def Neighbors_Clear_def)

text \<open>What the callbacks do to the rest of the state is all that happens to it.\<close>

lemma call_failure_pres:
  assumes "I s" and "\<And>f a s. cb = Some f \<Longrightarrow> I s \<Longrightarrow> pred_option I (f a s)"
  shows "pred_option I (call_failure cb as s)"
  using assms by (auto simp: call_failure_def split: option.splits intro!: foldM_pres)

lemma Neighbors_Purge_pres:
  assumes "I s" and "\<And>f a s. cb = Some f \<Longrightarrow> I s \<Longrightarrow> pred_option I (f a s)"
  shows "pred_option (\<lambda>(nb', s'). I s') (Neighbors_Purge t cb nb s)"
  using call_failure_pres [of I s cb "lost t nb"] assms
  by (cases "call_failure cb (lost t nb) s") (auto simp: Neighbors_Purge_eq)

lemma Neighbors_Update_pres:
  assumes "I s" and "\<And>f a s. cb = Some f \<Longrightarrow> I s \<Longrightarrow> pred_option I (f a s)"
  shows "pred_option (\<lambda>(nb', s'). I s') (Neighbors_Update E cb addr expire nb s)"
  unfolding Neighbors_Update_def using assms
  by (auto split: option.splits intro!: Neighbors_Purge_pres)

subsection \<open>Properties\<close>

text \<open>C32: a purge keeps exactly the neighbours that are neither expired nor marked, in their order; the
  failure handler runs once for each of the others, in the order of the list; and as long as there
  were neighbours the next purge is scheduled.\<close>

theorem neighbors_purge_reports:
  assumes "Neighbors_Purge t cb nb s = Some (nb', s')"
  shows "m_nb nb' = filter (\<lambda>n. t \<le> m_expireTime n \<and> \<not> close n) (m_nb nb)
       \<and> (case cb of
            None \<Rightarrow> s' = s
          | Some f \<Rightarrow> foldM f (map m_neighborAddress
                         (filter (\<lambda>n. m_expireTime n < t \<or> close n) (m_nb nb))) s = Some s')
       \<and> (m_nb nb \<noteq> [] \<longrightarrow> tm_started (m_ntimer nb'))"
proof -
  have "CloseNeighbor t = (\<lambda>n. m_expireTime n < t \<or> close n)"
    by (rule ext) (simp add: CloseNeighbor_def)
  moreover have "(\<lambda>n. \<not> CloseNeighbor t n) = (\<lambda>n. t \<le> m_expireTime n \<and> \<not> close n)"
    by (rule ext) (auto simp: CloseNeighbor_def)
  ultimately show ?thesis
    using assms
    by (auto simp: Neighbors_Purge_eq call_failure_def lost_def split: if_splits option.splits)
qed

definition example_nbs :: neighbors where
  "example_nbs =
     \<lparr>m_nb = [\<lparr>m_neighborAddress = 1, m_hardwareAddress = 11, m_expireTime = 5, close = False\<rparr>,
              \<lparr>m_neighborAddress = 2, m_hardwareAddress = 12, m_expireTime = 9, close = False\<rparr>],
      m_arp = [], m_ntimer = [TmSchedule None]\<rparr>"

theorem neighbors_purge_reports_witness:
  "\<exists>nb' s'. Neighbors_Purge 7 (Some (\<lambda>a s. Some (s @ [a]))) example_nbs [] = Some (nb', s')
     \<and> map m_neighborAddress (m_nb nb') = [2] \<and> s' = [1]"
proof -
  obtain nb' s' where p: "Neighbors_Purge 7 (Some (\<lambda>a s. Some (s @ [a]))) example_nbs [] = Some (nb', s')"
    by (simp add: Neighbors_Purge_def example_nbs_def CloseNeighbor_def)
  from neighbors_purge_reports [OF p] p show ?thesis by (simp add: example_nbs_def)
qed

text \<open>Hearing of a neighbour never shortens its lifetime. A known one expires at the later of the
  two dates, and neither the others nor the rest of the node's state change; a new one is entered to
  expire after the time given.\<close>

lemma neighbors_update_extends:
  assumes "Neighbors_Update E cb addr expire nb s = Some (nb', s')" and "0 \<le> expire"
  shows "case List.find (\<lambda>n. m_neighborAddress n = addr) (m_nb nb) of
      Some n0 \<Rightarrow>
        s' = s \<and> length (m_nb nb') = length (m_nb nb)
        \<and> filter (\<lambda>n. m_neighborAddress n \<noteq> addr) (m_nb nb')
          = filter (\<lambda>n. m_neighborAddress n \<noteq> addr) (m_nb nb)
        \<and> (\<exists>n. List.find (\<lambda>n. m_neighborAddress n = addr) (m_nb nb') = Some n
              \<and> m_expireTime n = max (expire + now E) (m_expireTime n0) \<and> close n = close n0)
    | None \<Rightarrow>
        \<exists>n\<in>set (m_nb nb'). m_neighborAddress n = addr \<and> m_expireTime n = expire + now E"
proof -
  have ref: "refresh E nb addr expire l = Some l' \<Longrightarrow>
      \<exists>n0 n. List.find (\<lambda>n. m_neighborAddress n = addr) l = Some n0
        \<and> List.find (\<lambda>n. m_neighborAddress n = addr) l' = Some n
        \<and> m_expireTime n = max (expire + now E) (m_expireTime n0) \<and> close n = close n0
        \<and> length l' = length l
        \<and> filter (\<lambda>n. m_neighborAddress n \<noteq> addr) l' = filter (\<lambda>n. m_neighborAddress n \<noteq> addr) l" for l l'
    by (induction l arbitrary: l') (auto split: if_splits)
  show ?thesis
  proof (cases "refresh E nb addr expire (m_nb nb)")
    case None
    then have "List.find (\<lambda>n. m_neighborAddress n = addr) (m_nb nb) = None"
      by (auto simp: refresh_None find_None_iff)
    with None assms show ?thesis
      by (auto simp: Neighbors_Update_def Neighbors_Purge_eq CloseNeighbor_def)
  next
    case (Some l)
    with ref [OF Some] assms(1) show ?thesis by (auto simp: Neighbors_Update_def)
  qed
qed

text \<open>After a failed transmission to a MAC address the neighbours with that address are gone, with
  those that had expired, and no others.\<close>

lemma neighbors_tx_error:
  assumes "Neighbors_ProcessTxError t cb a nb s = Some (nb', s')"
  shows "m_nb nb' = filter (\<lambda>n. m_hardwareAddress n \<noteq> a \<and> t \<le> m_expireTime n \<and> \<not> close n) (m_nb nb)"
proof -
  have "filter (\<lambda>n. \<not> CloseNeighbor t n) (map (\<lambda>i. if m_hardwareAddress i = a then i\<lparr>close := True\<rparr> else i) l)
      = filter (\<lambda>n. m_hardwareAddress n \<noteq> a \<and> t \<le> m_expireTime n \<and> \<not> close n) l" for l
    by (induction l) (auto simp: CloseNeighbor_def)
  with assms show ?thesis
    by (auto simp: Neighbors_ProcessTxError_def Neighbors_Purge_eq split: if_splits)
qed

end
