(* ===== verification/Request_Queue.thy ===== *)
theory Request_Queue
  imports Expiring "HOL-Library.Multiset"
begin

text \<open>
  \<open>model/madaodv-rqueue.{h,cc}\<close>: the drop-front queue of the data packets that wait for a route.
  Each operation yields the error callbacks it invokes, one for every packet it drops.
\<close>

subsection \<open>Model\<close>

record queue_entry =
  qe_packet :: packet
  qe_header :: ipv4_header
  qe_ucb :: callback
  qe_ecb :: callback
  qe_expire :: time

record request_queue =
  m_queue :: "queue_entry list"
  m_maxLen :: u32
  m_queueTimeout :: time

definition RequestQueue_new :: "u32 \<Rightarrow> time \<Rightarrow> request_queue" where
  "RequestQueue_new maxLen routeToQueueTimeout =
     \<lparr>m_queue = [], m_maxLen = maxLen, m_queueTimeout = routeToQueueTimeout\<rparr>"

text \<open>The constructor of an entry; the default expiry argument is the current time.\<close>

definition QueueEntry_new ::
  "time \<Rightarrow> packet \<Rightarrow> ipv4_header \<Rightarrow> callback \<Rightarrow> callback \<Rightarrow> time \<Rightarrow> queue_entry" where
  "QueueEntry_new t pa h ucb ecb exp =
     \<lparr>qe_packet = pa, qe_header = h, qe_ucb = ucb, qe_ecb = ecb, qe_expire = exp + t\<rparr>"

definition QueueEntry_SetExpireTime :: "time \<Rightarrow> time \<Rightarrow> queue_entry \<Rightarrow> queue_entry" where
  "QueueEntry_SetExpireTime t exp e = e\<lparr>qe_expire := exp + t\<rparr>"

definition QueueEntry_GetExpireTime :: "time \<Rightarrow> queue_entry \<Rightarrow> time" where
  "QueueEntry_GetExpireTime t e = qe_expire e - t"

abbreviation qe_dst :: "queue_entry \<Rightarrow> ipv4" where
  "qe_dst e \<equiv> ih_destination (qe_header e)"

text \<open>The call of the error callback.\<close>

definition RequestQueue_Drop :: "queue_entry \<Rightarrow> effect" where
  "RequestQueue_Drop en = Error (qe_ecb en) (qe_packet en) (qe_header en)"

definition RequestQueue_IsExpired :: "time \<Rightarrow> queue_entry \<Rightarrow> bool" where
  "RequestQueue_IsExpired t e = (QueueEntry_GetExpireTime t e < Seconds 0)"

definition RequestQueue_Purge :: "time \<Rightarrow> request_queue \<Rightarrow> request_queue \<times> effect list" where
  "RequestQueue_Purge t q =
     (q\<lparr>m_queue := filter (\<lambda>e. \<not> RequestQueue_IsExpired t e) (m_queue q)\<rparr>,
      map RequestQueue_Drop (filter (RequestQueue_IsExpired t) (m_queue q)))"

definition RequestQueue_GetSize :: "time \<Rightarrow> request_queue \<Rightarrow> u32 \<times> request_queue \<times> effect list" where
  "RequestQueue_GetSize t q =
     (let (q, ds) = RequestQueue_Purge t q in (word_of_nat (length (m_queue q)), q, ds))"

text \<open>\<open>m_queue.front ()\<close> of an empty queue, which a limit of 0 asks for, is undefined.\<close>

definition RequestQueue_Enqueue ::
  "time \<Rightarrow> queue_entry \<Rightarrow> request_queue \<Rightarrow> (bool \<times> request_queue \<times> effect list) option" where
  "RequestQueue_Enqueue t entry q =
     (let (q, ds) = RequestQueue_Purge t q in
      if \<exists>i\<in>set (m_queue q). pk_uid (qe_packet i) = pk_uid (qe_packet entry) \<and> qe_dst i = qe_dst entry
      then Some (False, q, ds)
      else
        let entry = QueueEntry_SetExpireTime t (m_queueTimeout q) entry in
        if length (m_queue q) = unat (m_maxLen q)
        then (case m_queue q of
                [] \<Rightarrow> None
              | front # rest \<Rightarrow>
                  Some (True, q\<lparr>m_queue := rest @ [entry]\<rparr>, ds @ [RequestQueue_Drop front]))
        else Some (True, q\<lparr>m_queue := m_queue q @ [entry]\<rparr>, ds))"

definition RequestQueue_DropPacketWithDst ::
  "time \<Rightarrow> ipv4 \<Rightarrow> request_queue \<Rightarrow> request_queue \<times> effect list" where
  "RequestQueue_DropPacketWithDst t dst q =
     (let (q, ds) = RequestQueue_Purge t q in
      (q\<lparr>m_queue := filter (\<lambda>en. \<not> qe_dst en = dst) (m_queue q)\<rparr>,
       ds @ map RequestQueue_Drop (filter (\<lambda>i. qe_dst i = dst) (m_queue q))))"

text \<open>The first entry with the destination and the others, in order.\<close>

fun take_first :: "ipv4 \<Rightarrow> queue_entry list \<Rightarrow> (queue_entry \<times> queue_entry list) option" where
  "take_first dst [] = None"
| "take_first dst (i # is) =
     (if qe_dst i = dst then Some (i, is)
      else map_option (\<lambda>(e, is'). (e, i # is')) (take_first dst is))"

definition RequestQueue_Dequeue ::
  "time \<Rightarrow> ipv4 \<Rightarrow> request_queue \<Rightarrow> queue_entry option \<times> request_queue \<times> effect list" where
  "RequestQueue_Dequeue t dst q =
     (let (q, ds) = RequestQueue_Purge t q in
      case take_first dst (m_queue q) of
        Some (entry, rest) \<Rightarrow> (Some entry, q\<lparr>m_queue := rest\<rparr>, ds)
      | None \<Rightarrow> (None, q, ds))"

definition RequestQueue_Find :: "ipv4 \<Rightarrow> request_queue \<Rightarrow> bool" where
  "RequestQueue_Find dst q = (\<exists>i\<in>set (m_queue q). qe_dst i = dst)"

definition RequestQueue_SetMaxQueueLen :: "u32 \<Rightarrow> request_queue \<Rightarrow> request_queue" where
  "RequestQueue_SetMaxQueueLen len q = q\<lparr>m_maxLen := len\<rparr>"

definition RequestQueue_SetQueueTimeout :: "time \<Rightarrow> request_queue \<Rightarrow> request_queue" where
  "RequestQueue_SetQueueTimeout t q = q\<lparr>m_queueTimeout := t\<rparr>"

subsection \<open>Purging\<close>

interpretation rqs: expiring RequestQueue_IsExpired
  by unfold_locales (auto simp: RequestQueue_IsExpired_def QueueEntry_GetExpireTime_def)

lemmas queue_ops =
  RequestQueue_Purge_def RequestQueue_GetSize_def RequestQueue_Enqueue_def
  RequestQueue_DropPacketWithDst_def RequestQueue_Dequeue_def

subsection \<open>Invariant\<close>

text \<open>At most one entry for a packet and a destination. That there are no more entries than allowed is
  kept apart: lowering the limit can break it.\<close>

definition qe_key :: "queue_entry \<Rightarrow> u64 \<times> ipv4" where
  "qe_key e = (pk_uid (qe_packet e), qe_dst e)"

definition RequestQueue_inv :: "request_queue \<Rightarrow> bool" where
  "RequestQueue_inv q \<longleftrightarrow> distinct (map qe_key (m_queue q))"

definition queue_bounded :: "request_queue \<Rightarrow> bool" where
  "queue_bounded q \<longleftrightarrow> length (m_queue q) \<le> unat (m_maxLen q)"

lemma qe_key_absent:
  "(\<exists>i\<in>set l. pk_uid (qe_packet i) = pk_uid (qe_packet e) \<and> qe_dst i = qe_dst e) \<longleftrightarrow>
   qe_key e \<in> qe_key ` set l"
  by (auto simp: qe_key_def image_iff) metis

lemma qe_key_SetExpireTime [simp]: "qe_key (QueueEntry_SetExpireTime t x e) = qe_key e"
  by (simp add: qe_key_def QueueEntry_SetExpireTime_def)

lemma RequestQueue_inv_new: "RequestQueue_inv (RequestQueue_new n t)"
  by (simp add: RequestQueue_inv_def RequestQueue_new_def)

lemma RequestQueue_Purge_inv: "RequestQueue_inv q \<Longrightarrow> RequestQueue_inv (fst (RequestQueue_Purge t q))"
  by (simp add: RequestQueue_inv_def RequestQueue_Purge_def distinct_map_filter)

lemma RequestQueue_Purge_bounded: "queue_bounded q \<Longrightarrow> queue_bounded (fst (RequestQueue_Purge t q))"
  by (auto simp: queue_bounded_def RequestQueue_Purge_def intro: order_trans [OF length_filter_le])

lemma RequestQueue_DropPacketWithDst_inv:
  "RequestQueue_inv q \<Longrightarrow> RequestQueue_inv (fst (RequestQueue_DropPacketWithDst t dst q))"
  by (simp add: RequestQueue_inv_def queue_ops distinct_map_filter del: filter_filter)

lemma RequestQueue_DropPacketWithDst_bounded:
  "queue_bounded q \<Longrightarrow> queue_bounded (fst (RequestQueue_DropPacketWithDst t dst q))"
  by (auto simp: queue_bounded_def queue_ops intro: order_trans [OF length_filter_le])

lemma take_first_None: "take_first dst l = None \<longleftrightarrow> (\<forall>e\<in>set l. qe_dst e \<noteq> dst)"
  by (induction l) auto

lemma take_first_Some:
  "take_first dst l = Some (e, r) \<Longrightarrow>
   \<exists>xs ys. l = xs @ e # ys \<and> r = xs @ ys \<and> qe_dst e = dst \<and> (\<forall>x\<in>set xs. qe_dst x \<noteq> dst)"
proof (induction l arbitrary: e r)
  case Nil
  then show ?case by simp
next
  case (Cons i l)
  show ?case
  proof (cases "qe_dst i = dst")
    case True
    with Cons.prems show ?thesis by (intro exI [of _ "[]"] exI [of _ l]) auto
  next
    case False
    with Cons.prems obtain r' where "take_first dst l = Some (e, r')" "r = i # r'" by auto
    then obtain xs ys where "l = xs @ e # ys" "r' = xs @ ys" "qe_dst e = dst"
      "\<forall>x\<in>set xs. qe_dst x \<noteq> dst"
      using Cons.IH by blast
    with False \<open>r = i # r'\<close> show ?thesis
      by (intro exI [of _ "i # xs"] exI [of _ ys]) auto
  qed
qed

lemma take_first_length: "take_first dst l = Some (e, r) \<Longrightarrow> length r < length l"
  by (auto dest: take_first_Some)

lemma RequestQueue_Dequeue_bounded:
  assumes "queue_bounded q" "RequestQueue_Dequeue t dst q = (e, q', ds)"
  shows "queue_bounded q'"
  using assms(2) RequestQueue_Purge_bounded [OF assms(1), of t]
  by (auto simp: RequestQueue_Dequeue_def queue_bounded_def Let_def split: prod.splits option.splits
      dest!: take_first_length)

lemma RequestQueue_Dequeue_inv:
  assumes "RequestQueue_inv q" "RequestQueue_Dequeue t dst q = (e, q', ds)"
  shows "RequestQueue_inv q'"
proof -
  have "RequestQueue_inv (fst (RequestQueue_Purge t q))"
    using assms(1) by (rule RequestQueue_Purge_inv)
  with assms(2) show ?thesis
    by (auto simp: RequestQueue_Dequeue_def RequestQueue_inv_def Let_def split: prod.splits option.splits
        dest!: take_first_Some)
qed

lemma RequestQueue_Enqueue_inv:
  assumes "RequestQueue_inv q" "RequestQueue_Enqueue t e q = Some (b, q', ds)"
  shows "RequestQueue_inv q'"
proof -
  obtain p es where p: "RequestQueue_Purge t q = (p, es)" by fastforce
  then have "RequestQueue_inv p" using RequestQueue_Purge_inv [OF assms(1), of t] by simp
  with assms(2) p show ?thesis
    unfolding RequestQueue_Enqueue_def qe_key_absent
    by (auto simp: RequestQueue_inv_def Let_def split: if_splits list.splits)
qed

lemma RequestQueue_Enqueue_bounded:
  assumes "queue_bounded q" "RequestQueue_Enqueue t e q = Some (b, q', ds)"
  shows "queue_bounded q'"
proof -
  obtain p es where p: "RequestQueue_Purge t q = (p, es)" by fastforce
  then have "queue_bounded p" using RequestQueue_Purge_bounded [OF assms(1), of t] by simp
  with assms(2) p show ?thesis
    unfolding RequestQueue_Enqueue_def
    by (auto simp: queue_bounded_def Let_def split: if_splits list.splits)
qed

text \<open>The limit changes only where it is set.\<close>

lemma RequestQueue_Purge_maxLen [simp]: "m_maxLen (fst (RequestQueue_Purge t q)) = m_maxLen q"
  by (simp add: RequestQueue_Purge_def)

lemma RequestQueue_DropPacketWithDst_maxLen:
  "m_maxLen (fst (RequestQueue_DropPacketWithDst t dst q)) = m_maxLen q"
  by (simp add: queue_ops)

lemma RequestQueue_Dequeue_maxLen:
  "RequestQueue_Dequeue t dst q = (e, q', ds) \<Longrightarrow> m_maxLen q' = m_maxLen q"
  by (auto simp: queue_ops Let_def split: option.splits)

lemma RequestQueue_Enqueue_maxLen:
  "RequestQueue_Enqueue t e q = Some (b, q', ds) \<Longrightarrow> m_maxLen q' = m_maxLen q"
  by (auto simp: queue_ops Let_def split: if_splits list.splits)

subsection \<open>No packet is lost\<close>

text \<open>The error callback of an entry identifies it up to its expiry date; the callbacks invoked are
  the entries that are gone.\<close>

abbreviation pending :: "request_queue \<Rightarrow> effect multiset" where
  "pending q \<equiv> mset (map RequestQueue_Drop (m_queue q))"

lemma mset_map_filter_split:
  "mset (map f (filter (\<lambda>x. \<not> P x) xs)) + mset (map f (filter P xs)) = mset (map f xs)"
  by (induction xs) auto

lemma RequestQueue_Purge_mset:
  assumes "RequestQueue_Purge t q = (q', ds)"
  shows "pending q' + mset ds = pending q"
  using assms mset_map_filter_split [of RequestQueue_Drop "RequestQueue_IsExpired t" "m_queue q"]
  by (auto simp: RequestQueue_Purge_def)

lemma RequestQueue_DropPacketWithDst_mset:
  assumes "RequestQueue_DropPacketWithDst t dst q = (q', ds)"
  shows "pending q' + mset ds = pending q"
proof -
  obtain p es where p: "RequestQueue_Purge t q = (p, es)" by fastforce
  with assms RequestQueue_Purge_mset [OF p]
    mset_map_filter_split [of RequestQueue_Drop "\<lambda>i. qe_dst i = dst" "m_queue p"]
  show ?thesis by (auto simp: RequestQueue_DropPacketWithDst_def ac_simps)
qed

lemma RequestQueue_Dequeue_mset:
  assumes "RequestQueue_Dequeue t dst q = (e, q', ds)"
  shows "pending q' + mset ds + (case e of None \<Rightarrow> {#} | Some e \<Rightarrow> {#RequestQueue_Drop e#}) = pending q"
proof -
  obtain p es where p: "RequestQueue_Purge t q = (p, es)" by fastforce
  with assms RequestQueue_Purge_mset [OF p] show ?thesis
    by (auto simp: RequestQueue_Dequeue_def ac_simps split: option.splits dest!: take_first_Some)
qed

lemma RequestQueue_Drop_SetExpireTime [simp]:
  "RequestQueue_Drop (QueueEntry_SetExpireTime t x e) = RequestQueue_Drop e"
  by (simp add: RequestQueue_Drop_def QueueEntry_SetExpireTime_def)

lemma RequestQueue_Enqueue_mset:
  assumes "RequestQueue_Enqueue t e q = Some (b, q', ds)"
  shows "pending q' + mset ds = pending q + (if b then {#RequestQueue_Drop e#} else {#})"
proof -
  obtain p es where p: "RequestQueue_Purge t q = (p, es)" by fastforce
  with assms RequestQueue_Purge_mset [OF p] show ?thesis
    by (auto simp: RequestQueue_Enqueue_def Let_def ac_simps split: if_splits list.splits)
qed

subsection \<open>Runs of the queue\<close>

datatype queue_op =
    QEnqueue queue_entry
  | QDequeue ipv4
  | QDropPacketWithDst ipv4
  | QGetSize
  | QSetQueueTimeout time
  | QSetMaxQueueLen u32

text \<open>A step yields the queue, the error callbacks invoked, and the entries that entered and left by
  the operation.\<close>

fun queue_step :: "time \<Rightarrow> queue_op \<Rightarrow> request_queue \<Rightarrow>
  (request_queue \<times> effect list \<times> queue_entry list \<times> queue_entry list) option" where
  "queue_step t (QEnqueue e) q =
     map_option (\<lambda>(b, q, ds). (q, ds, if b then [e] else [], [])) (RequestQueue_Enqueue t e q)"
| "queue_step t (QDequeue dst) q =
     (let (e, q, ds) = RequestQueue_Dequeue t dst q in
      Some (q, ds, [], case e of None \<Rightarrow> [] | Some e \<Rightarrow> [e]))"
| "queue_step t (QDropPacketWithDst dst) q =
     (let (q, ds) = RequestQueue_DropPacketWithDst t dst q in Some (q, ds, [], []))"
| "queue_step t QGetSize q = (let (n, q, ds) = RequestQueue_GetSize t q in Some (q, ds, [], []))"
| "queue_step t (QSetQueueTimeout d) q = Some (RequestQueue_SetQueueTimeout d q, [], [], [])"
| "queue_step t (QSetMaxQueueLen n) q = Some (RequestQueue_SetMaxQueueLen n q, [], [], [])"

fun queue_run :: "(time \<times> queue_op) list \<Rightarrow> request_queue \<Rightarrow>
  (request_queue \<times> effect list \<times> queue_entry list \<times> queue_entry list) option" where
  "queue_run [] q = Some (q, [], [], [])"
| "queue_run ((t, x) # ops) q =
     (case queue_step t x q of
        None \<Rightarrow> None
      | Some (q, ds, ins, outs) \<Rightarrow>
          map_option (\<lambda>(q, ds', ins', outs'). (q, ds @ ds', ins @ ins', outs @ outs'))
            (queue_run ops q))"

lemma queue_step_mset:
  assumes "queue_step t x q = Some (q', ds, ins, outs)"
  shows "pending q' + mset ds + mset (map RequestQueue_Drop outs) =
         pending q + mset (map RequestQueue_Drop ins)"
proof (cases x)
  case (QEnqueue e)
  with assms show ?thesis by (auto dest: RequestQueue_Enqueue_mset split: if_splits)
next
  case (QDequeue dst)
  with assms show ?thesis
    by (auto split: prod.splits option.splits dest: RequestQueue_Dequeue_mset)
next
  case (QDropPacketWithDst dst)
  with assms show ?thesis by (auto split: prod.splits dest: RequestQueue_DropPacketWithDst_mset)
next
  case QGetSize
  with assms show ?thesis
    by (auto simp: RequestQueue_GetSize_def split: prod.splits dest: RequestQueue_Purge_mset)
qed (use assms in \<open>auto simp: RequestQueue_SetQueueTimeout_def RequestQueue_SetMaxQueueLen_def\<close>)

lemma queue_step_bounded:
  assumes "queue_bounded q" and "queue_step t x q = Some (q', ds, ins, outs)"
    and "\<And>n. x = QSetMaxQueueLen n \<Longrightarrow> length (m_queue q) \<le> unat n"
  shows "queue_bounded q'"
proof (cases x)
  case (QDropPacketWithDst dst)
  with assms(1,2) RequestQueue_DropPacketWithDst_bounded [of q t dst] show ?thesis
    by (auto split: prod.splits)
next
  case QGetSize
  with assms(1,2) RequestQueue_Purge_bounded [of q t] show ?thesis
    by (auto simp: RequestQueue_GetSize_def split: prod.splits)
next
  case (QSetQueueTimeout d)
  with assms(1,2) show ?thesis by (auto simp: queue_bounded_def RequestQueue_SetQueueTimeout_def)
qed (use assms in \<open>auto simp: queue_bounded_def RequestQueue_SetMaxQueueLen_def split: prod.splits
      intro: RequestQueue_Enqueue_bounded [unfolded queue_bounded_def] RequestQueue_Dequeue_bounded [unfolded queue_bounded_def]\<close>)

subsection \<open>Properties\<close>

text \<open>C29: over any run of the queue's operations no packet is lost and none is made up: the packets
  accepted and those that waited before are those that wait now, those handed out, and those whose
  error callback was invoked, each as often.\<close>

theorem queue_conserves_packets:
  assumes "queue_run ops q = Some (q', ds, ins, outs)"
  shows "pending q' + mset ds + mset (map RequestQueue_Drop outs) =
         pending q + mset (map RequestQueue_Drop ins)"
  using assms
proof (induction ops q arbitrary: q' ds ins outs rule: queue_run.induct)
  case (1 q)
  then show ?case by simp
next
  case (2 t x ops q)
  then obtain q1 ds1 ins1 outs1 ds2 ins2 outs2
    where s: "queue_step t x q = Some (q1, ds1, ins1, outs1)"
      and r: "queue_run ops q1 = Some (q', ds2, ins2, outs2)"
      and "ds = ds1 @ ds2" "ins = ins1 @ ins2" "outs = outs1 @ outs2"
    by (auto split: option.splits)
  with 2(1) [OF s refl refl refl r] queue_step_mset [OF s] show ?case
    by (simp add: union_assoc) (metis (no_types, lifting) union_assoc union_commute)
qed

definition example_packet :: packet where
  "example_packet = \<lparr>pk_uid = 4, pk_bytes = [], pk_ttl_tag = None, pk_oif_tag = None\<rparr>"

definition example_header :: "ipv4 \<Rightarrow> ipv4_header" where
  "example_header dst = \<lparr>ih_source = 1, ih_destination = dst, ih_protocol = 17, ih_ttl = 64\<rparr>"

definition example_entry :: "ipv4 \<Rightarrow> queue_entry" where
  "example_entry dst = QueueEntry_new 0 example_packet (example_header dst) 1 2 0"

lemmas examples = example_packet_def example_header_def example_entry_def QueueEntry_new_def

theorem queue_conserves_packets_witness:
  "\<exists>q ds. queue_run [(0, QEnqueue (example_entry 5)), (1, QEnqueue (example_entry 6)), (2, QDequeue 5)]
       (RequestQueue_new 1 10) = Some (q, ds, [example_entry 5, example_entry 6], [])
     \<and> pending q + mset ds = {# RequestQueue_Drop (example_entry 5), RequestQueue_Drop (example_entry 6) #}"
proof -
  obtain q ds where r: "queue_run [(0, QEnqueue (example_entry 5)), (1, QEnqueue (example_entry 6)), (2, QDequeue 5)]
       (RequestQueue_new 1 10) = Some (q, ds, [example_entry 5, example_entry 6], [])"
    by (simp add: queue_ops RequestQueue_new_def examples Let_def RequestQueue_IsExpired_def
        QueueEntry_GetExpireTime_def QueueEntry_SetExpireTime_def)
  from queue_conserves_packets [OF r] r show ?thesis by (simp add: RequestQueue_new_def)
qed

text \<open>C30: \<open>Dequeue\<close> takes the oldest live packet for the destination, and leaves all the others that
  are live, in their order.\<close>

theorem queue_dequeue_fifo:
  assumes "RequestQueue_Dequeue t dst q = (e, q', ds)"
  shows "filter (\<lambda>x. qe_dst x = dst) (filter (\<lambda>x. \<not> RequestQueue_IsExpired t x) (m_queue q)) =
           (case e of None \<Rightarrow> [] | Some x \<Rightarrow> [x]) @ filter (\<lambda>x. qe_dst x = dst) (m_queue q')
       \<and> filter (\<lambda>x. qe_dst x \<noteq> dst) (m_queue q') =
         filter (\<lambda>x. qe_dst x \<noteq> dst) (filter (\<lambda>x. \<not> RequestQueue_IsExpired t x) (m_queue q))
       \<and> (e = None \<longrightarrow> (\<forall>x\<in>set (m_queue q'). qe_dst x \<noteq> dst))"
proof -
  define live where "live = filter (\<lambda>x. \<not> RequestQueue_IsExpired t x) (m_queue q)"
  have "filter (\<lambda>x. qe_dst x = dst) live =
           (case e of None \<Rightarrow> [] | Some x \<Rightarrow> [x]) @ filter (\<lambda>x. qe_dst x = dst) (m_queue q')
       \<and> filter (\<lambda>x. qe_dst x \<noteq> dst) (m_queue q') = filter (\<lambda>x. qe_dst x \<noteq> dst) live
       \<and> (e = None \<longrightarrow> (\<forall>x\<in>set (m_queue q'). qe_dst x \<noteq> dst))"
  proof (cases "take_first dst live")
    case None
    with assms have "e = None" "m_queue q' = live"
      by (auto simp: RequestQueue_Dequeue_def RequestQueue_Purge_def live_def)
    with None show ?thesis by (auto simp: take_first_None filter_empty_conv)
  next
    case (Some a)
    with assms have a: "e = Some (fst a)" "m_queue q' = snd a"
      by (auto simp: RequestQueue_Dequeue_def RequestQueue_Purge_def live_def split: prod.splits)
    from Some obtain xs ys where "live = xs @ fst a # ys" "snd a = xs @ ys"
      "qe_dst (fst a) = dst" "\<forall>z\<in>set xs. qe_dst z \<noteq> dst"
      using take_first_Some [of dst live "fst a" "snd a"] by auto
    with a show ?thesis by (simp add: filter_empty_conv)
  qed
  then show ?thesis unfolding live_def .
qed

theorem queue_dequeue_fifo_witness:
  "filter (\<lambda>x. qe_dst x \<noteq> 5)
     (m_queue (fst (snd (RequestQueue_Dequeue 0 5
        \<lparr>m_queue = [example_entry 6, example_entry 5], m_maxLen = 2, m_queueTimeout = 10\<rparr>))))
   = [example_entry 6]"
proof -
  let ?q = "\<lparr>m_queue = [example_entry 6, example_entry 5], m_maxLen = 2, m_queueTimeout = 10\<rparr>"
  obtain e q' ds where d: "RequestQueue_Dequeue 0 5 ?q = (e, q', ds)" by (metis prod_cases3)
  from queue_dequeue_fifo [OF d] d show ?thesis
    by (simp add: examples RequestQueue_IsExpired_def QueueEntry_GetExpireTime_def)
qed

text \<open>\<open>Enqueue\<close> refuses a packet that already waits for the same destination, and otherwise puts it
  last with a fresh expiry date; the oldest packet goes when the queue has exactly its maximal
  length, and only then.\<close>

lemma queue_enqueue_result:
  assumes "m_maxLen q \<noteq> 0"
  shows "RequestQueue_Enqueue t e q =
     (let live = filter (\<lambda>x. \<not> RequestQueue_IsExpired t x) (m_queue q);
          expired = filter (RequestQueue_IsExpired t) (m_queue q);
          e' = e\<lparr>qe_expire := t + m_queueTimeout q\<rparr> in
      if qe_key e \<in> qe_key ` set live then Some (False, q\<lparr>m_queue := live\<rparr>, map RequestQueue_Drop expired)
      else if length live = unat (m_maxLen q)
      then Some (True, q\<lparr>m_queue := tl live @ [e']\<rparr>, map RequestQueue_Drop (expired @ [hd live]))
      else Some (True, q\<lparr>m_queue := live @ [e']\<rparr>, map RequestQueue_Drop expired))"
proof -
  have "unat (m_maxLen q) \<noteq> 0" using assms by (simp add: unat_eq_0)
  then show ?thesis
    unfolding RequestQueue_Enqueue_def qe_key_absent
    by (auto simp: RequestQueue_Purge_def Let_def QueueEntry_SetExpireTime_def add.commute split: list.split)
qed

text \<open>C31: the limit is compared for equality. A limit lowered below the current length no longer
  limits: a new packet makes the queue longer still, and nothing is dropped for it.\<close>

theorem queue_lowered_limit_ignored:
  assumes "\<forall>x\<in>set (m_queue q). \<not> RequestQueue_IsExpired t x" and "unat n < length (m_queue q)"
    and "qe_key e \<notin> qe_key ` set (m_queue q)"
  shows "\<exists>q'. RequestQueue_Enqueue t e (RequestQueue_SetMaxQueueLen n q) = Some (True, q', [])
           \<and> length (m_queue q') = Suc (length (m_queue q)) \<and> unat (m_maxLen q') < length (m_queue q')"
proof -
  let ?q = "RequestQueue_SetMaxQueueLen n q"
  have "RequestQueue_Purge t ?q = (?q, [])"
    using assms(1) by (simp add: RequestQueue_Purge_def RequestQueue_SetMaxQueueLen_def filter_empty_conv)
  then have "RequestQueue_Enqueue t e ?q =
      Some (True, ?q\<lparr>m_queue := m_queue q @ [QueueEntry_SetExpireTime t (m_queueTimeout q) e]\<rparr>, [])"
    using assms(2,3) unfolding RequestQueue_Enqueue_def qe_key_absent
    by (simp add: RequestQueue_SetMaxQueueLen_def)
  with assms(2) show ?thesis by (simp add: RequestQueue_SetMaxQueueLen_def)
qed

theorem queue_lowered_limit_ignored_witness:
  "\<exists>q'. RequestQueue_Enqueue 0 (example_entry 7)
      (RequestQueue_SetMaxQueueLen 1
        \<lparr>m_queue = [example_entry 5, example_entry 6], m_maxLen = 2, m_queueTimeout = 10\<rparr>) = Some (True, q', [])
     \<and> length (m_queue q') = Suc (length [example_entry 5, example_entry 6])
     \<and> unat (m_maxLen q') < length (m_queue q')"
  using queue_lowered_limit_ignored
    [of "\<lparr>m_queue = [example_entry 5, example_entry 6], m_maxLen = 2, m_queueTimeout = 10\<rparr>" 0 1
      "example_entry 7"]
  by (simp add: examples RequestQueue_IsExpired_def QueueEntry_GetExpireTime_def qe_key_def)

end
