(* ===== verification/Routing_Table.thy ===== *)
theory Routing_Table
  imports Ns3_Env
begin

text \<open>
  \<open>model/madaodv-rtable.{h,cc}\<close>: the entries, their life cycle (\<open>VALID\<close>, \<open>INVALID\<close>, \<open>IN_SEARCH\<close>,
  removed) and the table. In the code the copies of an entry share one \<open>Ipv4Route\<close> object; here the
  route is part of the entry. The two agree because every setter on the route of a looked-up copy is
  followed by an \<open>Update\<close> of the table with that copy.
\<close>

subsection \<open>Flags\<close>

datatype RouteFlags = VALID | INVALID | IN_SEARCH

fun RouteFlags_value :: "RouteFlags \<Rightarrow> nat" where
  "RouteFlags_value VALID = 0"
| "RouteFlags_value INVALID = 1"
| "RouteFlags_value IN_SEARCH = 2"

text \<open>The enumerators compare as their values.\<close>

instantiation RouteFlags :: linorder
begin

definition less_eq_RouteFlags :: "RouteFlags \<Rightarrow> RouteFlags \<Rightarrow> bool" where
  "less_eq_RouteFlags a b = (RouteFlags_value a \<le> RouteFlags_value b)"

definition less_RouteFlags :: "RouteFlags \<Rightarrow> RouteFlags \<Rightarrow> bool" where
  "less_RouteFlags a b = (RouteFlags_value a < RouteFlags_value b)"

instance
proof
  fix a b :: RouteFlags
  show "a \<le> b \<Longrightarrow> b \<le> a \<Longrightarrow> a = b"
    by (cases a; cases b) (simp_all add: less_eq_RouteFlags_def)
qed (auto simp: less_eq_RouteFlags_def less_RouteFlags_def)

end

subsection \<open>Entries\<close>

record rte =
  m_ackTimer :: timer
  m_validSeqNo :: bool
  m_seqNo :: u32
  m_hops :: u16
  m_lifeTime :: time
  m_ipv4Route :: ipv4_route
  m_iface :: iface
  m_flag :: RouteFlags
  m_precursorList :: "ipv4 list"
  m_reqCount :: u8
  m_blackListState :: bool
  m_blackListTimeout :: time

definition RoutingTableEntry_new ::
  "time \<Rightarrow> dev option \<Rightarrow> ipv4 \<Rightarrow> bool \<Rightarrow> u32 \<Rightarrow> iface \<Rightarrow> u16 \<Rightarrow> ipv4 \<Rightarrow> time \<Rightarrow> rte" where
  "RoutingTableEntry_new t dev dst vSeqNo seqNo iface hops nextHop lifetime =
     \<lparr>m_ackTimer = [], m_validSeqNo = vSeqNo, m_seqNo = seqNo, m_hops = hops,
      m_lifeTime = lifetime + t,
      m_ipv4Route = \<lparr>rt_destination = dst, rt_source = ia_local iface, rt_gateway = nextHop,
                     rt_device = dev\<rparr>,
      m_iface = iface, m_flag = VALID, m_precursorList = [], m_reqCount = 0,
      m_blackListState = False, m_blackListTimeout = t\<rparr>"

text \<open>The constructor called with no arguments: the default lifetime is \<open>Simulator::Now ()\<close>, to
  which the constructor adds the current time again.\<close>

definition RoutingTableEntry_default :: "ns3 \<Rightarrow> rte" where
  "RoutingTableEntry_default E =
     RoutingTableEntry_new (now E) None (any_addr E) False 0 (any_iface E) 0 (any_addr E) (now E)"

abbreviation GetDestination :: "rte \<Rightarrow> ipv4" where
  "GetDestination e \<equiv> rt_destination (m_ipv4Route e)"

abbreviation GetNextHop :: "rte \<Rightarrow> ipv4" where
  "GetNextHop e \<equiv> rt_gateway (m_ipv4Route e)"

abbreviation GetOutputDevice :: "rte \<Rightarrow> dev option" where
  "GetOutputDevice e \<equiv> rt_device (m_ipv4Route e)"

definition SetNextHop :: "ipv4 \<Rightarrow> rte \<Rightarrow> rte" where
  "SetNextHop nextHop e = e\<lparr>m_ipv4Route := (m_ipv4Route e)\<lparr>rt_gateway := nextHop\<rparr>\<rparr>"

definition SetOutputDevice :: "dev option \<Rightarrow> rte \<Rightarrow> rte" where
  "SetOutputDevice dev e = e\<lparr>m_ipv4Route := (m_ipv4Route e)\<lparr>rt_device := dev\<rparr>\<rparr>"

definition SetLifeTime :: "time \<Rightarrow> time \<Rightarrow> rte \<Rightarrow> rte" where
  "SetLifeTime t lt e = e\<lparr>m_lifeTime := lt + t\<rparr>"

definition GetLifeTime :: "time \<Rightarrow> rte \<Rightarrow> time" where
  "GetLifeTime t e = m_lifeTime e - t"

definition IncrementRreqCnt :: "rte \<Rightarrow> rte" where
  "IncrementRreqCnt e = e\<lparr>m_reqCount := m_reqCount e + 1\<rparr>"

definition LookupPrecursor :: "ipv4 \<Rightarrow> rte \<Rightarrow> bool" where
  "LookupPrecursor i e = (\<exists>p\<in>set (m_precursorList e). p = i)"

definition InsertPrecursor :: "ipv4 \<Rightarrow> rte \<Rightarrow> bool \<times> rte" where
  "InsertPrecursor i e =
     (if \<not> LookupPrecursor i e then (True, e\<lparr>m_precursorList := m_precursorList e @ [i]\<rparr>)
      else (False, e))"

text \<open>\<open>std::remove\<close> yields the end exactly when it finds nothing to remove.\<close>

definition DeletePrecursor :: "ipv4 \<Rightarrow> rte \<Rightarrow> bool \<times> rte" where
  "DeletePrecursor i e =
     (let l = filter (\<lambda>p. p \<noteq> i) (m_precursorList e) in
      if length l = length (m_precursorList e) then (False, e)
      else (True, e\<lparr>m_precursorList := l\<rparr>))"

definition DeleteAllPrecursors :: "rte \<Rightarrow> rte" where
  "DeleteAllPrecursors e = e\<lparr>m_precursorList := []\<rparr>"

definition IsPrecursorListEmpty :: "rte \<Rightarrow> bool" where
  "IsPrecursorListEmpty e = (m_precursorList e = [])"

definition GetPrecursors :: "rte \<Rightarrow> ipv4 list \<Rightarrow> ipv4 list" where
  "GetPrecursors e prec =
     (if IsPrecursorListEmpty e then prec else append_new (m_precursorList e) prec)"

definition Invalidate :: "time \<Rightarrow> time \<Rightarrow> rte \<Rightarrow> rte" where
  "Invalidate t badLinkLifetime e =
     (if m_flag e = INVALID then e
      else e\<lparr>m_flag := INVALID, m_reqCount := 0, m_lifeTime := badLinkLifetime + t\<rparr>)"

subsection \<open>The table\<close>

record rtable =
  m_ipv4AddressEntry :: "(ipv4, rte) smap"
  m_badLinkLifetime :: time

definition RoutingTable_new :: "time \<Rightarrow> rtable" where
  "RoutingTable_new t = \<lparr>m_ipv4AddressEntry = [], m_badLinkLifetime = t\<rparr>"

text \<open>The loop of \<open>Purge\<close>, which erases while it iterates.\<close>

fun purge_entries :: "time \<Rightarrow> time \<Rightarrow> (ipv4, rte) smap \<Rightarrow> (ipv4, rte) smap" where
  "purge_entries t bad [] = []"
| "purge_entries t bad ((k, e) # i) =
     (if GetLifeTime t e < Seconds 0
      then (if m_flag e = INVALID then purge_entries t bad i
            else if m_flag e = VALID then (k, Invalidate t bad e) # purge_entries t bad i
            else (k, e) # purge_entries t bad i)
      else (k, e) # purge_entries t bad i)"

definition RoutingTable_Purge :: "time \<Rightarrow> rtable \<Rightarrow> rtable" where
  "RoutingTable_Purge t T =
     T\<lparr>m_ipv4AddressEntry := purge_entries t (m_badLinkLifetime T) (m_ipv4AddressEntry T)\<rparr>"

text \<open>\<open>LookupRoute\<close> writes its output parameter only when it finds the entry: it yields the entry
  found. \<open>LookupValidRoute\<close> yields that and its own verdict.\<close>

definition RoutingTable_LookupRoute :: "time \<Rightarrow> ipv4 \<Rightarrow> rtable \<Rightarrow> rte option \<times> rtable" where
  "RoutingTable_LookupRoute t i T =
     (let T = RoutingTable_Purge t T in (map_of (m_ipv4AddressEntry T) i, T))"

definition RoutingTable_LookupValidRoute ::
  "time \<Rightarrow> ipv4 \<Rightarrow> rtable \<Rightarrow> bool \<times> rte option \<times> rtable" where
  "RoutingTable_LookupValidRoute t i T =
     (let (r, T) = RoutingTable_LookupRoute t i T in
      case r of None \<Rightarrow> (False, None, T) | Some e \<Rightarrow> (m_flag e = VALID, Some e, T))"

definition RoutingTable_DeleteRoute :: "time \<Rightarrow> ipv4 \<Rightarrow> rtable \<Rightarrow> bool \<times> rtable" where
  "RoutingTable_DeleteRoute t dst T =
     (let T = RoutingTable_Purge t T in
      (map_of (m_ipv4AddressEntry T) dst \<noteq> None,
       T\<lparr>m_ipv4AddressEntry := smap_erase dst (m_ipv4AddressEntry T)\<rparr>))"

definition RoutingTable_AddRoute :: "time \<Rightarrow> rte \<Rightarrow> rtable \<Rightarrow> bool \<times> rtable" where
  "RoutingTable_AddRoute t rt T =
     (let T = RoutingTable_Purge t T;
          rt = (if m_flag rt \<noteq> IN_SEARCH then rt\<lparr>m_reqCount := 0\<rparr> else rt) in
      (map_of (m_ipv4AddressEntry T) (GetDestination rt) = None,
       T\<lparr>m_ipv4AddressEntry := smap_insert (GetDestination rt) rt (m_ipv4AddressEntry T)\<rparr>))"

definition RoutingTable_Update :: "rte \<Rightarrow> rtable \<Rightarrow> bool \<times> rtable" where
  "RoutingTable_Update rt T =
     (if map_of (m_ipv4AddressEntry T) (GetDestination rt) = None then (False, T)
      else (True, T\<lparr>m_ipv4AddressEntry :=
              smap_put (GetDestination rt) (if m_flag rt \<noteq> IN_SEARCH then rt\<lparr>m_reqCount := 0\<rparr> else rt)
                (m_ipv4AddressEntry T)\<rparr>))"

definition RoutingTable_SetEntryState :: "ipv4 \<Rightarrow> RouteFlags \<Rightarrow> rtable \<Rightarrow> bool \<times> rtable" where
  "RoutingTable_SetEntryState i state T =
     (case map_of (m_ipv4AddressEntry T) i of
        None \<Rightarrow> (False, T)
      | Some e \<Rightarrow> (True, T\<lparr>m_ipv4AddressEntry :=
                      smap_put i (e\<lparr>m_flag := state, m_reqCount := 0\<rparr>) (m_ipv4AddressEntry T)\<rparr>))"

definition RoutingTable_GetListOfDestinationWithNextHop ::
  "time \<Rightarrow> ipv4 \<Rightarrow> rtable \<Rightarrow> (ipv4, u32) smap \<times> rtable" where
  "RoutingTable_GetListOfDestinationWithNextHop t nextHop T =
     (let T = RoutingTable_Purge t T in
      (smap_of_list (map (\<lambda>(k, e). (k, m_seqNo e))
         (filter (\<lambda>(k, e). GetNextHop e = nextHop) (m_ipv4AddressEntry T))), T))"

text \<open>The inner loop of \<open>InvalidateRoutesWithDst\<close>, for the entry \<open>e\<close> at \<open>k\<close>.\<close>

fun invalidate_if_listed :: "time \<Rightarrow> time \<Rightarrow> ipv4 \<Rightarrow> (ipv4, u32) smap \<Rightarrow> rte \<Rightarrow> rte" where
  "invalidate_if_listed t bad k [] e = e"
| "invalidate_if_listed t bad k (j # js) e =
     invalidate_if_listed t bad k js
       (if k = fst j \<and> m_flag e = VALID then Invalidate t bad e else e)"

definition RoutingTable_InvalidateRoutesWithDst ::
  "time \<Rightarrow> (ipv4, u32) smap \<Rightarrow> rtable \<Rightarrow> rtable" where
  "RoutingTable_InvalidateRoutesWithDst t unreachable T =
     (let T = RoutingTable_Purge t T in
      T\<lparr>m_ipv4AddressEntry :=
          map (\<lambda>(k, e). (k, invalidate_if_listed t (m_badLinkLifetime T) k unreachable e))
            (m_ipv4AddressEntry T)\<rparr>)"

definition RoutingTable_DeleteAllRoutesFromInterface :: "iface \<Rightarrow> rtable \<Rightarrow> rtable" where
  "RoutingTable_DeleteAllRoutesFromInterface iface T =
     T\<lparr>m_ipv4AddressEntry := filter (\<lambda>(k, e). \<not> m_iface e = iface) (m_ipv4AddressEntry T)\<rparr>"

definition RoutingTable_Clear :: "rtable \<Rightarrow> rtable" where
  "RoutingTable_Clear T = T\<lparr>m_ipv4AddressEntry := []\<rparr>"

definition RoutingTable_MarkLinkAsUnidirectional :: "ipv4 \<Rightarrow> time \<Rightarrow> rtable \<Rightarrow> bool \<times> rtable" where
  "RoutingTable_MarkLinkAsUnidirectional neighbor blacklistTimeout T =
     (case map_of (m_ipv4AddressEntry T) neighbor of
        None \<Rightarrow> (False, T)
      | Some e \<Rightarrow> (True, T\<lparr>m_ipv4AddressEntry := smap_put neighbor
                      (e\<lparr>m_blackListState := True, m_blackListTimeout := blacklistTimeout,
                         m_reqCount := 0\<rparr>) (m_ipv4AddressEntry T)\<rparr>))"

text \<open>Looking an entry up without purging, for statements.\<close>

abbreviation route_of :: "rtable \<Rightarrow> ipv4 \<Rightarrow> rte option" where
  "route_of T \<equiv> map_of (m_ipv4AddressEntry T)"

end
