(* ===== verification/Protocol_State.thy ===== *)
theory Protocol_State
  imports Packet_Format Id_Cache Neighbor_List Request_Queue Routing_Table
begin

text \<open>
  \<open>model/madaodv-routing-protocol.{h,cc}\<close>, first part: the state of a node's routing agent, its
  construction, the attributes, and the helpers every handler uses. The handlers take the parameter
  record and the state and yield the new state, with \<open>None\<close> where the program stops; what they make
  the simulator do is appended to the log.
\<close>

subsection \<open>State\<close>

text \<open>The protocol parameters, which are attributes of the object.\<close>

record params =
  m_rreqRetries :: u32
  m_ttlStart :: u16
  m_ttlIncrement :: u16
  m_ttlThreshold :: u16
  m_timeoutBuffer :: u16
  m_rreqRateLimit :: u16
  m_rerrRateLimit :: u16
  m_activeRouteTimeout :: time
  m_netDiameter :: u32
  m_nodeTraversalTime :: time
  m_netTraversalTime :: time
  m_pathDiscoveryTime :: time
  m_myRouteTimeout :: time
  m_helloInterval :: time
  m_allowedHelloLoss :: u32
  m_deletePeriod :: time
  m_nextHopWait :: time
  p_blackListTimeout :: time
  m_maxQueueLen :: u32
  m_maxQueueTime :: time
  m_destinationOnly :: bool
  m_gratuitousReply :: bool
  m_enableHello :: bool
  m_enableBroadcast :: bool

text \<open>The other members. The last three are the model's own: how many random numbers were drawn,
  how many sockets created, and the effects so far. \<open>m_ipv4\<close> tells whether the pointer is set.\<close>

record rp =
  par :: params
  m_ipv4 :: bool
  m_socketAddresses :: "(sock, iface) smap"
  m_socketSubnetBroadcastAddresses :: "(sock, iface) smap"
  m_lo :: "dev option"
  m_routingTable :: rtable
  rp_queue :: request_queue
  m_requestId :: u32
  rp_seqNo :: u32
  m_rreqIdCache :: id_cache
  m_dpd :: id_cache
  rp_nb :: neighbors
  m_rreqCount :: u16
  m_rerrCount :: u16
  m_htimer :: timer
  m_rreqRateLimitTimer :: timer
  m_rerrRateLimitTimer :: timer
  m_addressReqTimer :: "(ipv4, timer) smap"
  m_lastBcastTime :: time
  draws :: nat
  created :: nat
  log :: "effect list"

definition MADAODV_PORT :: u32 where
  "MADAODV_PORT = 654"

text \<open>The member initialisers of the constructor, in their order. \<open>m_enableBroadcast\<close> has none; it
  holds some value \<open>b\<close> until the attributes are set.\<close>

definition initial_params :: "bool \<Rightarrow> params" where
  "initial_params b =
     (let rreqRetries = 2; activeRouteTimeout = Seconds 3; netDiameter = 35;
          nodeTraversalTime = MilliSeconds 40;
          netTraversalTime = (2 * uint (netDiameter :: u32)) * nodeTraversalTime;
          pathDiscoveryTime = 2 * netTraversalTime; helloInterval = Seconds 1 in
      \<lparr>m_rreqRetries = rreqRetries, m_ttlStart = 1, m_ttlIncrement = 2, m_ttlThreshold = 7,
       m_timeoutBuffer = 2, m_rreqRateLimit = 10, m_rerrRateLimit = 10,
       m_activeRouteTimeout = activeRouteTimeout, m_netDiameter = netDiameter,
       m_nodeTraversalTime = nodeTraversalTime, m_netTraversalTime = netTraversalTime,
       m_pathDiscoveryTime = pathDiscoveryTime,
       m_myRouteTimeout = 2 * max pathDiscoveryTime activeRouteTimeout,
       m_helloInterval = helloInterval, m_allowedHelloLoss = 2,
       m_deletePeriod = 5 * max activeRouteTimeout helloInterval,
       m_nextHopWait = nodeTraversalTime + MilliSeconds 10,
       p_blackListTimeout = uint (rreqRetries :: u32) * netTraversalTime,
       m_maxQueueLen = 64, m_maxQueueTime = Seconds 30, m_destinationOnly = False,
       m_gratuitousReply = True, m_enableHello = False, m_enableBroadcast = b\<rparr>)"

definition RoutingProtocol_new :: "bool \<Rightarrow> rp" where
  "RoutingProtocol_new b =
     (let p = initial_params b in
      \<lparr>par = p, m_ipv4 = False, m_socketAddresses = [], m_socketSubnetBroadcastAddresses = [],
       m_lo = None, m_routingTable = RoutingTable_new (m_deletePeriod p),
       rp_queue = RequestQueue_new (m_maxQueueLen p) (m_maxQueueTime p), m_requestId = 0,
       rp_seqNo = 0, m_rreqIdCache = IdCache_new (m_pathDiscoveryTime p),
       m_dpd = IdCache_new (m_pathDiscoveryTime p), rp_nb = Neighbors_new (m_helloInterval p),
       m_rreqCount = 0, m_rerrCount = 0, m_htimer = [], m_rreqRateLimitTimer = [],
       m_rerrRateLimitTimer = [], m_addressReqTimer = [], m_lastBcastTime = Seconds 0,
       draws = 0, created = 0, log = []\<rparr>)"

definition SetMaxQueueLen :: "u32 \<Rightarrow> rp \<Rightarrow> rp" where
  "SetMaxQueueLen len s =
     s\<lparr>par := (par s)\<lparr>m_maxQueueLen := len\<rparr>,
       rp_queue := RequestQueue_SetMaxQueueLen len (rp_queue s)\<rparr>"

definition SetMaxQueueTime :: "time \<Rightarrow> rp \<Rightarrow> rp" where
  "SetMaxQueueTime t s =
     s\<lparr>par := (par s)\<lparr>m_maxQueueTime := t\<rparr>,
       rp_queue := RequestQueue_SetQueueTimeout t (rp_queue s)\<rparr>"

definition SetGratuitousReplyFlag :: "bool \<Rightarrow> rp \<Rightarrow> rp" where
  "SetGratuitousReplyFlag f s = s\<lparr>par := (par s)\<lparr>m_gratuitousReply := f\<rparr>\<rparr>"

definition SetDestinationOnlyFlag :: "bool \<Rightarrow> rp \<Rightarrow> rp" where
  "SetDestinationOnlyFlag f s = s\<lparr>par := (par s)\<lparr>m_destinationOnly := f\<rparr>\<rparr>"

definition SetHelloEnable :: "bool \<Rightarrow> rp \<Rightarrow> rp" where
  "SetHelloEnable f s = s\<lparr>par := (par s)\<lparr>m_enableHello := f\<rparr>\<rparr>"

definition SetBroadcastEnable :: "bool \<Rightarrow> rp \<Rightarrow> rp" where
  "SetBroadcastEnable f s = s\<lparr>par := (par s)\<lparr>m_enableBroadcast := f\<rparr>\<rparr>"

text \<open>The attributes of \<open>GetTypeId\<close> with their defaults, which the object factory assigns after the
  constructor has run, each through its accessor. \<open>Seconds (11.2)\<close> and the like are written in
  milliseconds.\<close>

definition attribute_defaults :: "rp \<Rightarrow> rp" where
  "attribute_defaults s =
     (let s = s\<lparr>par := (par s)\<lparr>m_helloInterval := Seconds 1, m_ttlStart := 1, m_ttlIncrement := 2,
             m_ttlThreshold := 7, m_timeoutBuffer := 2, m_rreqRetries := 2, m_rreqRateLimit := 10,
             m_rerrRateLimit := 10, m_nodeTraversalTime := MilliSeconds 40,
             m_nextHopWait := MilliSeconds 50, m_activeRouteTimeout := Seconds 3,
             m_myRouteTimeout := MilliSeconds 11200, p_blackListTimeout := MilliSeconds 5600,
             m_deletePeriod := Seconds 15, m_netDiameter := 35,
             m_netTraversalTime := MilliSeconds 2800,
             m_pathDiscoveryTime := MilliSeconds 5600\<rparr>\<rparr>;
          s = SetMaxQueueLen 64 s;
          s = SetMaxQueueTime (Seconds 30) s;
          s = s\<lparr>par := (par s)\<lparr>m_allowedHelloLoss := 2\<rparr>\<rparr>;
          s = SetGratuitousReplyFlag True s;
          s = SetDestinationOnlyFlag False s;
          s = SetHelloEnable True s in
      SetBroadcastEnable True s)"

subsection \<open>Access to the members\<close>

definition emit :: "effect \<Rightarrow> rp \<Rightarrow> rp" where
  "emit e s = s\<lparr>log := log s @ [e]\<rparr>"

definition emits :: "effect list \<Rightarrow> rp \<Rightarrow> rp" where
  "emits es s = s\<lparr>log := log s @ es\<rparr>"

text \<open>\<open>m_uniformRandomVariable->GetInteger (lo, hi)\<close>.\<close>

definition draw :: "ns3 \<Rightarrow> int \<Rightarrow> int \<Rightarrow> rp \<Rightarrow> int \<times> rp" where
  "draw E lo hi s = (uniform E (draws s) lo hi, s\<lparr>draws := Suc (draws s)\<rparr>)"

definition jitter :: "ns3 \<Rightarrow> rp \<Rightarrow> time \<times> rp" where
  "jitter E s = (let (n, s) = draw E 0 10 s in (MilliSeconds n, s))"

definition lookup :: "ns3 \<Rightarrow> ipv4 \<Rightarrow> rp \<Rightarrow> rte option \<times> rp" where
  "lookup E i s =
     (let (r, T) = RoutingTable_LookupRoute (now E) i (m_routingTable s) in
      (r, s\<lparr>m_routingTable := T\<rparr>))"

definition lookup_valid :: "ns3 \<Rightarrow> ipv4 \<Rightarrow> rp \<Rightarrow> bool \<times> rte option \<times> rp" where
  "lookup_valid E i s =
     (let (b, r, T) = RoutingTable_LookupValidRoute (now E) i (m_routingTable s) in
      (b, r, s\<lparr>m_routingTable := T\<rparr>))"

text \<open>A local \<open>RoutingTableEntry rt\<close> after a lookup into it: what was found, or what it held.\<close>

definition into :: "rte option \<Rightarrow> rte \<Rightarrow> rte" where
  "into r rt = (case r of None \<Rightarrow> rt | Some e \<Rightarrow> e)"

definition update_route :: "rte \<Rightarrow> rp \<Rightarrow> rp" where
  "update_route rt s = s\<lparr>m_routingTable := snd (RoutingTable_Update rt (m_routingTable s))\<rparr>"

definition add_route :: "ns3 \<Rightarrow> rte \<Rightarrow> rp \<Rightarrow> rp" where
  "add_route E rt s = s\<lparr>m_routingTable := snd (RoutingTable_AddRoute (now E) rt (m_routingTable s))\<rparr>"

text \<open>The device and the interface address a received packet's receiver address stands for.\<close>

definition recv_dev :: "ns3 \<Rightarrow> ipv4 \<Rightarrow> dev" where
  "recv_dev E receiver = ip_net_device (stack E) (ip_if_for_addr (stack E) receiver)"

definition recv_iface :: "ns3 \<Rightarrow> ipv4 \<Rightarrow> iface" where
  "recv_iface E receiver = ip_address (stack E) (ip_if_for_addr (stack E) receiver)"

text \<open>\<open>packet->AddHeader (h); packet->AddHeader (TypeHeader (t))\<close> with a TTL tag.\<close>

definition control_packet :: "u8 \<Rightarrow> MessageType \<Rightarrow> u8 list \<Rightarrow> control" where
  "control_packet ttl t body =
     \<lparr>ct_ttl = ttl, ct_bytes = TypeHeader_Serialize (TypeHeader_new t) @ body\<rparr>"

text \<open>Send to all-hosts broadcast if on /32 addr, subnet-directed otherwise.\<close>

definition broadcast_destination :: "ns3 \<Rightarrow> iface \<Rightarrow> ipv4" where
  "broadcast_destination E iface =
     (if ia_mask iface = mask_ones E then ip4 255 255 255 255 else ia_broadcast iface)"

subsection \<open>Helpers of the class\<close>

definition IsMyOwnAddress :: "ipv4 \<Rightarrow> rp \<Rightarrow> bool" where
  "IsMyOwnAddress src s = (\<exists>j\<in>set (m_socketAddresses s). src = ia_local (snd j))"

definition FindSocketWithInterfaceAddress :: "iface \<Rightarrow> rp \<Rightarrow> sock option" where
  "FindSocketWithInterfaceAddress addr s =
     map_option fst (List.find (\<lambda>j. snd j = addr) (m_socketAddresses s))"

definition FindSubnetBroadcastSocketWithInterfaceAddress :: "iface \<Rightarrow> rp \<Rightarrow> sock option" where
  "FindSubnetBroadcastSocketWithInterfaceAddress addr s =
     map_option fst (List.find (\<lambda>j. snd j = addr) (m_socketSubnetBroadcastAddresses s))"

text \<open>\<open>LoopbackRoute\<close>: without an output device the first interface is taken from \<open>begin ()\<close>, which
  is no interface at all when there is none.\<close>

definition LoopbackRoute :: "ns3 \<Rightarrow> ipv4_header \<Rightarrow> dev option \<Rightarrow> rp \<Rightarrow> ipv4_route option" where
  "LoopbackRoute E hdr oif s =
     (case m_lo s of
        None \<Rightarrow> None
      | Some lo \<Rightarrow> do {
          let rt = (any_route E)\<lparr>rt_destination := ih_destination hdr\<rparr>;
          rt \<leftarrow> (case oif of
                  Some d \<Rightarrow>
                    Some (case List.find
                                 (\<lambda>j. d = ip_net_device (stack E) (ip_if_for_addr (stack E) (ia_local (snd j))))
                                 (m_socketAddresses s) of
                            Some j \<Rightarrow> rt\<lparr>rt_source := ia_local (snd j)\<rparr>
                          | None \<Rightarrow> rt)
                | None \<Rightarrow>
                    (case m_socketAddresses s of
                       [] \<Rightarrow> None
                     | j # _ \<Rightarrow> Some (rt\<lparr>rt_source := ia_local (snd j)\<rparr>)));
          (if rt_source rt = any_addr E then None
           else Some (rt\<lparr>rt_gateway := ip4 127 0 0 1, rt_device := Some lo\<rparr>))
        })"

definition UpdateRouteLifeTime :: "ns3 \<Rightarrow> ipv4 \<Rightarrow> time \<Rightarrow> rp \<Rightarrow> bool \<times> rp" where
  "UpdateRouteLifeTime E addr lifetime s =
     (let (r, s) = lookup E addr s in
      case r of
        None \<Rightarrow> (False, s)
      | Some rt \<Rightarrow>
          if m_flag rt = VALID
          then let rt = rt\<lparr>m_reqCount := 0\<rparr>;
                   rt = SetLifeTime (now E) (max lifetime (GetLifeTime (now E) rt)) rt in
               (True, update_route rt s)
          else (False, s))"

text \<open>In the first branch of an existing entry the code sets the lifetime of its local copy only.\<close>

definition UpdateRouteToNeighbor :: "ns3 \<Rightarrow> ipv4 \<Rightarrow> ipv4 \<Rightarrow> rp \<Rightarrow> rp" where
  "UpdateRouteToNeighbor E sender receiver s =
     (let (r, s) = lookup E sender s in
      case r of
        None \<Rightarrow>
          add_route E (RoutingTableEntry_new (now E) (Some (recv_dev E receiver)) sender False 0
            (recv_iface E receiver) 1 sender (m_activeRouteTimeout (par s))) s
      | Some toNeighbor \<Rightarrow>
          let dev = recv_dev E receiver in
          if m_validSeqNo toNeighbor \<and> m_hops toNeighbor = 1 \<and> GetOutputDevice toNeighbor = Some dev
          then let toNeighbor = SetLifeTime (now E)
                     (max (m_activeRouteTimeout (par s)) (GetLifeTime (now E) toNeighbor)) toNeighbor
               in s
          else update_route (RoutingTableEntry_new (now E) (Some dev) sender False 0
                 (recv_iface E receiver) 1 sender
                 (max (m_activeRouteTimeout (par s)) (GetLifeTime (now E) toNeighbor))) s)"

text \<open>\<open>SendTo\<close>, which delayed transmissions are scheduled to run.\<close>

definition SendTo :: "sock \<Rightarrow> control \<Rightarrow> ipv4 \<Rightarrow> rp \<Rightarrow> rp" where
  "SendTo socket packet destination s = emit (SockSend socket packet destination) s"

text \<open>\<open>Simulator::Schedule\<close> of \<open>SendTo\<close> with a random delay of up to 10 ms.\<close>

definition schedule_send :: "ns3 \<Rightarrow> sock \<Rightarrow> control \<Rightarrow> ipv4 \<Rightarrow> rp \<Rightarrow> rp" where
  "schedule_send E socket packet destination s =
     (let (d, s) = jitter E s in emit (SchedSend d socket packet destination) s)"

end
