(* ===== verification/Protocol_Send.thy ===== *)
theory Protocol_Send
  imports Protocol_State
begin

text \<open>
  \<open>model/madaodv-routing-protocol.cc\<close>, second part: the sending side. Route requests with the
  expanding ring search and its retry timer, replies by the destination and by an intermediate node,
  acknowledgements, hellos, route errors, and the packets released from the queue.
\<close>

subsection \<open>Route errors\<close>

definition rerr_packet :: "ns3 \<Rightarrow> RerrHeader \<Rightarrow> control" where
  "rerr_packet E h = control_packet 1 MADAODVTYPE_RERR (RerrHeader_Serialize (wire E) h)"

text \<open>The interfaces over which the precursors are reached, each once; a route to a precursor counts
  when it is valid.\<close>

fun precursor_ifaces :: "ns3 \<Rightarrow> ipv4 list \<Rightarrow> iface list \<Rightarrow> rp \<Rightarrow> iface list \<times> rp" where
  "precursor_ifaces E [] ifaces s = (ifaces, s)"
| "precursor_ifaces E (i # is) ifaces s =
     (let (valid, r, s) = lookup_valid E i s in
      case r of
        Some toPrecursor \<Rightarrow>
          precursor_ifaces E is
            (if valid \<and> m_iface toPrecursor \<notin> set ifaces then ifaces @ [m_iface toPrecursor]
             else ifaces) s
      | None \<Rightarrow> precursor_ifaces E is ifaces s)"

text \<open>In every send, a null socket pointer fails the \<open>NS_ASSERT\<close> that follows the search for it.\<close>

definition rerr_on_iface :: "ns3 \<Rightarrow> control \<Rightarrow> iface \<Rightarrow> rp \<Rightarrow> rp option" where
  "rerr_on_iface E packet i s = do {
     socket \<leftarrow> FindSocketWithInterfaceAddress i s;
     Some (schedule_send E socket packet (broadcast_destination E i) s)
   }"

definition SendRerrMessage :: "ns3 \<Rightarrow> control \<Rightarrow> ipv4 list \<Rightarrow> rp \<Rightarrow> rp option" where
  "SendRerrMessage E packet precursors s =
     (case precursors of
        [] \<Rightarrow> Some s
      | front # others \<Rightarrow>
          if m_rerrCount s = m_rerrRateLimit (par s)
          then (if tm_started (m_rerrRateLimitTimer s) then Some s else None)
          else if others = []
          then (case lookup_valid E front s of
                  (valid, r, s) \<Rightarrow>
                    (case (valid, r) of
                       (True, Some toPrecursor) \<Rightarrow> do {
                         socket \<leftarrow> FindSocketWithInterfaceAddress (m_iface toPrecursor) s;
                         let s = schedule_send E socket packet front s;
                         Some (s\<lparr>m_rerrCount := m_rerrCount s + 1\<rparr>)
                       }
                     | _ \<Rightarrow> Some s))
          else (case precursor_ifaces E precursors [] s of
                  (ifaces, s) \<Rightarrow> foldM (rerr_on_iface E packet) ifaces s))"

text \<open>The loop over the unreachable destinations, which the link failure handler and the RERR
  receiver share. \<open>AddUnDestination\<close> never returns false, so the branch that sends a full message
  and tries the same destination again is never taken.\<close>

lemma AddUnDestination_true: "RerrHeader_AddUnDestination a q h = Some (b, h') \<Longrightarrow> b"
  by (auto simp: RerrHeader_AddUnDestination_def split: if_splits)

function (sequential) rerr_loop ::
  "ns3 \<Rightarrow> (ipv4, u32) smap \<Rightarrow> RerrHeader \<Rightarrow> ipv4 list \<Rightarrow> rp \<Rightarrow> (RerrHeader \<times> ipv4 list \<times> rp) option"
where
  "rerr_loop E [] rerrHeader precursors s = Some (rerrHeader, precursors, s)"
| "rerr_loop E (i # is) rerrHeader precursors s =
     (case RerrHeader_AddUnDestination (fst i) (snd i) rerrHeader of
        None \<Rightarrow> None
      | Some (ok, rerrHeader) \<Rightarrow>
          if \<not> ok
          then (case SendRerrMessage E (rerr_packet E rerrHeader) precursors s of
                  None \<Rightarrow> None
                | Some s \<Rightarrow> rerr_loop E (i # is) (RerrHeader_Clear rerrHeader) precursors s)
          else (case lookup E (fst i) s of
                  (r, s) \<Rightarrow>
                    rerr_loop E is rerrHeader
                      (GetPrecursors (into r (RoutingTableEntry_default E)) precursors) s))"
  by pat_completeness auto
termination
  by (relation "measure (\<lambda>(E, is, _). length is)") (auto dest: AddUnDestination_true)

text \<open>The message left at the end of the loop.\<close>

definition rerr_rest :: "ns3 \<Rightarrow> RerrHeader \<Rightarrow> ipv4 list \<Rightarrow> rp \<Rightarrow> rp option" where
  "rerr_rest E rerrHeader precursors s =
     (if RerrHeader_GetDestCount rerrHeader \<noteq> 0
      then SendRerrMessage E (rerr_packet E rerrHeader) precursors s
      else Some s)"

definition invalidate_routes :: "ns3 \<Rightarrow> (ipv4, u32) smap \<Rightarrow> rp \<Rightarrow> rp" where
  "invalidate_routes E unreachable s =
     s\<lparr>m_routingTable := RoutingTable_InvalidateRoutesWithDst (now E) unreachable (m_routingTable s)\<rparr>"

definition list_via :: "ns3 \<Rightarrow> ipv4 \<Rightarrow> rp \<Rightarrow> (ipv4, u32) smap \<times> rp" where
  "list_via E nextHop s =
     (let (un, T) = RoutingTable_GetListOfDestinationWithNextHop (now E) nextHop (m_routingTable s) in
      (un, s\<lparr>m_routingTable := T\<rparr>))"

definition SendRerrWhenBreaksLinkToNextHop :: "ns3 \<Rightarrow> ipv4 \<Rightarrow> rp \<Rightarrow> rp option" where
  "SendRerrWhenBreaksLinkToNextHop E nextHop s =
     (case lookup E nextHop s of
        (None, s) \<Rightarrow> Some s
      | (Some toNextHop, s) \<Rightarrow> do {
          let precursors = GetPrecursors toNextHop [];
          (ok, rerrHeader) \<leftarrow> RerrHeader_AddUnDestination nextHop (m_seqNo toNextHop) RerrHeader_new;
          let (unreachable, s) = list_via E nextHop s;
          (rerrHeader, precursors, s) \<leftarrow> rerr_loop E unreachable rerrHeader precursors s;
          s \<leftarrow> rerr_rest E rerrHeader precursors s;
          let unreachable = smap_insert nextHop (m_seqNo toNextHop) unreachable;
          Some (invalidate_routes E unreachable s)
        })"

definition SendRerrWhenNoRouteToForward :: "ns3 \<Rightarrow> ipv4 \<Rightarrow> u32 \<Rightarrow> ipv4 \<Rightarrow> rp \<Rightarrow> rp option" where
  "SendRerrWhenNoRouteToForward E dst dstSeqNo origin s =
     (if m_rerrCount s = m_rerrRateLimit (par s)
      then (if tm_started (m_rerrRateLimitTimer s) then Some s else None)
      else do {
        (ok, rerrHeader) \<leftarrow> RerrHeader_AddUnDestination dst dstSeqNo RerrHeader_new;
        let packet = rerr_packet E rerrHeader;
        let (valid, r, s) = lookup_valid E origin s;
        (case (valid, r) of
           (True, Some toOrigin) \<Rightarrow> do {
             socket \<leftarrow> FindSocketWithInterfaceAddress (m_iface toOrigin) s;
             Some (emit (SockSend socket packet (GetNextHop toOrigin)) s)
           }
         | _ \<Rightarrow>
           Some (fold (\<lambda>i s. emit (SockSend (fst i) packet (broadcast_destination E (snd i))) s)
                   (m_socketAddresses s) s))
      })"

subsection \<open>The neighbour list at work\<close>

text \<open>The constructor registers \<open>SendRerrWhenBreaksLinkToNextHop\<close> with the neighbour list.\<close>

definition nb_callback :: "ns3 \<Rightarrow> rp link_failure" where
  "nb_callback E = Some (SendRerrWhenBreaksLinkToNextHop E)"

definition nb_update :: "ns3 \<Rightarrow> ipv4 \<Rightarrow> time \<Rightarrow> rp \<Rightarrow> rp option" where
  "nb_update E addr expire s = do {
     (nb, s) \<leftarrow> Neighbors_Update E (nb_callback E) addr expire (rp_nb s) s;
     Some (s\<lparr>rp_nb := nb\<rparr>)
   }"

subsection \<open>Route requests\<close>

text \<open>The TTL of the next request for a destination with an entry in the table.\<close>

definition next_ttl :: "params \<Rightarrow> rte \<Rightarrow> u16" where
  "next_ttl p rt =
     (if m_flag rt \<noteq> IN_SEARCH
      then min (m_hops rt + m_ttlIncrement p) (ucast (m_netDiameter p))
      else let ttl = m_hops rt + m_ttlIncrement p in
           if ttl > m_ttlThreshold p then ucast (m_netDiameter p) else ttl)"

text \<open>The entry is turned into, or created as, a search; the request header learns what is known of
  the destination's sequence number.\<close>

definition search_known :: "ns3 \<Rightarrow> rte \<Rightarrow> RreqHeader \<Rightarrow> rp \<Rightarrow> u16 \<times> RreqHeader \<times> rp" where
  "search_known E rt rreqHeader s =
     (let ttl = next_ttl (par s) rt;
          rt = (if ucast ttl = m_netDiameter (par s) then IncrementRreqCnt rt else rt);
          rreqHeader = (if m_validSeqNo rt then rreqHeader\<lparr>rq_dstSeqNo := m_seqNo rt\<rparr>
                        else RreqHeader_SetUnknownSeqno True rreqHeader);
          rt = rt\<lparr>m_hops := ttl, m_flag := IN_SEARCH\<rparr>;
          rt = SetLifeTime (now E) (m_pathDiscoveryTime (par s)) rt in
      (ttl, rreqHeader, update_route rt s))"

definition search_new :: "ns3 \<Rightarrow> ipv4 \<Rightarrow> RreqHeader \<Rightarrow> rp \<Rightarrow> u16 \<times> RreqHeader \<times> rp" where
  "search_new E dst rreqHeader s =
     (let ttl = m_ttlStart (par s);
          rreqHeader = RreqHeader_SetUnknownSeqno True rreqHeader;
          newEntry = RoutingTableEntry_new (now E) None dst False 0 (any_iface E) ttl (any_addr E)
                       (m_pathDiscoveryTime (par s));
          newEntry = (if ucast ttl = m_netDiameter (par s) then IncrementRreqCnt newEntry
                      else newEntry);
          newEntry = newEntry\<lparr>m_flag := IN_SEARCH\<rparr> in
      (ttl, rreqHeader, add_route E newEntry s))"

text \<open>One interface of the sending loop.\<close>

definition send_rreq_on ::
  "ns3 \<Rightarrow> RreqHeader \<Rightarrow> u16 \<Rightarrow> sock \<times> iface \<Rightarrow> rp \<Rightarrow> rp" where
  "send_rreq_on E rreqHeader ttl j s =
     (let (socket, iface) = j;
          rreqHeader = rreqHeader\<lparr>rq_origin := ia_local iface\<rparr>;
          s = s\<lparr>m_rreqIdCache :=
                snd (IdCache_IsDuplicate (now E) (ia_local iface) (m_requestId s) (m_rreqIdCache s))\<rparr>;
          packet = control_packet (ucast ttl) MADAODVTYPE_RREQ (RreqHeader_Serialize (wire E) rreqHeader);
          s = s\<lparr>m_lastBcastTime := now E\<rparr> in
      schedule_send E socket packet (broadcast_destination E iface) s)"

text \<open>The delay of the retry: along the ring the traversal time of its radius, at full diameter a
  binary exponential backoff. \<open>1 << backoffFactor\<close> is a shift of an \<open>int\<close>: by 31 it is negative,
  a delay that the scheduler refuses, by more it is undefined.\<close>

definition retry_delay :: "params \<Rightarrow> rte \<Rightarrow> time option" where
  "retry_delay p rt =
     (if ucast (m_hops rt) < m_netDiameter p
      then Some (2 * m_nodeTraversalTime p * (uint (m_hops rt) + uint (m_timeoutBuffer p)))
      else if m_reqCount rt = 0 then None
      else let backoffFactor = uint (m_reqCount rt) - 1 in
           if 31 \<le> backoffFactor then None
           else Some (m_netTraversalTime p * 2 ^ nat backoffFactor))"

definition ScheduleRreqRetry :: "ns3 \<Rightarrow> ipv4 \<Rightarrow> rp \<Rightarrow> rp option" where
  "ScheduleRreqRetry E dst s =
     (let timer = (case map_of (m_addressReqTimer s) dst of None \<Rightarrow> [] | Some tm \<Rightarrow> tm);
          timer = timer @ [TmSetFunction, TmCancel, TmSetArguments dst];
          (r, s) = lookup E dst s;
          rt = into r (RoutingTableEntry_default E) in do {
        retry \<leftarrow> retry_delay (par s) rt;
        Some (s\<lparr>m_addressReqTimer :=
                smap_put dst (timer @ [TmSchedule (Some retry)]) (m_addressReqTimer s)\<rparr>)
      })"

definition SendRequest :: "ns3 \<Rightarrow> ipv4 \<Rightarrow> rp \<Rightarrow> rp option" where
  "SendRequest E dst s =
     (if m_rreqCount s = m_rreqRateLimit (par s)
      then Some (emit (SchedRequest (rreq_delay_left E + MicroSeconds 100) dst) s)
      else
        let s = s\<lparr>m_rreqCount := m_rreqCount s + 1\<rparr>;
            rreqHeader = (RreqHeader_new E)\<lparr>rq_dst := dst\<rparr>;
            (r, s) = lookup E dst s;
            (ttl, rreqHeader, s) =
              (case r of Some rt \<Rightarrow> search_known E rt rreqHeader s
                       | None \<Rightarrow> search_new E dst rreqHeader s);
            rreqHeader = (if m_gratuitousReply (par s) then RreqHeader_SetGratuitousRrep True rreqHeader
                          else rreqHeader);
            rreqHeader = (if m_destinationOnly (par s) then RreqHeader_SetDestinationOnly True rreqHeader
                          else rreqHeader);
            s = s\<lparr>rp_seqNo := rp_seqNo s + 1\<rparr>;
            rreqHeader = rreqHeader\<lparr>rq_originSeqNo := rp_seqNo s\<rparr>;
            s = s\<lparr>m_requestId := m_requestId s + 1\<rparr>;
            rreqHeader = rreqHeader\<lparr>rq_requestID := m_requestId s\<rparr>;
            s = fold (send_rreq_on E rreqHeader ttl) (m_socketAddresses s) s in
        ScheduleRreqRetry E dst s)"

subsection \<open>Route replies\<close>

definition rrep_packet :: "ns3 \<Rightarrow> u16 \<Rightarrow> RrepHeader \<Rightarrow> control" where
  "rrep_packet E ttl h = control_packet (ucast ttl) MADAODVTYPE_RREP (RrepHeader_Serialize (wire E) h)"

definition SendReply :: "ns3 \<Rightarrow> RreqHeader \<Rightarrow> rte \<Rightarrow> rp \<Rightarrow> rp option" where
  "SendReply E rreqHeader toOrigin s =
     (let s = (if \<not> RreqHeader_GetUnknownSeqno rreqHeader \<and> rq_dstSeqNo rreqHeader = rp_seqNo s + 1
               then s\<lparr>rp_seqNo := rp_seqNo s + 1\<rparr> else s);
          rrepHeader = RrepHeader_new E 0 0 (rq_dst rreqHeader) (rp_seqNo s) (GetDestination toOrigin)
                         (m_myRouteTimeout (par s));
          packet = rrep_packet E (m_hops toOrigin) rrepHeader in do {
        socket \<leftarrow> FindSocketWithInterfaceAddress (m_iface toOrigin) s;
        Some (emit (SockSend socket packet (GetNextHop toOrigin)) s)
      })"

text \<open>The acknowledgement timer is set up in a local copy of the entry of the next hop: it is never
  scheduled, and the copy is dropped.\<close>

definition SendReplyByIntermediateNode :: "ns3 \<Rightarrow> rte \<Rightarrow> rte \<Rightarrow> bool \<Rightarrow> rp \<Rightarrow> rp option" where
  "SendReplyByIntermediateNode E toDst toOrigin gratRep s =
     (let rrepHeader = RrepHeader_new E 0 (ucast (m_hops toDst)) (GetDestination toDst) (m_seqNo toDst)
                         (GetDestination toOrigin) (GetLifeTime (now E) toDst);
          (rrepHeader, s) =
            (if m_hops toDst = 1
             then let rrepHeader = RrepHeader_SetAckRequired True rrepHeader;
                      (r, s) = lookup E (GetNextHop toOrigin) s;
                      toNextHop = into r (RoutingTableEntry_default E);
                      toNextHop = toNextHop\<lparr>m_ackTimer := m_ackTimer toNextHop
                        @ [TmSetFunction, TmSetArguments (GetDestination toNextHop),
                           TmSetDelay (m_nextHopWait (par s))]\<rparr> in
                  (rrepHeader, s)
             else (rrepHeader, s));
          toDst = snd (InsertPrecursor (GetNextHop toOrigin) toDst);
          toOrigin = snd (InsertPrecursor (GetNextHop toDst) toOrigin);
          s = update_route toDst s;
          s = update_route toOrigin s in do {
        socket \<leftarrow> FindSocketWithInterfaceAddress (m_iface toOrigin) s;
        let s = emit (SockSend socket (rrep_packet E (m_hops toOrigin) rrepHeader) (GetNextHop toOrigin)) s;
        (if gratRep
         then do {
           let gratRepHeader = RrepHeader_new E 0 (ucast (m_hops toOrigin)) (GetDestination toOrigin)
                                 (m_seqNo toOrigin) (GetDestination toDst) (GetLifeTime (now E) toOrigin);
           socket \<leftarrow> FindSocketWithInterfaceAddress (m_iface toDst) s;
           Some (emit (SockSend socket (rrep_packet E (m_hops toDst) gratRepHeader) (GetNextHop toDst)) s)
         }
         else Some s)
      })"

definition SendReplyAck :: "ns3 \<Rightarrow> ipv4 \<Rightarrow> rp \<Rightarrow> rp option" where
  "SendReplyAck E neighbor s =
     (let packet = control_packet 1 MADAODVTYPE_RREP_ACK (RrepAckHeader_Serialize RrepAckHeader_new);
          (r, s) = lookup E neighbor s;
          toNeighbor = into r (RoutingTableEntry_default E) in do {
        socket \<leftarrow> FindSocketWithInterfaceAddress (m_iface toNeighbor) s;
        Some (emit (SockSend socket packet neighbor) s)
      })"

definition hello_on :: "ns3 \<Rightarrow> sock \<times> iface \<Rightarrow> rp \<Rightarrow> rp" where
  "hello_on E j s =
     (let (socket, iface) = j;
          helloHeader = RrepHeader_new E 0 0 (ia_local iface) (rp_seqNo s) (ia_local iface)
                          (uint (m_allowedHelloLoss (par s)) * m_helloInterval (par s));
          packet = rrep_packet E 1 helloHeader in
      schedule_send E socket packet (broadcast_destination E iface) s)"

definition SendHello :: "ns3 \<Rightarrow> rp \<Rightarrow> rp" where
  "SendHello E s = fold (hello_on E) (m_socketAddresses s) s"

subsection \<open>Packets released from the queue\<close>

text \<open>One round of the \<open>while (m_queue.Dequeue (dst, queueEntry))\<close> loop: the entry taken, if any.\<close>

definition dequeue :: "ns3 \<Rightarrow> ipv4 \<Rightarrow> rp \<Rightarrow> queue_entry option \<times> rp" where
  "dequeue E dst s =
     (let (e, q, ds) = RequestQueue_Dequeue (now E) dst (rp_queue s) in
      (e, emits ds (s\<lparr>rp_queue := q\<rparr>)))"

lemma dequeue_shorter:
  assumes "dequeue E dst s = (Some e, s')"
  shows "length (m_queue (rp_queue s')) < length (m_queue (rp_queue s))"
proof -
  obtain p es where p: "RequestQueue_Purge (now E) (rp_queue s) = (p, es)" by fastforce
  then have "length (m_queue p) \<le> length (m_queue (rp_queue s))"
    by (auto simp: RequestQueue_Purge_def)
  with assms p show ?thesis
    by (auto simp: dequeue_def RequestQueue_Dequeue_def emits_def split: option.splits
        dest: take_first_length)
qed

text \<open>The tag names another output device than the route's. The packet is dropped then, and the loop
  left.\<close>

definition wrong_device :: "ns3 \<Rightarrow> queue_entry \<Rightarrow> ipv4_route \<Rightarrow> bool" where
  "wrong_device E e route =
     (case pk_oif_tag (qe_packet e) of
        None \<Rightarrow> False
      | Some i \<Rightarrow> sint i \<noteq> - 1 \<and> sint i \<noteq> ip_if_for_dev (stack E) (rt_device route))"

text \<open>The forward callback gets the packet without the tag; the source address is the route's, and the
  TTL makes up for the detour over the loopback device.\<close>

definition release :: "ipv4_route \<Rightarrow> queue_entry \<Rightarrow> effect" where
  "release route e =
     Forward (qe_ucb e) route ((qe_packet e)\<lparr>pk_oif_tag := None\<rparr>)
       ((qe_header e)\<lparr>ih_source := rt_source route, ih_ttl := ih_ttl (qe_header e) + 1\<rparr>)"

function SendPacketFromQueue :: "ns3 \<Rightarrow> ipv4 \<Rightarrow> ipv4_route \<Rightarrow> rp \<Rightarrow> rp" where
  "SendPacketFromQueue E dst route s =
     (case dequeue E dst s of
        (None, s') \<Rightarrow> s'
      | (Some e, s') \<Rightarrow>
          if wrong_device E e route then s'
          else SendPacketFromQueue E dst route (emit (release route e) s'))"
  by pat_completeness auto
termination
  by (relation "measure (\<lambda>(E, dst, route, s). length (m_queue (rp_queue s)))")
    (auto simp: emit_def dest: dequeue_shorter [OF sym])

declare SendPacketFromQueue.simps [simp del]

end
