(* ===== verification/Protocol_Recv.thy ===== *)
theory Protocol_Recv
  imports Protocol_Send
begin

text \<open>
  \<open>model/madaodv-routing-protocol.cc\<close>, third part: the handlers of the control messages, from the
  socket callback \<open>RecvMadaodv\<close> to the tables they change and the answers they send. A handler takes
  the packet with the bytes that are left after the headers removed before it.
\<close>

subsection \<open>Route requests\<close>

text \<open>\<open>MinimalLifetime = 2*NetTraversalTime - 2*HopCount*NodeTraversalTime\<close>.\<close>

definition reverse_lifetime :: "params \<Rightarrow> u8 \<Rightarrow> time" where
  "reverse_lifetime p hop = 2 * m_netTraversalTime p - 2 * uint hop * m_nodeTraversalTime p"

text \<open>The reverse route to the originator is created or updated. The local \<open>toOrigin\<close> stays the
  default entry when there was none.\<close>

definition reverse_route ::
  "ns3 \<Rightarrow> RreqHeader \<Rightarrow> u8 \<Rightarrow> ipv4 \<Rightarrow> ipv4 \<Rightarrow> rp \<Rightarrow> (rte \<times> rp) option" where
  "reverse_route E rreqHeader hop receiver src s =
     (case lookup E (rq_origin rreqHeader) s of
        (None, s) \<Rightarrow>
          Some (RoutingTableEntry_default E,
                add_route E (RoutingTableEntry_new (now E) (Some (recv_dev E receiver))
                  (rq_origin rreqHeader) True (rq_originSeqNo rreqHeader) (recv_iface E receiver)
                  (ucast hop) src (reverse_lifetime (par s) hop)) s)
      | (Some toOrigin, s) \<Rightarrow> do {
          toOrigin \<leftarrow>
            (if m_validSeqNo toOrigin
             then do {
               d \<leftarrow> s32_sub (rq_originSeqNo rreqHeader) (m_seqNo toOrigin);
               Some (if d > 0 then toOrigin\<lparr>m_seqNo := rq_originSeqNo rreqHeader\<rparr> else toOrigin)
             }
             else Some (toOrigin\<lparr>m_seqNo := rq_originSeqNo rreqHeader\<rparr>));
          let toOrigin = toOrigin\<lparr>m_validSeqNo := True\<rparr>;
          let toOrigin = SetNextHop src toOrigin;
          let toOrigin = SetOutputDevice (Some (recv_dev E receiver)) toOrigin;
          let toOrigin = toOrigin\<lparr>m_iface := recv_iface E receiver\<rparr>;
          let toOrigin = toOrigin\<lparr>m_hops := ucast hop\<rparr>;
          let toOrigin = SetLifeTime (now E)
                (max (reverse_lifetime (par s) hop) (GetLifeTime (now E) toOrigin)) toOrigin;
          Some (toOrigin, update_route toOrigin s)
        })"

text \<open>The entry of the neighbour that relayed the request.\<close>

definition neighbor_route :: "ns3 \<Rightarrow> RreqHeader \<Rightarrow> ipv4 \<Rightarrow> ipv4 \<Rightarrow> rp \<Rightarrow> rp" where
  "neighbor_route E rreqHeader receiver src s =
     (case lookup E src s of
        (None, s) \<Rightarrow>
          add_route E (RoutingTableEntry_new (now E) (Some (recv_dev E receiver)) src False
            (rq_originSeqNo rreqHeader) (recv_iface E receiver) 1 src (m_activeRouteTimeout (par s))) s
      | (Some toNeighbor, s) \<Rightarrow>
          let toNeighbor = SetLifeTime (now E) (m_activeRouteTimeout (par s)) toNeighbor;
              toNeighbor = toNeighbor\<lparr>m_validSeqNo := False, m_seqNo := rq_originSeqNo rreqHeader,
                                      m_flag := VALID\<rparr>;
              toNeighbor = SetOutputDevice (Some (recv_dev E receiver)) toNeighbor;
              toNeighbor = toNeighbor\<lparr>m_iface := recv_iface E receiver, m_hops := 1\<rparr>;
              toNeighbor = SetNextHop src toNeighbor in
          update_route toNeighbor s)"

text \<open>\<open>p->RemovePacketTag (tag)\<close> into a fresh tag.\<close>

definition ttl_of :: "ns3 \<Rightarrow> packet \<Rightarrow> u8" where
  "ttl_of E p = (case pk_ttl_tag p of None \<Rightarrow> any_ttl E | Some t \<Rightarrow> t)"

definition forward_rreq_on :: "ns3 \<Rightarrow> RreqHeader \<Rightarrow> u8 \<Rightarrow> sock \<times> iface \<Rightarrow> rp \<Rightarrow> rp" where
  "forward_rreq_on E rreqHeader ttl j s =
     (let (socket, iface) = j;
          packet = control_packet (ttl - 1) MADAODVTYPE_RREQ (RreqHeader_Serialize (wire E) rreqHeader);
          s = s\<lparr>m_lastBcastTime := now E\<rparr> in
      schedule_send E socket packet (broadcast_destination E iface) s)"

definition forward_rreq :: "ns3 \<Rightarrow> packet \<Rightarrow> RreqHeader \<Rightarrow> rp \<Rightarrow> rp" where
  "forward_rreq E p rreqHeader s =
     (if ttl_of E p < 2 then s
      else fold (forward_rreq_on E rreqHeader (ttl_of E p)) (m_socketAddresses s) s)"

text \<open>What becomes of a request that is new and for somebody else.\<close>

definition answer_or_forward ::
  "ns3 \<Rightarrow> packet \<Rightarrow> RreqHeader \<Rightarrow> rte \<Rightarrow> ipv4 \<Rightarrow> rp \<Rightarrow> rp option" where
  "answer_or_forward E p rreqHeader toOrigin src s =
     (case lookup E (rq_dst rreqHeader) s of
        (None, s) \<Rightarrow> Some (forward_rreq E p rreqHeader s)
      | (Some toDst, s) \<Rightarrow>
          if GetNextHop toDst = src then Some s
          else do {
            fresh \<leftarrow> (if RreqHeader_GetUnknownSeqno rreqHeader then Some True
                      else do {
                        d \<leftarrow> s32_sub (m_seqNo toDst) (rq_dstSeqNo rreqHeader);
                        Some (d \<ge> 0)
                      });
            (if fresh \<and> m_validSeqNo toDst
             then
               (if \<not> RreqHeader_GetDestinationOnly rreqHeader \<and> m_flag toDst = VALID
                then (case lookup E (rq_origin rreqHeader) s of
                        (r, s) \<Rightarrow>
                          SendReplyByIntermediateNode E toDst (into r toOrigin)
                            (RreqHeader_GetGratuitousRrep rreqHeader) s)
                else Some (forward_rreq E p
                       (RreqHeader_SetUnknownSeqno False (rreqHeader\<lparr>rq_dstSeqNo := m_seqNo toDst\<rparr>)) s))
             else Some (forward_rreq E p rreqHeader s))
          })"

definition hello_lifetime :: "params \<Rightarrow> time" where
  "hello_lifetime p = uint (m_allowedHelloLoss p) * m_helloInterval p"

definition RecvRequest :: "ns3 \<Rightarrow> packet \<Rightarrow> ipv4 \<Rightarrow> ipv4 \<Rightarrow> rp \<Rightarrow> rp option" where
  "RecvRequest E p receiver src s = do {
     (rreqHeader, rest) \<leftarrow> RreqHeader_Deserialize (wire E) (pk_bytes p);
     let p = p\<lparr>pk_bytes := rest\<rparr>;
     let (r, s) = lookup E src s;
     (if (case r of None \<Rightarrow> False | Some toPrev \<Rightarrow> m_blackListState toPrev) then Some s
      else
        (case IdCache_IsDuplicate (now E) (rq_origin rreqHeader) (rq_requestID rreqHeader) (m_rreqIdCache s) of
           (duplicate, c) \<Rightarrow>
             let s = s\<lparr>m_rreqIdCache := c\<rparr> in
             if duplicate then Some s
             else do {
               let hop = rq_hopCount rreqHeader + 1;
               let rreqHeader = rreqHeader\<lparr>rq_hopCount := hop\<rparr>;
               (toOrigin, s) \<leftarrow> reverse_route E rreqHeader hop receiver src s;
               let s = neighbor_route E rreqHeader receiver src s;
               s \<leftarrow> nb_update E src (hello_lifetime (par s)) s;
               (if IsMyOwnAddress (rq_dst rreqHeader) s
                then (case lookup E (rq_origin rreqHeader) s of
                        (r, s) \<Rightarrow> SendReply E rreqHeader (into r toOrigin) s)
                else answer_or_forward E p rreqHeader toOrigin src s)
             }))
   }"

subsection \<open>Route replies\<close>

definition ProcessHello :: "ns3 \<Rightarrow> RrepHeader \<Rightarrow> ipv4 \<Rightarrow> rp \<Rightarrow> rp option" where
  "ProcessHello E rrepHeader receiver s =
     (let s = (case lookup E (rp_dst rrepHeader) s of
                 (None, s) \<Rightarrow>
                   add_route E (RoutingTableEntry_new (now E) (Some (recv_dev E receiver))
                     (rp_dst rrepHeader) True (rp_dstSeqNo rrepHeader) (recv_iface E receiver) 1
                     (rp_dst rrepHeader) (RrepHeader_GetLifeTime rrepHeader)) s
               | (Some toNeighbor, s) \<Rightarrow>
                   let toNeighbor = SetLifeTime (now E)
                         (max (hello_lifetime (par s)) (GetLifeTime (now E) toNeighbor)) toNeighbor;
                       toNeighbor = toNeighbor\<lparr>m_seqNo := rp_dstSeqNo rrepHeader, m_validSeqNo := True,
                                               m_flag := VALID\<rparr>;
                       toNeighbor = SetOutputDevice (Some (recv_dev E receiver)) toNeighbor;
                       toNeighbor = toNeighbor\<lparr>m_iface := recv_iface E receiver, m_hops := 1\<rparr>;
                       toNeighbor = SetNextHop (rp_dst rrepHeader) toNeighbor in
                   update_route toNeighbor s) in
      if m_enableHello (par s) then nb_update E (rp_dst rrepHeader) (hello_lifetime (par s)) s
      else Some s)"

text \<open>An existing entry is replaced when its sequence number is invalid, or older, or equal and the
  route is not valid or longer.\<close>

definition accept_reply :: "RrepHeader \<Rightarrow> u8 \<Rightarrow> rte \<Rightarrow> bool option" where
  "accept_reply rrepHeader hop toDst =
     (if \<not> m_validSeqNo toDst then Some True
      else do {
        d \<leftarrow> s32_sub (rp_dstSeqNo rrepHeader) (m_seqNo toDst);
        Some (if d > 0 then True
              else if rp_dstSeqNo rrepHeader = m_seqNo toDst \<and> m_flag toDst \<noteq> VALID then True
              else rp_dstSeqNo rrepHeader = m_seqNo toDst \<and> ucast hop < m_hops toDst)
      })"

definition install_reply :: "ns3 \<Rightarrow> RrepHeader \<Rightarrow> u8 \<Rightarrow> rte \<Rightarrow> rte option \<Rightarrow> rp \<Rightarrow> rp option" where
  "install_reply E rrepHeader hop newEntry r s =
     (case r of
        Some toDst \<Rightarrow> do {
          replace \<leftarrow> accept_reply rrepHeader hop toDst;
          Some (if replace then update_route newEntry s else s)
        }
      | None \<Rightarrow> Some (add_route E newEntry s))"

text \<open>The precursor lists of the four entries along the path.\<close>

definition insert_precursor_at :: "ns3 \<Rightarrow> ipv4 \<Rightarrow> ipv4 \<Rightarrow> rp \<Rightarrow> rp" where
  "insert_precursor_at E at i s =
     (let (r, s) = lookup E at s in
      update_route (snd (InsertPrecursor i (into r (RoutingTableEntry_default E)))) s)"

definition update_precursors :: "ns3 \<Rightarrow> rte \<Rightarrow> rte \<Rightarrow> rp \<Rightarrow> rp" where
  "update_precursors E toDst toOrigin s =
     (let toDst = snd (InsertPrecursor (GetNextHop toOrigin) toDst);
          s = update_route toDst s;
          s = insert_precursor_at E (GetNextHop toDst) (GetNextHop toOrigin) s;
          toOrigin = snd (InsertPrecursor (GetNextHop toDst) toOrigin);
          s = update_route toOrigin s in
      insert_precursor_at E (GetNextHop toOrigin) (GetNextHop toDst) s)"

definition forward_reply :: "ns3 \<Rightarrow> packet \<Rightarrow> RrepHeader \<Rightarrow> rp \<Rightarrow> rp option" where
  "forward_reply E p rrepHeader s =
     (case lookup E (rp_origin rrepHeader) s of
        (None, s) \<Rightarrow> Some s
      | (Some toOrigin, s) \<Rightarrow>
          if m_flag toOrigin = IN_SEARCH then Some s
          else
            let toOrigin = SetLifeTime (now E)
                  (max (m_activeRouteTimeout (par s)) (GetLifeTime (now E) toOrigin)) toOrigin;
                s = update_route toOrigin s;
                s = (case lookup_valid E (rp_dst rrepHeader) s of
                       (True, Some toDst, s) \<Rightarrow> update_precursors E toDst toOrigin s
                     | (_, _, s) \<Rightarrow> s) in
            if ttl_of E p < 2 then Some s
            else do {
              let packet = rrep_packet E (ucast (ttl_of E p - 1)) rrepHeader;
              socket \<leftarrow> FindSocketWithInterfaceAddress (m_iface toOrigin) s;
              Some (emit (SockSend socket packet (GetNextHop toOrigin)) s)
            })"

text \<open>The reply reached the originator of the request.\<close>

definition finish_discovery :: "ns3 \<Rightarrow> ipv4 \<Rightarrow> rte \<Rightarrow> rte \<Rightarrow> rp \<Rightarrow> rp" where
  "finish_discovery E dst newEntry toDst s =
     (let s = (if m_flag toDst = IN_SEARCH
               then (update_route newEntry s)\<lparr>m_addressReqTimer := smap_erase dst (m_addressReqTimer s)\<rparr>
               else s);
          (r, s) = lookup E dst s;
          toDst = into r toDst in
      SendPacketFromQueue E dst (m_ipv4Route toDst) s)"

definition RecvReply :: "ns3 \<Rightarrow> packet \<Rightarrow> ipv4 \<Rightarrow> ipv4 \<Rightarrow> rp \<Rightarrow> rp option" where
  "RecvReply E p receiver sender s = do {
     (rrepHeader, rest) \<leftarrow> RrepHeader_Deserialize (wire E) (pk_bytes p);
     let p = p\<lparr>pk_bytes := rest\<rparr>;
     let dst = rp_dst rrepHeader;
     let hop = rp_hopCount rrepHeader + 1;
     let rrepHeader = rrepHeader\<lparr>rp_hopCount := hop\<rparr>;
     (if dst = rp_origin rrepHeader then ProcessHello E rrepHeader receiver s
      else do {
        let newEntry = RoutingTableEntry_new (now E) (Some (recv_dev E receiver)) dst True
              (rp_dstSeqNo rrepHeader) (recv_iface E receiver) (ucast hop) sender
              (RrepHeader_GetLifeTime rrepHeader);
        let (r, s) = lookup E dst s;
        s \<leftarrow> install_reply E rrepHeader hop newEntry r s;
        (rrepHeader, s) \<leftarrow>
          (if RrepHeader_GetAckRequired rrepHeader
           then do { s \<leftarrow> SendReplyAck E sender s; Some (RrepHeader_SetAckRequired False rrepHeader, s) }
           else Some (rrepHeader, s));
        (if IsMyOwnAddress (rp_origin rrepHeader) s
         then Some (finish_discovery E dst newEntry (into r (RoutingTableEntry_default E)) s)
         else forward_reply E p rrepHeader s)
      })
   }"

definition RecvReplyAck :: "ns3 \<Rightarrow> ipv4 \<Rightarrow> rp \<Rightarrow> rp" where
  "RecvReplyAck E neighbor s =
     (case lookup E neighbor s of
        (None, s) \<Rightarrow> s
      | (Some rt, s) \<Rightarrow>
          let rt = rt\<lparr>m_ackTimer := m_ackTimer rt @ [TmCancel]\<rparr>;
              rt = rt\<lparr>m_flag := VALID\<rparr> in
          update_route rt s)"

subsection \<open>Route errors\<close>

text \<open>The loop that takes the destinations out of the header and keeps those whose next hop is the
  sender of the message.\<close>

function collect_unreachable ::
  "(ipv4, u32) smap \<Rightarrow> RerrHeader \<Rightarrow> (ipv4, u32) smap \<Rightarrow> (ipv4, u32) smap \<times> RerrHeader" where
  "collect_unreachable dstWithNextHopSrc rerrHeader unreachable =
     (case RerrHeader_RemoveUnDestination rerrHeader of
        (None, rerrHeader) \<Rightarrow> (unreachable, rerrHeader)
      | (Some un, rerrHeader) \<Rightarrow>
          collect_unreachable dstWithNextHopSrc rerrHeader
            (fold (\<lambda>i m. if fst i = fst un then smap_insert (fst un) (snd un) m else m)
               dstWithNextHopSrc unreachable))"
  by pat_completeness auto
termination
  by (relation "measure (\<lambda>(d, h, m). length (re_unreachable h))")
    (auto simp: RerrHeader_RemoveUnDestination_def split: list.splits)

declare collect_unreachable.simps [simp del]

definition RecvError :: "ns3 \<Rightarrow> packet \<Rightarrow> ipv4 \<Rightarrow> rp \<Rightarrow> rp option" where
  "RecvError E p src s = do {
     (rerrHeader, rest) \<leftarrow> RerrHeader_Deserialize (wire E) (pk_bytes p);
     let (dstWithNextHopSrc, s) = list_via E src s;
     let (unreachable, rerrHeader) = collect_unreachable dstWithNextHopSrc rerrHeader [];
     (rerrHeader, precursors, s) \<leftarrow> rerr_loop E unreachable rerrHeader [] s;
     s \<leftarrow> rerr_rest E rerrHeader precursors s;
     Some (invalidate_routes E unreachable s)
   }"

subsection \<open>The socket callback\<close>

definition receiver_of :: "sock \<Rightarrow> rp \<Rightarrow> ipv4 option" where
  "receiver_of socket s =
     (case map_of (m_socketAddresses s) socket of
        Some i \<Rightarrow> Some (ia_local i)
      | None \<Rightarrow>
          (case map_of (m_socketSubnetBroadcastAddresses s) socket of
             Some i \<Rightarrow> Some (ia_local i)
           | None \<Rightarrow> None))"

text \<open>\<open>socket->RecvFrom\<close> yielded the packet and the sender's address.\<close>

definition RecvMadaodv :: "ns3 \<Rightarrow> sock \<Rightarrow> packet \<Rightarrow> ipv4 \<Rightarrow> rp \<Rightarrow> rp option" where
  "RecvMadaodv E socket packet sender s = do {
     receiver \<leftarrow> receiver_of socket s;
     let s = UpdateRouteToNeighbor E sender receiver s;
     (tHeader, rest) \<leftarrow> TypeHeader_Deserialize (TypeHeader_new MADAODVTYPE_RREQ) (pk_bytes packet);
     let packet = packet\<lparr>pk_bytes := rest\<rparr>;
     (if \<not> th_valid tHeader then Some s
      else case th_type tHeader of
        MADAODVTYPE_RREQ \<Rightarrow> RecvRequest E packet receiver sender s
      | MADAODVTYPE_RREP \<Rightarrow> RecvReply E packet receiver sender s
      | MADAODVTYPE_RERR \<Rightarrow> RecvError E packet sender s
      | MADAODVTYPE_RREP_ACK \<Rightarrow> Some (RecvReplyAck E sender s))
   }"

end
