(* ===== verification/Protocol_Node.thy ===== *)
theory Protocol_Node
  imports Protocol_Recv
begin

text \<open>
  \<open>model/madaodv-routing-protocol.cc\<close>, fourth part: what the node's IPv4 layer and the simulator ask
  of the agent. The data path (\<open>RouteOutput\<close>, \<open>RouteInput\<close>, \<open>Forwarding\<close> and the deferral of
  packets without a route), the timers, and the configuration of the interfaces. A callback that the
  IPv4 layer hands in is an effect when it is invoked; what it does in turn to the agent is a later
  event.
\<close>

subsection \<open>Packets leaving the node\<close>

datatype sockerr = ERROR_NOTERROR | ERROR_NOROUTETOHOST

text \<open>The result of \<open>RouteOutput\<close>: the route, if any, the error code when the call sets it, and the
  packet with its tag.\<close>

record route_output =
  ro_route :: "ipv4_route option"
  ro_sockerr :: "sockerr option"
  ro_packet :: "packet option"

text \<open>\<open>if (!p->PeekPacketTag (tag)) p->AddPacketTag (tag)\<close>.\<close>

definition tag_oif :: "ns3 \<Rightarrow> dev option \<Rightarrow> packet \<Rightarrow> packet" where
  "tag_oif E oif p =
     (let iif = (case oif of None \<Rightarrow> - 1 | Some d \<Rightarrow> ip_if_for_dev (stack E) (Some d)) in
      case pk_oif_tag p of None \<Rightarrow> p\<lparr>pk_oif_tag := Some (word_of_int iif)\<rparr> | Some _ \<Rightarrow> p)"

definition RouteOutput ::
  "ns3 \<Rightarrow> packet option \<Rightarrow> ipv4_header \<Rightarrow> dev option \<Rightarrow> rp \<Rightarrow> (route_output \<times> rp) option" where
  "RouteOutput E p header oif s =
     (case p of
        None \<Rightarrow> do {
          rt \<leftarrow> LoopbackRoute E header oif s;
          Some (\<lparr>ro_route = Some rt, ro_sockerr = None, ro_packet = None\<rparr>, s)
        }
      | Some p \<Rightarrow>
          if m_socketAddresses s = []
          then Some (\<lparr>ro_route = None, ro_sockerr = Some ERROR_NOROUTETOHOST, ro_packet = Some p\<rparr>, s)
          else
            let dst = ih_destination header in
            (case lookup_valid E dst s of
               (True, Some rt, s) \<Rightarrow>
                 let route = m_ipv4Route rt in
                 if oif \<noteq> None \<and> rt_device route \<noteq> oif
                 then Some (\<lparr>ro_route = None, ro_sockerr = Some ERROR_NOROUTETOHOST,
                             ro_packet = Some p\<rparr>, s)
                 else
                   let (b, s) = UpdateRouteLifeTime E dst (m_activeRouteTimeout (par s)) s;
                       (b, s) = UpdateRouteLifeTime E (rt_gateway route)
                                  (m_activeRouteTimeout (par s)) s in
                   Some (\<lparr>ro_route = Some route, ro_sockerr = Some ERROR_NOTERROR,
                          ro_packet = Some p\<rparr>, s)
             | (_, _, s) \<Rightarrow> do {
                 rt \<leftarrow> LoopbackRoute E header oif s;
                 Some (\<lparr>ro_route = Some rt, ro_sockerr = Some ERROR_NOTERROR,
                        ro_packet = Some (tag_oif E oif p)\<rparr>, s)
               }))"

text \<open>The queue's answer, and the error callbacks of the packets it dropped.\<close>

definition enqueue :: "ns3 \<Rightarrow> queue_entry \<Rightarrow> rp \<Rightarrow> (bool \<times> rp) option" where
  "enqueue E entry s = do {
     (result, q, ds) \<leftarrow> RequestQueue_Enqueue (now E) entry (rp_queue s);
     Some (result, emits ds (s\<lparr>rp_queue := q\<rparr>))
   }"

definition DeferredRouteOutput ::
  "ns3 \<Rightarrow> packet \<Rightarrow> ipv4_header \<Rightarrow> callback \<Rightarrow> callback \<Rightarrow> rp \<Rightarrow> rp option" where
  "DeferredRouteOutput E p header ucb ecb s = do {
     (result, s) \<leftarrow> enqueue E (QueueEntry_new (now E) p header ucb ecb (now E)) s;
     (if result
      then (case lookup E (ih_destination header) s of
              (r, s) \<Rightarrow>
                if (case r of None \<Rightarrow> True | Some rt \<Rightarrow> m_flag rt \<noteq> IN_SEARCH)
                then SendRequest E (ih_destination header) s
                else Some s)
      else Some s)
   }"

subsection \<open>Packets entering the node\<close>

definition touch :: "ns3 \<Rightarrow> ipv4 \<Rightarrow> rp \<Rightarrow> rp" where
  "touch E addr s = snd (UpdateRouteLifeTime E addr (m_activeRouteTimeout (par s)) s)"

text \<open>Forward, or report that there is no route. The result tells whether the packet is taken care
  of.\<close>

definition Forwarding ::
  "ns3 \<Rightarrow> packet \<Rightarrow> ipv4_header \<Rightarrow> callback \<Rightarrow> callback \<Rightarrow> rp \<Rightarrow> (bool \<times> rp) option" where
  "Forwarding E p header ucb ecb s =
     (let dst = ih_destination header;
          origin = ih_source header;
          s = s\<lparr>m_routingTable := RoutingTable_Purge (now E) (m_routingTable s)\<rparr>;
          (r, s) = lookup E dst s;
          toDst = into r (RoutingTableEntry_default E) in
      if r \<noteq> None \<and> m_flag toDst = VALID
      then
        let route = m_ipv4Route toDst;
            s = touch E origin s;
            s = touch E dst s;
            s = touch E (rt_gateway route) s;
            (r, s) = lookup E origin s;
            toOrigin = into r (RoutingTableEntry_default E);
            s = touch E (GetNextHop toOrigin) s in do {
          s \<leftarrow> nb_update E (rt_gateway route) (m_activeRouteTimeout (par s)) s;
          s \<leftarrow> nb_update E (GetNextHop toOrigin) (m_activeRouteTimeout (par s)) s;
          Some (True, emit (Forward ucb route p header) s)
        }
      else if r \<noteq> None \<and> m_validSeqNo toDst
      then map_option (Pair False) (SendRerrWhenNoRouteToForward E dst (m_seqNo toDst) origin s)
      else map_option (Pair False) (SendRerrWhenNoRouteToForward E dst 0 origin s))"

text \<open>The local delivery callback may be null; then the error callback is invoked.\<close>

definition deliver ::
  "packet \<Rightarrow> ipv4_header \<Rightarrow> int \<Rightarrow> callback option \<Rightarrow> callback \<Rightarrow> rp \<Rightarrow> rp" where
  "deliver p header iif lcb ecb s =
     (case lcb of
        Some l \<Rightarrow> emit (Deliver l p header iif) s
      | None \<Rightarrow> emit (Error ecb p header) s)"

text \<open>A broadcast received on an interface of ours: delivered once, and forwarded if so
  configured.\<close>

definition broadcast_input ::
  "ns3 \<Rightarrow> packet \<Rightarrow> ipv4_header \<Rightarrow> int \<Rightarrow> callback \<Rightarrow> callback option \<Rightarrow> callback \<Rightarrow> rp \<Rightarrow> rp" where
  "broadcast_input E p header iif ucb lcb ecb s =
     (let (duplicate, d) = Dpd_IsDuplicate (now E) p header (m_dpd s);
          s = s\<lparr>m_dpd := d\<rparr> in
      if duplicate then s
      else
        let s = touch E (ih_source header) s;
            packet = p;
            s = deliver p header iif lcb ecb s in
        if \<not> m_enableBroadcast (par s) then s
        else if ih_protocol header = udp_protocol E \<and> ucast (udp_dst_port E p) = MADAODV_PORT then s
        else if ih_ttl header > 1
        then (case lookup E (ih_destination header) s of
                (Some toBroadcast, s) \<Rightarrow> emit (Forward ucb (m_ipv4Route toBroadcast) packet header) s
              | (None, s) \<Rightarrow> s)
        else s)"

text \<open>The interface of the broadcast loop: the first socket whose interface the packet came in on and
  whose broadcast address it has.\<close>

definition broadcast_match :: "ns3 \<Rightarrow> ipv4 \<Rightarrow> int \<Rightarrow> rp \<Rightarrow> bool" where
  "broadcast_match E dst iif s =
     (\<exists>j\<in>set (m_socketAddresses s).
        ip_if_for_addr (stack E) (ia_local (snd j)) = iif \<and>
        (dst = ia_broadcast (snd j) \<or> is_broadcast E dst))"

definition unicast_input ::
  "ns3 \<Rightarrow> packet \<Rightarrow> ipv4_header \<Rightarrow> int \<Rightarrow> callback option \<Rightarrow> callback \<Rightarrow> rp \<Rightarrow> rp option" where
  "unicast_input E p header iif lcb ecb s =
     (let origin = ih_source header;
          s = touch E origin s in do {
        s \<leftarrow> (case lookup_valid E origin s of
                (True, Some toOrigin, s) \<Rightarrow>
                  nb_update E (GetNextHop toOrigin) (m_activeRouteTimeout (par s))
                    (touch E (GetNextHop toOrigin) s)
              | (_, _, s) \<Rightarrow> Some s);
        Some (deliver p header iif lcb ecb s)
      })"

definition RouteInput ::
  "ns3 \<Rightarrow> packet \<Rightarrow> ipv4_header \<Rightarrow> dev \<Rightarrow> callback \<Rightarrow> callback option \<Rightarrow> callback \<Rightarrow> rp \<Rightarrow>
   (bool \<times> rp) option" where
  "RouteInput E p header idev ucb lcb ecb s =
     (if m_socketAddresses s = [] then Some (False, s)
      else if \<not> m_ipv4 s then None
      else
        let iif = ip_if_for_dev (stack E) (Some idev);
            dst = ih_destination header;
            origin = ih_source header in
        if iif < 0 then None
        else if Some idev = m_lo s \<and> pk_oif_tag p \<noteq> None
        then map_option (Pair True) (DeferredRouteOutput E p header ucb ecb s)
        else if IsMyOwnAddress origin s then Some (True, s)
        else if is_multicast E dst then Some (False, s)
        else if broadcast_match E dst iif s
        then Some (True, broadcast_input E p header iif ucb lcb ecb s)
        else if ip_is_destination (stack E) dst iif
        then map_option (Pair True) (unicast_input E p header iif lcb ecb s)
        else if \<not> ip_is_forwarding (stack E) iif
        then Some (True, emit (Error ecb p header) s)
        else Forwarding E p header ucb ecb s)"

subsection \<open>Timers\<close>

definition drop_queued :: "ns3 \<Rightarrow> ipv4 \<Rightarrow> rp \<Rightarrow> rp" where
  "drop_queued E dst s =
     (let (q, ds) = RequestQueue_DropPacketWithDst (now E) dst (rp_queue s) in
      emits ds (s\<lparr>rp_queue := q\<rparr>))"

definition delete_route :: "ns3 \<Rightarrow> ipv4 \<Rightarrow> rp \<Rightarrow> rp" where
  "delete_route E dst s =
     s\<lparr>m_routingTable := snd (RoutingTable_DeleteRoute (now E) dst (m_routingTable s))\<rparr>"

definition stop_search :: "ns3 \<Rightarrow> ipv4 \<Rightarrow> rp \<Rightarrow> rp" where
  "stop_search E dst s =
     (let s = s\<lparr>m_addressReqTimer := smap_erase dst (m_addressReqTimer s)\<rparr>;
          s = delete_route E dst s in
      drop_queued E dst s)"

definition RouteRequestTimerExpire :: "ns3 \<Rightarrow> ipv4 \<Rightarrow> rp \<Rightarrow> rp option" where
  "RouteRequestTimerExpire E dst s =
     (case lookup_valid E dst s of
        (valid, r, s) \<Rightarrow>
          let toDst = into r (RoutingTableEntry_default E) in
          if valid then Some (SendPacketFromQueue E dst (m_ipv4Route toDst) s)
          else if ucast (m_reqCount toDst) = m_rreqRetries (par s) then Some (stop_search E dst s)
          else if m_flag toDst = IN_SEARCH then SendRequest E dst s
          else Some (stop_search E dst s))"

definition HelloTimerExpire :: "ns3 \<Rightarrow> rp \<Rightarrow> rp" where
  "HelloTimerExpire E s =
     (let (offset, s) = (if m_lastBcastTime s > Seconds 0 then (now E - m_lastBcastTime s, s)
                         else (Seconds 0, SendHello E s));
          diff = m_helloInterval (par s) - offset in
      s\<lparr>m_htimer := m_htimer s @ [TmCancel, TmSchedule (Some (max (Seconds 0) diff))],
        m_lastBcastTime := Seconds 0\<rparr>)"

definition RreqRateLimitTimerExpire :: "rp \<Rightarrow> rp" where
  "RreqRateLimitTimerExpire s =
     s\<lparr>m_rreqCount := 0,
       m_rreqRateLimitTimer := m_rreqRateLimitTimer s @ [TmSchedule (Some (Seconds 1))]\<rparr>"

definition RerrRateLimitTimerExpire :: "rp \<Rightarrow> rp" where
  "RerrRateLimitTimerExpire s =
     s\<lparr>m_rerrCount := 0,
       m_rerrRateLimitTimer := m_rerrRateLimitTimer s @ [TmSchedule (Some (Seconds 1))]\<rparr>"

definition AckTimerExpire :: "ipv4 \<Rightarrow> time \<Rightarrow> rp \<Rightarrow> rp" where
  "AckTimerExpire neighbor blacklistTimeout s =
     s\<lparr>m_routingTable :=
         snd (RoutingTable_MarkLinkAsUnidirectional neighbor blacklistTimeout (m_routingTable s))\<rparr>"

text \<open>The neighbour list's own timer, whose time has come, runs its \<open>Purge\<close>.\<close>

definition nb_purge :: "ns3 \<Rightarrow> rp \<Rightarrow> rp option" where
  "nb_purge E s = do {
     let nb = (rp_nb s)\<lparr>m_ntimer := m_ntimer (rp_nb s) @ [TmExpire]\<rparr>;
     (nb, s) \<leftarrow> Neighbors_Purge (now E) (nb_callback E) nb s;
     Some (s\<lparr>rp_nb := nb\<rparr>)
   }"

text \<open>A dropped frame's receiver address reaches the neighbour list.\<close>

definition NotifyTxError :: "ns3 \<Rightarrow> mac \<Rightarrow> rp \<Rightarrow> rp option" where
  "NotifyTxError E addr s = do {
     (nb, s) \<leftarrow> Neighbors_ProcessTxError (now E) (nb_callback E) addr (rp_nb s) s;
     Some (s\<lparr>rp_nb := nb\<rparr>)
   }"

subsection \<open>Start and end\<close>

definition Start :: "rp \<Rightarrow> rp" where
  "Start s =
     (let s = (if m_enableHello (par s) then s\<lparr>rp_nb := Neighbors_ScheduleTimer (rp_nb s)\<rparr> else s) in
      s\<lparr>m_rreqRateLimitTimer := m_rreqRateLimitTimer s @ [TmSetFunction, TmSchedule (Some (Seconds 1))],
        m_rerrRateLimitTimer := m_rerrRateLimitTimer s @ [TmSetFunction, TmSchedule (Some (Seconds 1))]\<rparr>)"

definition DoInitialize :: "ns3 \<Rightarrow> rp \<Rightarrow> rp" where
  "DoInitialize E s =
     (if m_enableHello (par s)
      then let s = s\<lparr>m_htimer := m_htimer s @ [TmSetFunction]\<rparr>;
               (startTime, s) = draw E 0 100 s in
           s\<lparr>m_htimer := m_htimer s @ [TmSchedule (Some (MilliSeconds startTime))]\<rparr>
      else s)"

definition AssignStreams :: "int \<Rightarrow> rp \<Rightarrow> int \<times> rp" where
  "AssignStreams stream s = (1, emit (SetStream stream) s)"

definition DoDispose :: "rp \<Rightarrow> rp" where
  "DoDispose s =
     (let s = s\<lparr>m_ipv4 := False\<rparr>;
          s = emits (map (\<lambda>iter. SockClose (fst iter)) (m_socketAddresses s)) s;
          s = s\<lparr>m_socketAddresses := []\<rparr>;
          s = emits (map (\<lambda>iter. SockClose (fst iter)) (m_socketSubnetBroadcastAddresses s)) s in
      s\<lparr>m_socketSubnetBroadcastAddresses := []\<rparr>)"

definition SetIpv4 :: "ns3 \<Rightarrow> rp \<Rightarrow> rp option" where
  "SetIpv4 E s =
     (if m_ipv4 s then None
      else
        let s = s\<lparr>m_ipv4 := True\<rparr> in
        if \<not> (ip_n_interfaces (stack E) = 1 \<and> ia_local (ip_address (stack E) 0) = ip4 127 0 0 1)
        then None
        else
          let lo = ip_net_device (stack E) 0;
              s = s\<lparr>m_lo := Some lo\<rparr>;
              rt = RoutingTableEntry_new (now E) (Some lo) (ip4 127 0 0 1) True 0
                     (mk_iface E (ip4 127 0 0 1) (ip4 255 0 0 0)) 1 (ip4 127 0 0 1) (max_time E);
              s = add_route E rt s in
          Some (emit SchedStart s))"

subsection \<open>Interfaces\<close>

text \<open>Create a socket, bind it to a device and an address.\<close>

definition open_socket :: "ns3 \<Rightarrow> int \<Rightarrow> ipv4 \<Rightarrow> bool \<Rightarrow> rp \<Rightarrow> sock \<times> rp" where
  "open_socket E i addr recvTtl s =
     (let socket = new_socket E (created s);
          s = s\<lparr>created := Suc (created s)\<rparr> in
      (socket, emit (SockOpen socket (ip_net_device (stack E) i) addr recvTtl) s))"

text \<open>The two sockets of an interface and the route to its broadcast address. The first of the three
  callers and the third ask both sockets for the received TTL, the second only the broadcast
  socket.\<close>

definition open_interface :: "ns3 \<Rightarrow> int \<Rightarrow> bool \<Rightarrow> rp \<Rightarrow> rp" where
  "open_interface E i recvTtl s =
     (let iface = ip_address (stack E) i;
          (socket, s) = open_socket E i (ia_local iface) recvTtl s;
          s = s\<lparr>m_socketAddresses := smap_insert socket iface (m_socketAddresses s)\<rparr>;
          (socket, s) = open_socket E i (ia_broadcast iface) True s;
          s = s\<lparr>m_socketSubnetBroadcastAddresses :=
                smap_insert socket iface (m_socketSubnetBroadcastAddresses s)\<rparr>;
          dev = ip_net_device (stack E) (ip_if_for_addr (stack E) (ia_local iface)) in
      add_route E (RoutingTableEntry_new (now E) (Some dev) (ia_broadcast iface) True 0 iface 1
        (ia_broadcast iface) (max_time E)) s)"

definition NotifyInterfaceUp :: "ns3 \<Rightarrow> int \<Rightarrow> rp \<Rightarrow> rp option" where
  "NotifyInterfaceUp E i s =
     (if \<not> m_ipv4 s then None
      else
        let iface = ip_address (stack E) i in
        if ia_local iface = ip4 127 0 0 1 then Some s
        else
          let s = open_interface E i True s;
              s = (case ip_arp_cache (stack E) i of
                     Some a \<Rightarrow> s\<lparr>rp_nb := Neighbors_AddArpCache a (rp_nb s)\<rparr>
                   | None \<Rightarrow> s);
              dev = ip_net_device (stack E) (ip_if_for_addr (stack E) (ia_local iface)) in
          if ip_dev_wifi (stack E) dev \<and> ip_dev_mac (stack E) dev then Some (emit (TxTraceOn dev) s)
          else Some s)"

definition no_interfaces :: "rp \<Rightarrow> rp" where
  "no_interfaces s =
     s\<lparr>m_htimer := m_htimer s @ [TmCancel], rp_nb := Neighbors_Clear (rp_nb s),
       m_routingTable := RoutingTable_Clear (m_routingTable s)\<rparr>"

definition delete_routes_from :: "iface \<Rightarrow> rp \<Rightarrow> rp" where
  "delete_routes_from iface s =
     s\<lparr>m_routingTable := RoutingTable_DeleteAllRoutesFromInterface iface (m_routingTable s)\<rparr>"

text \<open>\<open>wifi->GetMac ()->GetObject\<close> calls a method on the MAC without testing the pointer.\<close>

definition NotifyInterfaceDown :: "ns3 \<Rightarrow> int \<Rightarrow> rp \<Rightarrow> rp option" where
  "NotifyInterfaceDown E i s =
     (if \<not> m_ipv4 s then None
      else do {
        let dev = ip_net_device (stack E) i;
        s \<leftarrow> (if \<not> ip_dev_wifi (stack E) dev then Some s
              else if \<not> ip_dev_mac (stack E) dev then None
              else if ip_dev_adhoc (stack E) dev
              then (let s = emit (TxTraceOff dev) s in
                    Some (s\<lparr>rp_nb := Neighbors_DelArpCache (ip_arp_cache (stack E) i) (rp_nb s)\<rparr>))
              else Some s);
        let iface = ip_address (stack E) i;
        socket \<leftarrow> FindSocketWithInterfaceAddress iface s;
        let s = emit (SockClose socket) s;
        let s = s\<lparr>m_socketAddresses := smap_erase socket (m_socketAddresses s)\<rparr>;
        socket \<leftarrow> FindSubnetBroadcastSocketWithInterfaceAddress iface s;
        let s = emit (SockClose socket) s;
        let s = s\<lparr>m_socketSubnetBroadcastAddresses :=
                  smap_erase socket (m_socketSubnetBroadcastAddresses s)\<rparr>;
        Some (if m_socketAddresses s = [] then no_interfaces s else delete_routes_from iface s)
      })"

definition NotifyAddAddress :: "ns3 \<Rightarrow> int \<Rightarrow> iface \<Rightarrow> rp \<Rightarrow> rp option" where
  "NotifyAddAddress E i address s =
     (if \<not> m_ipv4 s then None
      else if \<not> ip_is_up (stack E) i then Some s
      else if ip_n_addresses (stack E) i = 1
      then
        let iface = ip_address (stack E) i in
        (case FindSocketWithInterfaceAddress iface s of
           None \<Rightarrow> if ia_local iface = ip4 127 0 0 1 then Some s
                   else Some (open_interface E i False s)
         | Some socket \<Rightarrow> Some s)
      else Some s)"

text \<open>The subnet broadcast socket of the removed address is erased from the table of the other
  sockets.\<close>

definition NotifyRemoveAddress :: "ns3 \<Rightarrow> int \<Rightarrow> iface \<Rightarrow> rp \<Rightarrow> rp option" where
  "NotifyRemoveAddress E i address s =
     (case FindSocketWithInterfaceAddress address s of
        None \<Rightarrow> Some s
      | Some socket \<Rightarrow>
          let s = delete_routes_from address s;
              s = emit (SockClose socket) s;
              s = s\<lparr>m_socketAddresses := smap_erase socket (m_socketAddresses s)\<rparr>;
              s = (case FindSubnetBroadcastSocketWithInterfaceAddress address s of
                     Some unicastSocket \<Rightarrow>
                       (emit (SockClose unicastSocket) s)\<lparr>m_socketAddresses :=
                          smap_erase unicastSocket (m_socketAddresses s)\<rparr>
                   | None \<Rightarrow> s) in
          if \<not> m_ipv4 s then None
          else
            let s = (if ip_n_addresses (stack E) i \<noteq> 0 then open_interface E i True s else s) in
            Some (if m_socketAddresses s = [] then no_interfaces s else s))"

end
