(* ===== verification/Protocol_Events.thy ===== *)
theory Protocol_Events
  imports Protocol_Node
begin

text \<open>
  The agent as a state machine. An event is one call of a handler by the simulator, the IPv4 layer or
  a socket; \<open>handle\<close> runs it. A timer's event can happen only when the timer runs, and stops it; a
  scheduled call only when it was scheduled more often than it was run. \<open>reachable\<close> collects the
  states of all runs from a freshly configured agent, with the clock never going back and one byte
  order on the wire; everything else about the environment may change from one event to the next. The
  attributes are set before the run; during it only those change that have a setter among the events.
\<close>

subsection \<open>Events\<close>

datatype event =
    EvSetIpv4
  | EvStart
  | EvInitialize
  | EvDispose
  | EvInterfaceUp int
  | EvInterfaceDown int
  | EvAddAddress int iface
  | EvRemoveAddress int iface
  | EvRouteOutput "packet option" ipv4_header "dev option"
  | EvRouteInput packet ipv4_header dev callback "callback option" callback
  | EvRecv sock packet ipv4
  | EvSendRequest time ipv4
  | EvSendTo time sock control ipv4
  | EvRreqTimer ipv4
  | EvHelloTimer
  | EvRreqLimitTimer
  | EvRerrLimitTimer
  | EvNeighborTimer
  | EvTxError mac
  | EvAckTimer ipv4 time
  | EvAssignStreams int
  | EvSetGratuitousReply bool
  | EvSetDestinationOnly bool
  | EvSetHello bool
  | EvSetBroadcast bool
  | EvSetMaxQueueLen u32
  | EvSetMaxQueueTime time

fun handle :: "ns3 \<Rightarrow> event \<Rightarrow> rp \<Rightarrow> rp option" where
  "handle E EvSetIpv4 s = SetIpv4 E s"
| "handle E EvStart s = Some (Start s)"
| "handle E EvInitialize s = Some (DoInitialize E s)"
| "handle E EvDispose s = Some (DoDispose s)"
| "handle E (EvInterfaceUp i) s = NotifyInterfaceUp E i s"
| "handle E (EvInterfaceDown i) s = NotifyInterfaceDown E i s"
| "handle E (EvAddAddress i a) s = NotifyAddAddress E i a s"
| "handle E (EvRemoveAddress i a) s = NotifyRemoveAddress E i a s"
| "handle E (EvRouteOutput p h oif) s = map_option snd (RouteOutput E p h oif s)"
| "handle E (EvRouteInput p h idev ucb lcb ecb) s = map_option snd (RouteInput E p h idev ucb lcb ecb s)"
| "handle E (EvRecv k p a) s = RecvMadaodv E k p a s"
| "handle E (EvSendRequest d dst) s = SendRequest E dst s"
| "handle E (EvSendTo d k p a) s = Some (SendTo k p a s)"
| "handle E (EvRreqTimer dst) s = RouteRequestTimerExpire E dst s"
| "handle E EvHelloTimer s = Some (HelloTimerExpire E s)"
| "handle E EvRreqLimitTimer s = Some (RreqRateLimitTimerExpire s)"
| "handle E EvRerrLimitTimer s = Some (RerrRateLimitTimerExpire s)"
| "handle E EvNeighborTimer s = nb_purge E s"
| "handle E (EvTxError a) s = NotifyTxError E a s"
| "handle E (EvAckTimer a t) s = Some (AckTimerExpire a t s)"
| "handle E (EvAssignStreams n) s = Some (snd (AssignStreams n s))"
| "handle E (EvSetGratuitousReply f) s = Some (SetGratuitousReplyFlag f s)"
| "handle E (EvSetDestinationOnly f) s = Some (SetDestinationOnlyFlag f s)"
| "handle E (EvSetHello f) s = Some (SetHelloEnable f s)"
| "handle E (EvSetBroadcast f) s = Some (SetBroadcastEnable f s)"
| "handle E (EvSetMaxQueueLen n) s = Some (SetMaxQueueLen n s)"
| "handle E (EvSetMaxQueueTime t) s = Some (SetMaxQueueTime t s)"

text \<open>The acknowledgement timer of an entry is part of the routing table.\<close>

fun enabled :: "event \<Rightarrow> rp \<Rightarrow> bool" where
  "enabled EvStart s = due SchedStart (log s)"
| "enabled (EvSendRequest d dst) s = due (SchedRequest d dst) (log s)"
| "enabled (EvSendTo d k p a) s = due (SchedSend d k p a) (log s)"
| "enabled (EvRreqTimer dst) s =
     (case map_of (m_addressReqTimer s) dst of None \<Rightarrow> False | Some tm \<Rightarrow> tm_started tm)"
| "enabled EvHelloTimer s = tm_started (m_htimer s)"
| "enabled EvRreqLimitTimer s = tm_started (m_rreqRateLimitTimer s)"
| "enabled EvRerrLimitTimer s = tm_started (m_rerrRateLimitTimer s)"
| "enabled EvNeighborTimer s = tm_started (m_ntimer (rp_nb s))"
| "enabled (EvAckTimer a t) s =
     (\<exists>e\<in>set (m_ipv4AddressEntry (m_routingTable s)). tm_started (m_ackTimer (snd e)))"
| "enabled _ s = True"

text \<open>What the simulator does before it calls the handler: a scheduled call is taken off the list, a
  timer's time has come. The neighbour list's timer is stopped in \<open>nb_purge\<close>, and the acknowledgement
  timers are never started.\<close>

fun expire :: "event \<Rightarrow> rp \<Rightarrow> rp" where
  "expire EvStart s = emit (Ran SchedStart) s"
| "expire (EvSendRequest d dst) s = emit (Ran (SchedRequest d dst)) s"
| "expire (EvSendTo d k p a) s = emit (Ran (SchedSend d k p a)) s"
| "expire (EvRreqTimer dst) s =
     (case map_of (m_addressReqTimer s) dst of
        None \<Rightarrow> s
      | Some tm \<Rightarrow> s\<lparr>m_addressReqTimer := smap_put dst (tm @ [TmExpire]) (m_addressReqTimer s)\<rparr>)"
| "expire EvHelloTimer s = s\<lparr>m_htimer := m_htimer s @ [TmExpire]\<rparr>"
| "expire EvRreqLimitTimer s = s\<lparr>m_rreqRateLimitTimer := m_rreqRateLimitTimer s @ [TmExpire]\<rparr>"
| "expire EvRerrLimitTimer s = s\<lparr>m_rerrRateLimitTimer := m_rerrRateLimitTimer s @ [TmExpire]\<rparr>"
| "expire _ s = s"

inductive agent_step :: "ns3 \<Rightarrow> event \<Rightarrow> rp \<Rightarrow> rp \<Rightarrow> bool" where
  agent_step: "enabled ev s \<Longrightarrow> handle E ev (expire ev s) = Some s' \<Longrightarrow> agent_step E ev s s'"

inductive_cases agent_stepE: "agent_step E ev s s'"

inductive_simps agent_step_iff: "agent_step E ev s s'"

text \<open>An object made by the factory: constructed, then given its attributes \<open>p\<close>.\<close>

definition configured :: "bool \<Rightarrow> params \<Rightarrow> rp" where
  "configured b p =
     SetMaxQueueTime (m_maxQueueTime p)
       (SetMaxQueueLen (m_maxQueueLen p) ((attribute_defaults (RoutingProtocol_new b))\<lparr>par := p\<rparr>))"

inductive reachable :: "codec \<Rightarrow> bool \<Rightarrow> params \<Rightarrow> time \<Rightarrow> rp \<Rightarrow> bool" for C b p where
  reachable_init: "reachable C b p 0 (configured b p)"
| reachable_step: "reachable C b p t s \<Longrightarrow> t \<le> now E \<Longrightarrow> wire E = C \<Longrightarrow> agent_step E ev s s' \<Longrightarrow>
    reachable C b p (now E) s'"

end
