(* ===== verification/Wire_Messages.thy ===== *)
theory Wire_Messages
  imports Protocol_Recv
begin

text \<open>
  The messages of the protocol as they stand on the wire: the type octet followed by a header of that
  type. What the agent hands to a socket, or schedules to be handed, is to be one of them; an error
  message names fewer than 256 destinations, each once.
\<close>

definition rerr_good :: "RerrHeader \<Rightarrow> bool" where
  "rerr_good h \<longleftrightarrow> smap_inv (re_unreachable h) \<and> length (re_unreachable h) < 256"

inductive message :: "codec \<Rightarrow> u8 list \<Rightarrow> bool" for C where
  message_rreq: "message C (TypeHeader_Serialize (TypeHeader_new MADAODVTYPE_RREQ) @ RreqHeader_Serialize C h)"
| message_rrep: "message C (TypeHeader_Serialize (TypeHeader_new MADAODVTYPE_RREP) @ RrepHeader_Serialize C g)"
| message_ack: "message C (TypeHeader_Serialize (TypeHeader_new MADAODVTYPE_RREP_ACK) @ RrepAckHeader_Serialize a)"
| message_rerr: "rerr_good e \<Longrightarrow>
    message C (TypeHeader_Serialize (TypeHeader_new MADAODVTYPE_RERR) @ RerrHeader_Serialize C e)"

definition error_message :: "codec \<Rightarrow> u8 list \<Rightarrow> bool" where
  "error_message C bs \<longleftrightarrow>
     (\<exists>e. rerr_good e \<and>
        bs = TypeHeader_Serialize (TypeHeader_new MADAODVTYPE_RERR) @ RerrHeader_Serialize C e)"

text \<open>The effects a handler may have. That a scheduled call is run is the simulator's.\<close>

fun sendable :: "codec \<Rightarrow> effect \<Rightarrow> bool" where
  "sendable C (SockSend k p a) = message C (ct_bytes p)"
| "sendable C (SchedSend d k p a) = message C (ct_bytes p)"
| "sendable C (SchedRequest d dst) = False"
| "sendable C (Ran e) = False"
| "sendable C _ = True"

text \<open>The effects of the error path.\<close>

fun error_report :: "codec \<Rightarrow> effect \<Rightarrow> bool" where
  "error_report C (SockSend k p a) = error_message C (ct_bytes p)"
| "error_report C (SchedSend d k p a) = error_message C (ct_bytes p)"
| "error_report C _ = False"

lemma error_message_message: "error_message C bs \<Longrightarrow> message C bs"
  by (auto simp: error_message_def message_rerr)

lemma error_report_sendable: "error_report C x \<Longrightarrow> sendable C x"
  by (cases x) (simp_all add: error_message_message)

lemma message_control [simp]:
  "message C (ct_bytes (control_packet t MADAODVTYPE_RREQ (RreqHeader_Serialize C h)))"
  "message C (ct_bytes (control_packet t MADAODVTYPE_RREP (RrepHeader_Serialize C g)))"
  "message C (ct_bytes (control_packet t MADAODVTYPE_RREP_ACK (RrepAckHeader_Serialize a)))"
  "message (wire E) (ct_bytes (rrep_packet E t' g))"
  by (simp_all add: control_packet_def rrep_packet_def message_rreq message_rrep message_ack)

lemma error_message_packet [simp]: "rerr_good h \<Longrightarrow> error_message (wire E) (ct_bytes (rerr_packet E h))"
  by (auto simp: rerr_packet_def control_packet_def error_message_def)

lemma sendable_release [simp]: "sendable C (release route e)" "sendable C (RequestQueue_Drop e)"
  by (simp_all add: release_def RequestQueue_Drop_def)

lemma sendable_queue_drops:
  "RequestQueue_Enqueue t e q = Some (b, q', ds) \<Longrightarrow> \<forall>x\<in>set ds. sendable C x"
  "RequestQueue_Dequeue t dst q = (r, q', ds) \<Longrightarrow> \<forall>x\<in>set ds. sendable C x"
  "RequestQueue_DropPacketWithDst t dst q = (q', ds) \<Longrightarrow> \<forall>x\<in>set ds. sendable C x"
  by (auto simp: queue_ops Let_def split: if_splits list.splits option.splits prod.splits)

subsection \<open>Error messages stay small\<close>

lemma rerr_good_new [simp]: "rerr_good RerrHeader_new"
  by (simp add: rerr_good_def RerrHeader_new_def)

lemma rerr_good_empty: "re_unreachable h = [] \<Longrightarrow> rerr_good h"
  by (simp add: rerr_good_def)

lemma rerr_good_add:
  assumes "rerr_good h" and "RerrHeader_AddUnDestination a q h = Some (b, h')"
  shows "rerr_good h'"
proof (cases "map_of (re_unreachable h) a")
  case None
  with assms have h': "h' = h\<lparr>re_unreachable := smap_insert a q (re_unreachable h)\<rparr>"
    and less: "RerrHeader_GetDestCount h < 255"
    by (auto simp: RerrHeader_AddUnDestination_def split: if_splits)
  have "length (re_unreachable h) < 255"
    using less assms(1)
    by (simp add: RerrHeader_GetDestCount_def rerr_good_def word_less_nat_alt unat_of_nat)
  with assms(1) None show ?thesis
    by (simp add: rerr_good_def h' smap_insert_def length_smap_put map_of_eq_None_iff)
next
  case (Some x)
  with assms show ?thesis by (auto simp: RerrHeader_AddUnDestination_def)
qed

lemma rerr_good_added:
  "rerr_good h \<Longrightarrow> pred_option (\<lambda>x. rerr_good (snd x)) (RerrHeader_AddUnDestination a q h)"
  by (auto intro!: presI dest: rerr_good_add)

text \<open>The receiver of an error message has taken all destinations out of the header.\<close>

lemma rerr_good_collected: "rerr_good (snd (collect_unreachable ds h m))"
proof (rule rerr_good_empty)
  show "re_unreachable (snd (collect_unreachable ds h m)) = []"
  proof (induction ds h m rule: collect_unreachable.induct)
    case (1 ds h m)
    then show ?case
      by (subst collect_unreachable.simps)
        (auto simp: RerrHeader_RemoveUnDestination_def split: list.splits prod.splits option.splits)
  qed
qed

end
