(* ===== verification/Routing_Table_Props.thy ===== *)
theory Routing_Table_Props
  imports Routing_Table
begin

text \<open>
  The routing table: what each operation does to the binding of each address, and the invariants of
  its entries. \<open>entry_invariant\<close> is the interface between a property of entries and the table: if
  invalidating a valid entry keeps it, every operation of the table keeps it.
\<close>

subsection \<open>Purging, entry by entry\<close>

definition purge_entry :: "time \<Rightarrow> time \<Rightarrow> rte \<Rightarrow> rte option" where
  "purge_entry t bad e =
     (if GetLifeTime t e < 0
      then (case m_flag e of INVALID \<Rightarrow> None | VALID \<Rightarrow> Some (Invalidate t bad e) | IN_SEARCH \<Rightarrow> Some e)
      else Some e)"

lemma keys_purge_entries: "fst ` set (purge_entries t bad m) \<subseteq> fst ` set m"
  by (induction t bad m rule: purge_entries.induct) auto

lemma smap_inv_purge [simp]: "smap_inv m \<Longrightarrow> smap_inv (purge_entries t bad m)"
  unfolding smap_inv_sorted
proof (induction t bad m rule: purge_entries.induct)
  case (1 t bad)
  then show ?case by simp
next
  case (2 t bad k e i)
  from 2(5) have i: "\<forall>x\<in>fst ` set i. k < x" "sorted_wrt (<) (map fst i)" by auto
  then have k: "\<forall>x\<in>fst ` set (purge_entries t bad i). k < x"
    using keys_purge_entries [of t bad i] by blast
  have "sorted_wrt (<) (map fst (purge_entries t bad i))"
    using 2(1-4) i(2) by argo
  with k show ?case by auto
qed

lemma map_of_purge_entries:
  "smap_inv m \<Longrightarrow>
   map_of (purge_entries t bad m) k = (case map_of m k of None \<Rightarrow> None | Some e \<Rightarrow> purge_entry t bad e)"
proof (induction t bad m rule: purge_entries.induct)
  case (1 t bad)
  then show ?case by simp
next
  case (2 t bad k' e i)
  then have i: "smap_inv i" and "map_of i k' = None"
    using smap_inv_distinct [of "(k', e) # i"] by (auto intro: smap_inv_tl simp: map_of_eq_None_iff)
  moreover from this have "map_of (purge_entries t bad i) k' = None"
    using keys_purge_entries [of t bad i] by (auto simp: map_of_eq_None_iff)
  ultimately show ?case
    using 2 by (auto simp: purge_entry_def split: RouteFlags.splits)
qed

lemma Purge_bad [simp]: "m_badLinkLifetime (RoutingTable_Purge t T) = m_badLinkLifetime T"
  by (simp add: RoutingTable_Purge_def)

lemma route_of_Purge:
  "smap_inv (m_ipv4AddressEntry T) \<Longrightarrow>
   route_of (RoutingTable_Purge t T) k =
     (case route_of T k of None \<Rightarrow> None | Some e \<Rightarrow> purge_entry t (m_badLinkLifetime T) e)"
  by (simp add: RoutingTable_Purge_def map_of_purge_entries)

text \<open>A second purge at the same time finds nothing to do.\<close>

lemma purge_entry_again:
  "0 \<le> bad \<Longrightarrow> purge_entry t bad e = Some e' \<Longrightarrow> purge_entry t bad e' = Some e'"
  by (auto simp: purge_entry_def Invalidate_def GetLifeTime_def split: if_splits RouteFlags.splits)

lemma RoutingTable_Purge_idem:
  assumes "smap_inv (m_ipv4AddressEntry T)" and "0 \<le> m_badLinkLifetime T"
  shows "RoutingTable_Purge t (RoutingTable_Purge t T) = RoutingTable_Purge t T"
proof -
  let ?m = "m_ipv4AddressEntry T" and ?p = "purge_entries t (m_badLinkLifetime T)"
  have "?p (?p ?m) = ?p ?m"
  proof (rule smap_ext)
    fix k
    show "map_of (?p (?p ?m)) k = map_of (?p ?m) k"
      using assms by (auto simp: map_of_purge_entries purge_entry_again split: option.splits)
  qed (use assms in simp_all)
  then show ?thesis by (simp add: RoutingTable_Purge_def)
qed

lemma purge_entry_Some_VALID:
  "purge_entry t bad e = Some e' \<Longrightarrow> m_flag e' = VALID \<Longrightarrow> e' = e \<and> t \<le> m_lifeTime e"
  by (auto simp: purge_entry_def Invalidate_def GetLifeTime_def split: if_splits RouteFlags.splits)

text \<open>Purging moves an entry up the order of the flags only.\<close>

lemma purge_entry_flag_mono: "purge_entry t bad e = Some e' \<Longrightarrow> m_flag e \<le> m_flag e'"
  by (auto simp: purge_entry_def Invalidate_def less_eq_RouteFlags_def
      split: if_splits RouteFlags.splits)

subsection \<open>Invariants of the entries\<close>

definition entries_all :: "(ipv4 \<Rightarrow> rte \<Rightarrow> bool) \<Rightarrow> rtable \<Rightarrow> bool" where
  "entries_all P T \<longleftrightarrow>
     smap_inv (m_ipv4AddressEntry T) \<and> (\<forall>k e. route_of T k = Some e \<longrightarrow> P k e)"

text \<open>What \<open>AddRoute\<close> and \<open>Update\<close> store: the request counter is kept for searches only.\<close>

definition settled :: "rte \<Rightarrow> rte" where
  "settled rt = (if m_flag rt \<noteq> IN_SEARCH then rt\<lparr>m_reqCount := 0\<rparr> else rt)"

lemma settled_route [simp]: "m_ipv4Route (settled rt) = m_ipv4Route rt"
  by (simp add: settled_def)

lemma Invalidate_route [simp]: "m_ipv4Route (Invalidate t b e) = m_ipv4Route e"
  by (simp add: Invalidate_def)

lemma invalidate_if_listed_eq:
  "invalidate_if_listed t bad k js e =
     (if m_flag e = VALID \<and> map_of js k \<noteq> None then Invalidate t bad e else e)"
  by (induction t bad k js e rule: invalidate_if_listed.induct) (auto simp: Invalidate_def)

locale entry_invariant =
  fixes P :: "ipv4 \<Rightarrow> rte \<Rightarrow> bool"
  assumes P_Invalidate: "P k e \<Longrightarrow> m_flag e = VALID \<Longrightarrow> P k (Invalidate t bad e)"
begin

lemma P_purge_entry: "P k e \<Longrightarrow> purge_entry t bad e = Some e' \<Longrightarrow> P k e'"
  by (auto simp: purge_entry_def P_Invalidate split: if_splits RouteFlags.splits)

lemma inv_Purge: "entries_all P T \<Longrightarrow> entries_all P (RoutingTable_Purge t T)"
  unfolding entries_all_def
  by (auto simp: route_of_Purge RoutingTable_Purge_def map_of_purge_entries
      split: option.splits intro: P_purge_entry)

lemma inv_LookupRoute:
  "entries_all P T \<Longrightarrow> RoutingTable_LookupRoute t i T = (r, T') \<Longrightarrow>
   entries_all P T' \<and> (\<forall>e. r = Some e \<longrightarrow> P i e)"
  using inv_Purge [of T t] by (auto simp: RoutingTable_LookupRoute_def entries_all_def Let_def)

lemma inv_LookupValidRoute:
  "entries_all P T \<Longrightarrow> RoutingTable_LookupValidRoute t i T = (b, r, T') \<Longrightarrow>
   entries_all P T' \<and> (\<forall>e. r = Some e \<longrightarrow> P i e) \<and>
   (b \<longleftrightarrow> (\<exists>e. r = Some e \<and> m_flag e = VALID))"
  by (auto simp: RoutingTable_LookupValidRoute_def split: prod.splits option.splits
      dest: inv_LookupRoute)

lemma inv_put:
  "entries_all P T \<Longrightarrow> P k e \<Longrightarrow>
   entries_all P (T\<lparr>m_ipv4AddressEntry := smap_put k e (m_ipv4AddressEntry T)\<rparr>)"
  by (auto simp: entries_all_def map_of_put)

lemma inv_AddRoute:
  "entries_all P T \<Longrightarrow> P (GetDestination rt) (settled rt) \<Longrightarrow>
   entries_all P (snd (RoutingTable_AddRoute t rt T))"
  using inv_Purge [of T t]
  by (auto simp: RoutingTable_AddRoute_def settled_def Let_def smap_insert_def inv_put)

lemma inv_Update:
  "entries_all P T \<Longrightarrow> P (GetDestination rt) (settled rt) \<Longrightarrow>
   entries_all P (snd (RoutingTable_Update rt T))"
  by (auto simp: RoutingTable_Update_def settled_def inv_put)

lemma inv_Update_known:
  "entries_all P T \<Longrightarrow> (\<And>e. route_of T (GetDestination rt) = Some e \<Longrightarrow> P (GetDestination rt) e \<Longrightarrow>
     P (GetDestination rt) (settled rt)) \<Longrightarrow> entries_all P (snd (RoutingTable_Update rt T))"
  by (auto simp: RoutingTable_Update_def settled_def inv_put entries_all_def map_of_put)

lemma inv_SetEntryState:
  "entries_all P T \<Longrightarrow> (\<And>e. P i e \<Longrightarrow> P i (e\<lparr>m_flag := state, m_reqCount := 0\<rparr>)) \<Longrightarrow>
   entries_all P (snd (RoutingTable_SetEntryState i state T))"
  by (auto simp: RoutingTable_SetEntryState_def inv_put entries_all_def split: option.splits)
    (auto simp: map_of_put split: if_splits)

lemma inv_DeleteRoute:
  "entries_all P T \<Longrightarrow> entries_all P (snd (RoutingTable_DeleteRoute t i T))"
  using inv_Purge [of T t]
  by (auto simp: RoutingTable_DeleteRoute_def entries_all_def Let_def map_of_erase)

lemma inv_GetList:
  "entries_all P T \<Longrightarrow>
   entries_all P (snd (RoutingTable_GetListOfDestinationWithNextHop t nh T))"
  using inv_Purge [of T t] by (simp add: RoutingTable_GetListOfDestinationWithNextHop_def Let_def)

lemma inv_InvalidateRoutesWithDst:
  "entries_all P T \<Longrightarrow> entries_all P (RoutingTable_InvalidateRoutesWithDst t un T)"
  using inv_Purge [of T t]
  by (auto simp: RoutingTable_InvalidateRoutesWithDst_def entries_all_def Let_def map_of_map_val
      invalidate_if_listed_eq P_Invalidate)

lemma inv_DeleteAllRoutesFromInterface:
  "entries_all P T \<Longrightarrow> entries_all P (RoutingTable_DeleteAllRoutesFromInterface i T)"
  by (auto simp: RoutingTable_DeleteAllRoutesFromInterface_def entries_all_def map_of_filter_val
      smap_inv_distinct split: option.splits if_splits)

lemma inv_Clear: "entries_all P (RoutingTable_Clear T)"
  by (simp add: entries_all_def RoutingTable_Clear_def)

lemma inv_MarkLink:
  "entries_all P T \<Longrightarrow>
   (\<And>e. P i e \<Longrightarrow> P i (e\<lparr>m_blackListState := True, m_blackListTimeout := bt, m_reqCount := 0\<rparr>)) \<Longrightarrow>
   entries_all P (snd (RoutingTable_MarkLinkAsUnidirectional i bt T))"
  by (auto simp: RoutingTable_MarkLinkAsUnidirectional_def inv_put entries_all_def split: option.splits)
    (auto simp: map_of_put split: if_splits)

lemma inv_new: "entries_all P (RoutingTable_new t)"
  by (simp add: entries_all_def RoutingTable_new_def)

end

text \<open>The entry at an address leads there, lists no precursor twice, and counts requests only while
  the route is searched for.\<close>

definition rte_ok :: "ipv4 \<Rightarrow> rte \<Rightarrow> bool" where
  "rte_ok k e \<longleftrightarrow>
     GetDestination e = k \<and> distinct (m_precursorList e) \<and> (m_flag e \<noteq> IN_SEARCH \<longrightarrow> m_reqCount e = 0)"

interpretation ok: entry_invariant rte_ok
  by unfold_locales (auto simp: rte_ok_def Invalidate_def)

text \<open>No link is marked as unidirectional.\<close>

definition not_blacklisted :: "ipv4 \<Rightarrow> rte \<Rightarrow> bool" where
  "not_blacklisted k e \<longleftrightarrow> \<not> m_blackListState e"

interpretation bl: entry_invariant not_blacklisted
  by unfold_locales (auto simp: not_blacklisted_def Invalidate_def)

subsection \<open>The other operations, binding by binding\<close>

lemma route_of_AddRoute:
  "route_of (snd (RoutingTable_AddRoute t rt T)) k =
     (if k = GetDestination rt \<and> route_of (RoutingTable_Purge t T) k = None then Some (settled rt)
      else route_of (RoutingTable_Purge t T) k)"
  by (auto simp: RoutingTable_AddRoute_def settled_def Let_def map_of_insert split: option.splits)

lemma route_of_Update:
  "route_of (snd (RoutingTable_Update rt T)) k =
     (if k = GetDestination rt \<and> route_of T k \<noteq> None then Some (settled rt) else route_of T k)"
  by (auto simp: RoutingTable_Update_def settled_def)

lemma route_of_DeleteRoute:
  "route_of (snd (RoutingTable_DeleteRoute t i T)) k =
     (if k = i then None else route_of (RoutingTable_Purge t T) k)"
  by (simp add: RoutingTable_DeleteRoute_def Let_def map_of_erase)

lemma route_of_InvalidateRoutesWithDst:
  "route_of (RoutingTable_InvalidateRoutesWithDst t un T) k =
     map_option (\<lambda>e. if m_flag e = VALID \<and> map_of un k \<noteq> None
                      then Invalidate t (m_badLinkLifetime T) e else e)
       (route_of (RoutingTable_Purge t T) k)"
  by (simp add: RoutingTable_InvalidateRoutesWithDst_def Let_def map_of_map_val
      invalidate_if_listed_eq cong: if_cong)

lemma map_of_filter_map_val:
  "distinct (map fst m) \<Longrightarrow>
   map_of (map (\<lambda>(k, v). (k, f v)) (filter (\<lambda>(k, v). Q v) m)) k =
     (case map_of m k of None \<Rightarrow> None | Some v \<Rightarrow> if Q v then Some (f v) else None)"
  by (induction m) (auto simp: map_of_eq_None_iff image_iff split: option.splits)

lemma GetListOfDestinationWithNextHop_eq:
  assumes "smap_inv (m_ipv4AddressEntry T)"
  shows "map_of (fst (RoutingTable_GetListOfDestinationWithNextHop t nh T)) k =
     (case route_of (RoutingTable_Purge t T) k of
        None \<Rightarrow> None
      | Some e \<Rightarrow> if GetNextHop e = nh then Some (m_seqNo e) else None)"
proof -
  have "distinct (map fst (m_ipv4AddressEntry (RoutingTable_Purge t T)))"
    using assms by (simp add: RoutingTable_Purge_def smap_inv_distinct)
  then show ?thesis
    by (simp add: RoutingTable_GetListOfDestinationWithNextHop_def Let_def map_of_filter_map_val)
qed

lemma smap_inv_GetList [simp]:
  "smap_inv (fst (RoutingTable_GetListOfDestinationWithNextHop t nh T))"
  by (simp add: RoutingTable_GetListOfDestinationWithNextHop_def Let_def)

lemma Update_bad [simp]: "m_badLinkLifetime (snd (RoutingTable_Update rt T)) = m_badLinkLifetime T"
  by (simp add: RoutingTable_Update_def)

lemma AddRoute_bad [simp]: "m_badLinkLifetime (snd (RoutingTable_AddRoute t rt T)) = m_badLinkLifetime T"
  by (simp add: RoutingTable_AddRoute_def Let_def)

lemma DeleteRoute_bad [simp]: "m_badLinkLifetime (snd (RoutingTable_DeleteRoute t i T)) = m_badLinkLifetime T"
  by (simp add: RoutingTable_DeleteRoute_def Let_def)

lemma GetList_bad [simp]:
  "m_badLinkLifetime (snd (RoutingTable_GetListOfDestinationWithNextHop t nh T)) = m_badLinkLifetime T"
  by (simp add: RoutingTable_GetListOfDestinationWithNextHop_def Let_def)

lemma InvalidateRoutesWithDst_bad [simp]:
  "m_badLinkLifetime (RoutingTable_InvalidateRoutesWithDst t un T) = m_badLinkLifetime T"
  by (simp add: RoutingTable_InvalidateRoutesWithDst_def Let_def)

lemma DeleteAllRoutes_bad [simp]:
  "m_badLinkLifetime (RoutingTable_DeleteAllRoutesFromInterface i T) = m_badLinkLifetime T"
  by (simp add: RoutingTable_DeleteAllRoutesFromInterface_def)

lemma Clear_bad [simp]: "m_badLinkLifetime (RoutingTable_Clear T) = m_badLinkLifetime T"
  by (simp add: RoutingTable_Clear_def)

subsection \<open>Properties\<close>

text \<open>C27: what a purge at time \<open>t\<close> does to every entry: one whose lifetime has not passed stays; an
  expired valid route becomes invalid for the bad link lifetime, an expired invalid one is removed, a
  search stays. Purging again at once changes nothing.\<close>

theorem table_purge_exact:
  assumes "smap_inv (m_ipv4AddressEntry T)"
  shows "(\<forall>k. route_of (RoutingTable_Purge t T) k =
            (case route_of T k of
               None \<Rightarrow> None
             | Some e \<Rightarrow>
                 if t \<le> m_lifeTime e then Some e
                 else (case m_flag e of
                         VALID \<Rightarrow> Some (e\<lparr>m_flag := INVALID, m_reqCount := 0,
                                           m_lifeTime := t + m_badLinkLifetime T\<rparr>)
                       | INVALID \<Rightarrow> None
                       | IN_SEARCH \<Rightarrow> Some e)))
       \<and> (0 \<le> m_badLinkLifetime T \<longrightarrow>
            RoutingTable_Purge t (RoutingTable_Purge t T) = RoutingTable_Purge t T)"
  using assms RoutingTable_Purge_idem [OF assms, of t]
  by (auto simp: route_of_Purge purge_entry_def GetLifeTime_def Invalidate_def add.commute
      split: option.split RouteFlags.split)

definition example_rte :: "ipv4 \<Rightarrow> ipv4 \<Rightarrow> time \<Rightarrow> rte" where
  "example_rte dst nh lt =
     RoutingTableEntry_new 0 (Some 1) dst True 7 example_iface 2 nh lt"

definition example_table :: rtable where
  "example_table = \<lparr>m_ipv4AddressEntry = [(3, example_rte 3 5 10), (4, example_rte 4 6 90)],
     m_badLinkLifetime = 15\<rparr>"

lemma example_table_simps [simp]:
  "smap_inv (m_ipv4AddressEntry example_table)" "m_badLinkLifetime example_table = 15"
  "route_of example_table k = (if k = 3 then Some (example_rte 3 5 10)
     else if k = 4 then Some (example_rte 4 6 90) else None)"
  by (simp_all add: example_table_def)

theorem table_purge_exact_witness:
  "map_option m_flag (route_of (RoutingTable_Purge 20 example_table) 3) = Some INVALID
   \<and> RoutingTable_Purge 20 (RoutingTable_Purge 20 example_table) = RoutingTable_Purge 20 example_table"
  using table_purge_exact [of example_table 20]
  by (simp add: example_rte_def RoutingTableEntry_new_def)

text \<open>The life of a route nobody uses. A valid route is found as such up to the end of its lifetime;
  looked up after that it is invalid for the bad link lifetime from then on, and after that it is
  gone.\<close>

lemma table_route_lifecycle:
  assumes "smap_inv (m_ipv4AddressEntry T)" and "route_of T k = Some e" and "m_flag e = VALID"
    and "m_lifeTime e < t1" and "t1 + m_badLinkLifetime T < t2"
  shows "(t \<le> m_lifeTime e \<longrightarrow> fst (RoutingTable_LookupValidRoute t k T)
            \<and> fst (snd (RoutingTable_LookupValidRoute t k T)) = Some e)
       \<and> map_option m_flag (fst (RoutingTable_LookupRoute t1 k T)) = Some INVALID
       \<and> fst (RoutingTable_LookupRoute t2 k (snd (RoutingTable_LookupRoute t1 k T))) = None"
proof -
  have "smap_inv (m_ipv4AddressEntry (RoutingTable_Purge t1 T))"
    using assms(1) by (simp add: RoutingTable_Purge_def)
  with assms show ?thesis
    by (auto simp: RoutingTable_LookupRoute_def RoutingTable_LookupValidRoute_def Let_def route_of_Purge
        purge_entry_def GetLifeTime_def Invalidate_def)
qed

text \<open>\<open>AddRoute\<close> never replaces an entry and \<open>Update\<close> never creates one; their results say whether
  they stored the entry, and no other destination is affected (but by the purge before adding).\<close>

lemma table_add_update:
  "(let (b, T') = RoutingTable_AddRoute t rt T; P = RoutingTable_Purge t T; d = GetDestination rt in
     (b \<longleftrightarrow> route_of P d = None)
     \<and> route_of T' = (if b then (route_of P)(d := Some (settled rt)) else route_of P))
   \<and> (let (b, T') = RoutingTable_Update rt T; d = GetDestination rt in
     (b \<longleftrightarrow> route_of T d \<noteq> None)
     \<and> route_of T' = (if b then (route_of T)(d := Some (settled rt)) else route_of T))"
proof -
  have add: "route_of (snd (RoutingTable_AddRoute t rt T)) =
      (if route_of (RoutingTable_Purge t T) (GetDestination rt) = None
       then (route_of (RoutingTable_Purge t T))(GetDestination rt := Some (settled rt))
       else route_of (RoutingTable_Purge t T))"
    by (rule ext) (simp add: route_of_AddRoute)
  have upd: "route_of (snd (RoutingTable_Update rt T)) =
      (if route_of T (GetDestination rt) \<noteq> None
       then (route_of T)(GetDestination rt := Some (settled rt)) else route_of T)"
    by (rule ext) (simp add: route_of_Update)
  have "fst (RoutingTable_AddRoute t rt T) \<longleftrightarrow> route_of (RoutingTable_Purge t T) (GetDestination rt) = None"
    "fst (RoutingTable_Update rt T) \<longleftrightarrow> route_of T (GetDestination rt) \<noteq> None"
    by (simp_all add: RoutingTable_AddRoute_def RoutingTable_Update_def Let_def)
  with add upd show ?thesis by (simp only: Let_def split_beta)
qed

text \<open>A broken link. When the destinations behind a next hop are collected and then invalidated, no
  valid route over that next hop is left, and every route over another one is as it was; the
  sequence numbers do not change.\<close>

lemma table_link_break:
  assumes "smap_inv (m_ipv4AddressEntry T)" and "0 \<le> m_badLinkLifetime T"
    and "RoutingTable_GetListOfDestinationWithNextHop t nh T = (un, T1)"
  shows "\<forall>k. case route_of (RoutingTable_Purge t T) k of
      None \<Rightarrow> route_of (RoutingTable_InvalidateRoutesWithDst t un T1) k = None
    | Some e \<Rightarrow>
        (case route_of (RoutingTable_InvalidateRoutesWithDst t un T1) k of
           None \<Rightarrow> False
         | Some e' \<Rightarrow>
             m_seqNo e' = m_seqNo e
             \<and> (if GetNextHop e = nh then m_flag e' = (if m_flag e = VALID then INVALID else m_flag e)
                else e' = e))"
proof -
  have T1: "T1 = RoutingTable_Purge t T" and un: "un = fst (RoutingTable_GetListOfDestinationWithNextHop t nh T)"
    using assms(3) by (auto simp: RoutingTable_GetListOfDestinationWithNextHop_def Let_def)
  have "RoutingTable_Purge t T1 = T1"
    using RoutingTable_Purge_idem [OF assms(1,2)] by (simp add: T1)
  then have eq: "route_of (RoutingTable_InvalidateRoutesWithDst t un T1) k =
      map_option (\<lambda>e. if m_flag e = VALID \<and> GetNextHop e = nh
                       then Invalidate t (m_badLinkLifetime T) e else e)
        (route_of (RoutingTable_Purge t T) k)" for k
    using GetListOfDestinationWithNextHop_eq [OF assms(1), of t nh k]
    by (cases "route_of (RoutingTable_Purge t T) k")
      (auto simp: route_of_InvalidateRoutesWithDst un T1)
  show ?thesis
    unfolding eq by (auto simp: Invalidate_def split: option.split)
qed

text \<open>Closing an interface removes exactly the routes that use it.\<close>

lemma table_delete_interface:
  assumes "smap_inv (m_ipv4AddressEntry T)"
  shows "route_of (RoutingTable_DeleteAllRoutesFromInterface i T) k =
     (case route_of T k of None \<Rightarrow> None | Some e \<Rightarrow> if m_iface e = i then None else Some e)"
  using assms
  by (auto simp: RoutingTable_DeleteAllRoutesFromInterface_def map_of_filter_val smap_inv_distinct
      split: option.split)

text \<open>The precursors of an entry are a set: inserting adds one that is not there and reports whether
  it did, deleting removes it and reports whether it was there, and none is ever listed twice.\<close>

lemma precursors_are_a_set:
  assumes "distinct (m_precursorList e)"
  shows "(let (b, e') = InsertPrecursor i e in
            (b \<longleftrightarrow> i \<notin> set (m_precursorList e)) \<and> distinct (m_precursorList e')
            \<and> set (m_precursorList e') = insert i (set (m_precursorList e)))
       \<and> (let (b, e') = DeletePrecursor i e in
            (b \<longleftrightarrow> i \<in> set (m_precursorList e)) \<and> distinct (m_precursorList e')
            \<and> set (m_precursorList e') = set (m_precursorList e) - {i})
       \<and> set (GetPrecursors e acc) = set (m_precursorList e) \<union> set acc"
proof -
  have "length (filter (\<lambda>p. p \<noteq> i) l) = length l \<longleftrightarrow> i \<notin> set l" for l :: "ipv4 list"
    by (metis (mono_tags, lifting) filter_True length_filter_less less_irrefl)
  with assms show ?thesis
    by (auto simp: InsertPrecursor_def DeletePrecursor_def LookupPrecursor_def GetPrecursors_def
        IsPrecursorListEmpty_def Let_def)
qed

end
