(* ===== verification/Protocol_Frame.thy ===== *)
theory Protocol_Frame
  imports Protocol_Events Wire_Messages Routing_Table_Props
begin

text \<open>
  What the handlers keep. The interfaces say which elementary changes a predicate on the state must
  survive: \<open>lookup_client\<close> those of a handler that only looks routes up and sends, \<open>table_client\<close>
  those of the error path, \<open>link_client\<close> those of the neighbour list, \<open>route_client\<close> those of the
  handlers that start and end no search, \<open>agent_client\<close> those of all message and data handlers, \<open>search_client\<close> those of the searches,
  \<open>config_client\<close> those of the configuration, \<open>node_client\<close> and \<open>full_client\<close> all of them. In the
  locales every handler is shown to keep any such predicate; the invariants and the frame conditions
  of the agent are their interpretations. \<open>Q\<close> is what the predicate guarantees of the entries of the
  routing table and asks of those that are written to it. The handlers that may start or end a search
  do so last; \<open>J\<close> is what holds after them, which may be less than \<open>I\<close>.
\<close>

subsection \<open>Entries\<close>

text \<open>What a handler writes to the table from outside: the interface of an entry, its sequence number, its
  key, and an address that packets are sent to, which is a next hop or a precursor. \<open>K\<close> says which of
  these a predicate allows.\<close>

datatype written = Over iface | Seq u32 | Key ipv4 | Hop ipv4

text \<open>The handlers edit copies of entries, all but a few members of which are free. Only
  \<open>SendRequest\<close> sets the flag \<open>IN_SEARCH\<close>. An edit leaves the sequence number alone or sets one of those
  in \<open>K\<close>, and it leaves the interface, the next hop, the flag and the validity of the sequence number
  alone or sets an interface and a next hop of those in \<open>K\<close>.\<close>

definition same_links :: "rte \<Rightarrow> rte \<Rightarrow> bool" where
  "same_links e e' \<longleftrightarrow>
     GetDestination e' = GetDestination e \<and> m_precursorList e' = m_precursorList e \<and>
     m_blackListState e' = m_blackListState e \<and> m_ackTimer e' = m_ackTimer e"

definition same_core :: "(written \<Rightarrow> bool) \<Rightarrow> rte \<Rightarrow> rte \<Rightarrow> bool" where
  "same_core K e e' \<longleftrightarrow> same_links e e' \<and> (m_flag e' = IN_SEARCH \<longrightarrow> m_flag e = IN_SEARCH) \<and>
     (m_seqNo e' = m_seqNo e \<or> K (Seq (m_seqNo e'))) \<and>
     (m_iface e' = m_iface e \<and> GetNextHop e' = GetNextHop e \<and> m_flag e' = m_flag e \<and>
        m_validSeqNo e' = m_validSeqNo e
      \<or> K (Over (m_iface e')) \<and> K (Hop (GetNextHop e')))"

lemmas same_core_simps = same_core_def same_links_def

lemmas entry_edits = SetLifeTime_def SetNextHop_def SetOutputDevice_def IncrementRreqCnt_def

lemma new_entry_key [simp]:
  "GetDestination (RoutingTableEntry_new t d a v n i h nh l) = a"
  "m_flag (RoutingTableEntry_new t d a v n i h nh l) = VALID"
  "m_iface (RoutingTableEntry_new t d a v n i h nh l) = i"
  "m_precursorList (RoutingTableEntry_new t d a v n i h nh l) = []"
  "m_seqNo (RoutingTableEntry_new t d a v n i h nh l) = n"
  "GetNextHop (RoutingTableEntry_new t d a v n i h nh l) = nh"
  "\<not> m_blackListState (RoutingTableEntry_new t d a v n i h nh l)"
  "m_ackTimer (RoutingTableEntry_new t d a v n i h nh l) = []"
  by (simp_all add: RoutingTableEntry_new_def)

lemma default_entry [simp]:
  "GetDestination (RoutingTableEntry_default E) = any_addr E"
  "GetNextHop (RoutingTableEntry_default E) = any_addr E" "m_seqNo (RoutingTableEntry_default E) = 0" "m_flag (RoutingTableEntry_default E) = VALID"
  "m_precursorList (RoutingTableEntry_default E) = []" "\<not> m_blackListState (RoutingTableEntry_default E)"
  "m_ackTimer (RoutingTableEntry_default E) = []"
  by (simp_all add: RoutingTableEntry_default_def)

lemma lookup_valid_eq:
  "lookup_valid E i s =
     (let (r, s) = lookup E i s in
      ((case r of None \<Rightarrow> False | Some e \<Rightarrow> m_flag e = VALID), r, s))"
  by (auto simp: lookup_valid_def lookup_def RoutingTable_LookupValidRoute_def
      split: prod.splits option.splits)

lemma inserted_precursor [simp]: "m_ipv4Route (snd (InsertPrecursor a e)) = m_ipv4Route e"
  by (simp add: InsertPrecursor_def)

text \<open>What a message may make a handler write.\<close>

definition request_ok :: "(written \<Rightarrow> bool) \<Rightarrow> RreqHeader \<Rightarrow> bool" where
  "request_ok K h \<longleftrightarrow> K (Seq (rq_originSeqNo h)) \<and> K (Key (rq_origin h)) \<and> K (Hop (rq_origin h)) \<and> K (Hop (rq_dst h))"

definition reply_ok :: "(written \<Rightarrow> bool) \<Rightarrow> RrepHeader \<Rightarrow> bool" where
  "reply_ok K h \<longleftrightarrow> K (Seq (rp_dstSeqNo h)) \<and> K (Key (rp_dst h)) \<and> K (Hop (rp_dst h)) \<and> K (Hop (rp_origin h))"

definition datagram_ok :: "(written \<Rightarrow> bool) \<Rightarrow> codec \<Rightarrow> u8 list \<Rightarrow> bool" where
  "datagram_ok K C bs \<longleftrightarrow> pred_option (\<lambda>(t, rest).
     (th_valid t \<longrightarrow> th_type t = MADAODVTYPE_RREQ \<longrightarrow> pred_option (\<lambda>x. request_ok K (fst x)) (RreqHeader_Deserialize C rest)) \<and>
     (th_valid t \<longrightarrow> th_type t = MADAODVTYPE_RREP \<longrightarrow> pred_option (\<lambda>x. reply_ok K (fst x)) (RrepHeader_Deserialize C rest)))
     (TypeHeader_Deserialize (TypeHeader_new MADAODVTYPE_RREQ) bs)"

locale entry_property =
  fixes Q :: "rte \<Rightarrow> bool" and K :: "written \<Rightarrow> bool" and A :: "rte \<Rightarrow> bool"
  assumes Q_edit: "Q e \<Longrightarrow> same_core K e e' \<Longrightarrow> Q e'"
    and Q_precursor: "Q e \<Longrightarrow> K (Hop a) \<Longrightarrow> Q (snd (InsertPrecursor a e))"
    and Q_ack: "Q e \<Longrightarrow> A e \<Longrightarrow> Q (e\<lparr>m_ackTimer := m_ackTimer e @ [TmCancel], m_flag := VALID\<rparr>)"
    and Q_new: "m_precursorList e = [] \<Longrightarrow> \<not> m_blackListState e \<Longrightarrow> m_ackTimer e = [] \<Longrightarrow>
      m_flag e \<noteq> IN_SEARCH \<Longrightarrow> K (Over (m_iface e)) \<Longrightarrow> K (Seq (m_seqNo e)) \<Longrightarrow>
      K (Hop (GetNextHop e)) \<or> GetNextHop e = GetDestination e \<Longrightarrow> Q e"
    and K_zero [simp]: "K (Seq 0)"
begin

lemma Q_RoutingTableEntry_new:
  "K (Over i) \<Longrightarrow> K (Seq n) \<Longrightarrow> K (Hop nh) \<or> nh = a \<Longrightarrow> Q (RoutingTableEntry_new t d a v n i h nh l)"
  by (rule Q_new) simp_all

lemma Q_into: "(\<And>e. r = Some e \<Longrightarrow> Q e) \<Longrightarrow> Q rt \<Longrightarrow> Q (into r rt)"
  by (auto simp: into_def split: option.splits)

end

text \<open>No condition, for the predicates that have none on what is written (\<open>K\<close>), on the entry of a sender that
  was just updated (\<open>A\<close>) or on the address a message was received at (\<open>R\<close>).\<close>

abbreviation (input) free :: "'a \<Rightarrow> bool" where
  "free \<equiv> \<lambda>_. True"

lemma no_condition [simp]: "request_ok free h" "reply_ok free g" "datagram_ok free C bs"
  by (simp_all add: request_ok_def reply_ok_def datagram_ok_def pres_True case_prod_unfold)

subsection \<open>The error path\<close>

text \<open>The loop over the unreachable destinations without its dead branch.\<close>

lemma rerr_loop_Cons:
  "rerr_loop E (i # is) h pre s =
     (case RerrHeader_AddUnDestination (fst i) (snd i) h of
        None \<Rightarrow> None
      | Some (ok, h) \<Rightarrow>
          (case lookup E (fst i) s of
             (r, s) \<Rightarrow> rerr_loop E is h (GetPrecursors (into r (RoutingTableEntry_default E)) pre) s))"
proof (cases "RerrHeader_AddUnDestination (fst i) (snd i) h")
  case None
  then show ?thesis by simp
next
  case (Some a)
  then have "fst a" using AddUnDestination_true [of "fst i" "snd i" h "fst a" "snd a"] by simp
  with Some show ?thesis by (cases a) simp
qed

declare rerr_loop.simps(2) [simp del]

lemma schedule_send_count:
  "m_rerrCount (schedule_send E k p d s) = m_rerrCount s" "par (schedule_send E k p d s) = par s"
  by (simp_all add: schedule_send_def jitter_def draw_def emit_def Let_def)

locale lookup_client = entry_property Q K A for Q :: "rte \<Rightarrow> bool" and K A +
  fixes R :: "ipv4 \<Rightarrow> bool" and E :: ns3 and I :: "rp \<Rightarrow> bool"
  assumes I_lookup: "I s \<Longrightarrow> lookup E i s = (r, s') \<Longrightarrow> I s' \<and> (\<forall>e. r = Some e \<longrightarrow> Q e)"
    and I_next: "I s \<Longrightarrow> lookup E i s = (Some e, s') \<Longrightarrow> K (Hop i) \<Longrightarrow> K (Hop (GetNextHop e))"
    and I_any: "I s \<Longrightarrow> K (Hop (any_addr E))"
    and I_report: "I s \<Longrightarrow> error_report (wire E) x \<Longrightarrow> I (emit x s)"
    and I_draws: "I s \<Longrightarrow> I (s\<lparr>draws := n\<rparr>)"
    and I_rerrCount: "I s \<Longrightarrow> c = 0 \<or> (m_rerrCount s \<noteq> m_rerrRateLimit (par s) \<and> c = m_rerrCount s + 1) \<Longrightarrow>
      I (s\<lparr>m_rerrCount := c\<rparr>)"
    and Q_default [simp]: "Q (RoutingTableEntry_default E)"
    and K_receiver [simp]: "R b \<Longrightarrow> K (Over (recv_iface E b))"
begin

lemma I_lookupD: "I s \<Longrightarrow> lookup E i s = (r, s') \<Longrightarrow> I s'"
  using I_lookup by blast

lemma I_lookup_valid:
  "I s \<Longrightarrow> lookup_valid E i s = (b, r, s') \<Longrightarrow> I s' \<and> (\<forall>e. r = Some e \<longrightarrow> Q e)"
  by (auto simp: lookup_valid_eq Let_def split: prod.splits dest: I_lookup)

lemma I_fold_report:
  "I s \<Longrightarrow> (\<And>i. error_report (wire E) (f i)) \<Longrightarrow> I (fold (\<lambda>i s. emit (f i) s) xs s)"
  by (induction xs arbitrary: s) (auto intro: I_report)

lemma I_schedule_report: "I s \<Longrightarrow> error_message (wire E) (ct_bytes p) \<Longrightarrow> I (schedule_send E k p d s)"
  by (auto simp: schedule_send_def jitter_def draw_def intro: I_report I_draws)

text \<open>The lookups inside a handler, as introduction rules.\<close>

lemma pres_lookup:
  assumes "I s"
    and "\<And>r s'. I s' \<Longrightarrow> (\<And>e. r = Some e \<Longrightarrow> Q e) \<Longrightarrow> pred_option P (f r s')"
  shows "pred_option P (case lookup E i s of (r, s') \<Rightarrow> f r s')"
  using assms I_lookup [OF assms(1), of i] by (auto split: prod.split)

lemma pres_lookup_valid:
  assumes "I s"
    and "\<And>b r s'. I s' \<Longrightarrow> (\<And>e. r = Some e \<Longrightarrow> Q e) \<Longrightarrow> pred_option P (f b r s')"
  shows "pred_option P (case lookup_valid E i s of (b, r, s') \<Rightarrow> f b r s')"
  using assms I_lookup_valid [OF assms(1), of i] by (auto split: prod.split)

lemma pres_lookup_hop:
  assumes "I s" and "K (Hop i)"
    and "\<And>r s'. I s' \<Longrightarrow> (\<And>e. r = Some e \<Longrightarrow> Q e \<and> K (Hop (GetNextHop e))) \<Longrightarrow> pred_option P (f r s')"
  shows "pred_option P (case lookup E i s of (r, s') \<Rightarrow> f r s')"
  using assms I_lookup [OF assms(1), of i] I_next [OF assms(1), of i] by (auto split: prod.split)

lemma keep_lookup:
  assumes "I s"
    and "\<And>r s'. I s' \<Longrightarrow> (\<And>e. r = Some e \<Longrightarrow> Q e) \<Longrightarrow> I (f r s')"
  shows "I (case lookup E i s of (r, s') \<Rightarrow> f r s')"
  using assms I_lookup [OF assms(1), of i] by (auto split: prod.split)

lemma keep_lookup_valid:
  assumes "I s"
    and "\<And>b r s'. I s' \<Longrightarrow> (\<And>e. r = Some e \<Longrightarrow> Q e) \<Longrightarrow> I (f b r s')"
  shows "I (case lookup_valid E i s of (b, r, s') \<Rightarrow> f b r s')"
  using assms I_lookup_valid [OF assms(1), of i] by (auto split: prod.split)

lemma I_precursor_ifaces: "I s \<Longrightarrow> I (snd (precursor_ifaces E is ifs s))"
proof (induction "is" arbitrary: ifs s)
  case Nil
  then show ?case by simp
next
  case (Cons i "is")
  obtain b r s' where "lookup_valid E i s = (b, r, s')" by (metis prod_cases3)
  with Cons I_lookup_valid [of s i b r s'] show ?case by (auto split: option.split)
qed

lemma I_rerr_on_iface:
  "I s \<Longrightarrow> error_message (wire E) (ct_bytes p) \<Longrightarrow> pred_option I (rerr_on_iface E p i s)"
  unfolding rerr_on_iface_def
  by (cases "FindSocketWithInterfaceAddress i s") (auto intro: I_schedule_report)

lemma I_SendRerrMessage:
  assumes "I s" and "error_message (wire E) (ct_bytes p)"
  shows "pred_option I (SendRerrMessage E p pre s)"
proof (cases pre)
  case Nil
  with assms show ?thesis by (simp add: SendRerrMessage_def)
next
  case (Cons front others)
  have one: "pred_option I (case lookup_valid E front s of (valid, r, s) \<Rightarrow>
      (case (valid, r) of
         (True, Some toPrecursor) \<Rightarrow> do {
           socket \<leftarrow> FindSocketWithInterfaceAddress (m_iface toPrecursor) s;
           let s = schedule_send E socket p front s;
           Some (s\<lparr>m_rerrCount := m_rerrCount s + 1\<rparr>)
         }
       | _ \<Rightarrow> Some s))" if "m_rerrCount s \<noteq> m_rerrRateLimit (par s)"
  proof -
    obtain v r s1 where l: "lookup_valid E front s = (v, r, s1)" by (cases "lookup_valid E front s")
    then have "I s1" using I_lookup_valid [OF assms(1)] by blast
    moreover have "m_rerrCount (schedule_send E k p front s1) \<noteq> m_rerrRateLimit (par (schedule_send E k p front s1))" for k
      using that l by (auto simp: lookup_valid_eq lookup_def schedule_send_count Let_def split: prod.splits)
    ultimately show ?thesis
      unfolding l
      by (auto simp: Let_def split: option.split bool.split bind_split
        intro!: I_rerrCount I_schedule_report [OF _ assms(2)])
  qed
  obtain ifs s' where p: "precursor_ifaces E pre [] s = (ifs, s')" by fastforce
  then have "I s'" using I_precursor_ifaces [OF assms(1), of pre "[]"] by simp
  then have "pred_option I (foldM (rerr_on_iface E p) ifs s')"
    using assms(2) by (intro foldM_pres I_rerr_on_iface)
  with assms one p Cons show ?thesis by (simp add: SendRerrMessage_def)
qed

lemma I_rerr_loop:
  "I s \<Longrightarrow> rerr_good h \<Longrightarrow> pred_option (\<lambda>x. rerr_good (fst x) \<and> I (snd (snd x))) (rerr_loop E un h pre s)"
proof (induction un arbitrary: h pre s)
  case Nil
  then show ?case by simp
next
  case (Cons i un)
  show ?case
  proof (cases "RerrHeader_AddUnDestination (fst i) (snd i) h")
    case None
    then show ?thesis by (simp add: rerr_loop_Cons)
  next
    case (Some a)
    with Cons.prems(2) have "rerr_good (snd a)" using rerr_good_add by (cases a) simp
    with Some Cons show ?thesis
      by (cases a) (auto simp: rerr_loop_Cons simp del: option.pred_inject intro!: pres_lookup)
  qed
qed

lemma I_rerr_rest: "I s \<Longrightarrow> rerr_good h \<Longrightarrow> pred_option I (rerr_rest E h pre s)"
  by (simp add: rerr_rest_def I_SendRerrMessage)

lemma I_no_route:
  assumes "I s"
  shows "pred_option I (SendRerrWhenNoRouteToForward E dst q origin s)"
proof -
  have send: "pred_option I (case lookup_valid E origin s of (valid, r, s) \<Rightarrow>
      (case (valid, r) of
         (True, Some toOrigin) \<Rightarrow> do {
           socket \<leftarrow> FindSocketWithInterfaceAddress (m_iface toOrigin) s;
           Some (emit (SockSend socket (rerr_packet E h) (GetNextHop toOrigin)) s)
         }
       | _ \<Rightarrow> Some (fold (\<lambda>i s. emit (SockSend (fst i) (rerr_packet E h)
                 (broadcast_destination E (snd i))) s) (m_socketAddresses s) s)))"
    if "rerr_good h" for h
    using assms
    by (rule pres_lookup_valid)
      (auto intro!: I_report I_fold_report simp: that split: option.split bool.split bind_split)
  show ?thesis
    unfolding SendRerrWhenNoRouteToForward_def Let_def
    by (intro pres_if pres_bind [OF rerr_good_added [OF rerr_good_new]])
      (use send in \<open>auto simp: assms\<close>)
qed

end

text \<open>The link failure handler also invalidates routes.\<close>

locale table_client = lookup_client Q K A R E I for Q :: "rte \<Rightarrow> bool" and K A R and E :: ns3 and I :: "rp \<Rightarrow> bool" +
  assumes I_list: "I s \<Longrightarrow> I (snd (list_via E i s))"
    and I_invalidate: "I s \<Longrightarrow> I (invalidate_routes E un s)"
begin

lemma I_list_viaD: "I s \<Longrightarrow> list_via E a s = (un, s') \<Longrightarrow> I s'"
  using I_list [of s a] by simp

text \<open>What follows the loop in its two callers.\<close>

lemma I_rerr_end:
  assumes "I s" and "rerr_good h"
  shows "pred_option I (do {
           (h, pre, s) \<leftarrow> rerr_loop E un h pre s;
           s \<leftarrow> rerr_rest E h pre s;
           Some (invalidate_routes E un' s)
         })"
  by (rule pres_bind [OF I_rerr_loop [OF assms]])
    (auto simp: split_beta intro!: pres_bind [OF I_rerr_rest] I_invalidate)

lemma I_break:
  assumes "I s"
  shows "pred_option I (SendRerrWhenBreaksLinkToNextHop E nextHop s)"
  unfolding SendRerrWhenBreaksLinkToNextHop_def Let_def
proof (rule pres_lookup [OF assms])
  fix r s'
  assume "I s'"
  obtain un s'' where l: "list_via E nextHop s' = (un, s'')" by fastforce
  with \<open>I s'\<close> have "I s''" using I_list_viaD by blast
  with \<open>I s'\<close> l show "pred_option I (case r of
      None \<Rightarrow> Some s'
    | Some toNextHop \<Rightarrow> do {
        (ok, rerrHeader) \<leftarrow> RerrHeader_AddUnDestination nextHop (m_seqNo toNextHop) RerrHeader_new;
        case list_via E nextHop s' of (unreachable, s) \<Rightarrow> do {
        (rerrHeader, precursors, s) \<leftarrow> rerr_loop E unreachable rerrHeader (GetPrecursors toNextHop []) s;
        s \<leftarrow> rerr_rest E rerrHeader precursors s;
        Some (invalidate_routes E (smap_insert nextHop (m_seqNo toNextHop) unreachable) s)
      }})"
    by (cases r)
      (auto intro!: pres_bind [OF rerr_good_added [OF rerr_good_new]] I_rerr_end simp del: bind_split)
qed

end

subsection \<open>The handlers\<close>

text \<open>A link failure changes nothing in the neighbour list; \<open>Neighbors_Update\<close> and the like rely on
  it.\<close>

interpretation nb_frame: table_client free free free free E "\<lambda>s. rp_nb s = nb"
  by unfold_locales
    (auto simp: lookup_def list_via_def invalidate_routes_def emit_def split: prod.splits)

locale link_client = table_client Q K A R E I for Q :: "rte \<Rightarrow> bool" and K A R and E :: ns3 and I :: "rp \<Rightarrow> bool" +
  assumes I_nb: "I s \<Longrightarrow> (Neighbors_inv (rp_nb s) \<Longrightarrow> Neighbors_inv nb) \<Longrightarrow> I (s\<lparr>rp_nb := nb\<rparr>)"
begin

lemma I_nb_calls:
  assumes "I s" and "rp_nb s = nb"
  shows "pred_option (\<lambda>s. I s \<and> rp_nb s = nb) (SendRerrWhenBreaksLinkToNextHop E a s)"
  using assms by (intro pres_conj I_break nb_frame.I_break)

lemma I_nb_callback:
  assumes "nb_callback E = Some f" and "I s \<and> rp_nb s = nb"
  shows "pred_option (\<lambda>s. I s \<and> rp_nb s = nb) (f a s)"
  using assms I_nb_calls by (auto simp: nb_callback_def)

lemma I_nb_update:
  assumes "I s"
  shows "pred_option I (nb_update E a x s)"
proof (rule presI)
  fix s'
  assume "nb_update E a x s = Some s'"
  then obtain nb s1 where u: "Neighbors_Update E (nb_callback E) a x (rp_nb s) s = Some (nb, s1)"
    and s': "s' = s1\<lparr>rp_nb := nb\<rparr>"
    by (auto simp: nb_update_def bind_eq_Some_conv)
  have "pred_option (\<lambda>(nb', s'). I s' \<and> rp_nb s' = rp_nb s)
          (Neighbors_Update E (nb_callback E) a x (rp_nb s) s)"
    using assms by (intro Neighbors_Update_pres I_nb_callback) auto
  with u have "I s1" "rp_nb s1 = rp_nb s" by auto
  then show "I s'" unfolding s' using Neighbors_Update_inv [OF _ u] by (auto intro: I_nb)
qed

lemma I_purge_neighbors:
  assumes "I s" "rp_nb s = nb0"
    and "Neighbors_inv nb0 \<Longrightarrow> distinct (map m_neighborAddress (m_nb nb1))"
  shows "pred_option I (do { (nb, s) \<leftarrow> Neighbors_Purge (now E) (nb_callback E) nb1 s; Some (s\<lparr>rp_nb := nb\<rparr>) })"
proof (rule presI)
  fix s'
  assume "do { (nb, s) \<leftarrow> Neighbors_Purge (now E) (nb_callback E) nb1 s; Some (s\<lparr>rp_nb := nb\<rparr>) } = Some s'"
  then obtain nb s1 where u: "Neighbors_Purge (now E) (nb_callback E) nb1 s = Some (nb, s1)"
    and s': "s' = s1\<lparr>rp_nb := nb\<rparr>"
    by (auto simp: bind_eq_Some_conv)
  have "pred_option (\<lambda>(nb', s'). I s' \<and> rp_nb s' = nb0) (Neighbors_Purge (now E) (nb_callback E) nb1 s)"
    using assms(1,2) by (intro Neighbors_Purge_pres I_nb_callback) auto
  with u have "I s1" "rp_nb s1 = nb0" by auto
  then show "I s'" unfolding s' using Neighbors_Purge_inv [OF _ u] assms(3) by (auto intro: I_nb)
qed

lemma I_nb_purge: "I s \<Longrightarrow> pred_option I (nb_purge E s)"
  unfolding nb_purge_def Let_def by (rule I_purge_neighbors) (auto simp: Neighbors_inv_def)

lemma I_NotifyTxError: "I s \<Longrightarrow> pred_option I (NotifyTxError E a s)"
  unfolding NotifyTxError_def Neighbors_ProcessTxError_def
  by (rule I_purge_neighbors) (auto simp: Neighbors_inv_def mark_closed_addresses simp del: map_map)

end

locale route_client = link_client Q K A R E I for Q :: "rte \<Rightarrow> bool" and K A R and E :: ns3 and I :: "rp \<Rightarrow> bool" +
  assumes I_emit: "I s \<Longrightarrow> sendable (wire E) e \<Longrightarrow> I (emit e s)"
    and I_update: "I s \<Longrightarrow> Q rt \<Longrightarrow> I (update_route rt s)"
    and I_add: "I s \<Longrightarrow> Q rt \<Longrightarrow> K (Key (GetDestination rt)) \<Longrightarrow> I (add_route E rt s)"
    and I_queue: "I s \<Longrightarrow> (RequestQueue_inv (rp_queue s) \<Longrightarrow> RequestQueue_inv q) \<Longrightarrow>
      (queue_bounded (rp_queue s) \<Longrightarrow> queue_bounded q) \<Longrightarrow>
      m_maxLen q = m_maxLen (rp_queue s) \<Longrightarrow> I (s\<lparr>rp_queue := q\<rparr>)"
    and I_rreqIds: "I s \<Longrightarrow> (IdCache_inv (m_rreqIdCache s) \<Longrightarrow> IdCache_inv c) \<Longrightarrow>
      m_lifetime c = m_lifetime (m_rreqIdCache s) \<Longrightarrow> I (s\<lparr>m_rreqIdCache := c\<rparr>)"
    and I_dpd: "I s \<Longrightarrow> (IdCache_inv (m_dpd s) \<Longrightarrow> IdCache_inv c) \<Longrightarrow>
      m_lifetime c = m_lifetime (m_dpd s) \<Longrightarrow> c = snd (IdCache_IsDuplicate (now E) a i (m_dpd s)) \<Longrightarrow>
      I (s\<lparr>m_dpd := c\<rparr>)"
    and I_seqNo: "I s \<Longrightarrow> I (s\<lparr>rp_seqNo := n\<rparr>)"
    and I_lastBcast: "I s \<Longrightarrow> I (s\<lparr>m_lastBcastTime := t\<rparr>)"
    and I_settled: "I s \<Longrightarrow> R b \<Longrightarrow> lookup E a (UpdateRouteToNeighbor E a b s) = (Some rt, s') \<Longrightarrow> A rt"
begin

lemma I_emits: "I s \<Longrightarrow> \<forall>e\<in>set es. sendable (wire E) e \<Longrightarrow> I (emits es s)"
proof (induction es rule: rev_induct)
  case Nil
  then show ?case by (simp add: emits_def)
next
  case (snoc e es)
  then have "I (emit e (emits es s))" by (auto intro: I_emit)
  then show ?case by (simp add: emit_def emits_def)
qed

lemma I_schedule_send: "I s \<Longrightarrow> message (wire E) (ct_bytes p) \<Longrightarrow> I (schedule_send E k p d s)"
  by (auto simp: schedule_send_def jitter_def draw_def intro: I_emit I_draws)

text \<open>Writing back an edited copy of an entry.\<close>

lemma I_update_core: "I s \<Longrightarrow> Q e \<Longrightarrow> same_core K e e' \<Longrightarrow> I (update_route e' s)"
  by (blast intro: I_update Q_edit)

lemma I_touch_time:
  assumes "I s"
  shows "I (snd (UpdateRouteLifeTime E a l s))"
proof -
  obtain r s' where l: "lookup E a s = (r, s')" by fastforce
  with assms have "I s'" "\<And>e. r = Some e \<Longrightarrow> Q e" using I_lookup by blast+
  with l show ?thesis
    by (auto simp: UpdateRouteLifeTime_def Let_def same_core_simps entry_edits split: option.split
        intro!: I_update_core)
qed

lemma I_UpdateRouteToNeighbor:
  "I s \<Longrightarrow> R b \<Longrightarrow> K (Key a) \<Longrightarrow> K (Hop a) \<Longrightarrow> I (UpdateRouteToNeighbor E a b s)"
  unfolding UpdateRouteToNeighbor_def Let_def
  by (rule keep_lookup) (auto split: option.split intro!: I_add I_update Q_RoutingTableEntry_new)

lemma I_send_rreq_on: "I s \<Longrightarrow> I (send_rreq_on E h ttl j s)"
  by (auto simp: send_rreq_on_def Let_def IdCache_inv_dup split: prod.split
      intro!: I_schedule_send I_lastBcast I_rreqIds)

lemma I_fold:
  assumes "\<And>x s. I s \<Longrightarrow> I (f x s)" and "I s"
  shows "I (fold f xs s)"
  using assms by (induction xs arbitrary: s) auto

lemma I_SendReply: "I s \<Longrightarrow> pred_option I (SendReply E h rt s)"
  unfolding SendReply_def Let_def
  by (rule pres_bind [OF pres_True]) (auto intro: I_emit I_seqNo)

lemma I_reply_intermediate:
  assumes "I s" "Q toDst" "Q toOrigin" "K (Hop (GetNextHop toDst))" "K (Hop (GetNextHop toOrigin))"
  shows "pred_option I (SendReplyByIntermediateNode E toDst toOrigin g s)"
proof -
  obtain r s' where "lookup E (GetNextHop toOrigin) s = (r, s')" by fastforce
  with assms I_lookup have "I s'" "I s" by blast+
  with assms \<open>lookup E (GetNextHop toOrigin) s = (r, s')\<close> show ?thesis
    unfolding SendReplyByIntermediateNode_def Let_def
    by (cases "m_hops toDst = 1")
      (auto intro!: pres_bind [OF pres_True] I_emit I_update Q_precursor simp del: bind_split)
qed

lemma I_SendReplyAck:
  assumes "I s"
  shows "pred_option I (SendReplyAck E a s)"
  unfolding SendReplyAck_def Let_def
  by (rule pres_lookup [OF assms]) (auto intro!: pres_bind [OF pres_True] I_emit simp del: bind_split)

lemma I_hello_on: "I s \<Longrightarrow> I (hello_on E j s)"
  by (auto simp: hello_on_def Let_def split: prod.split intro: I_schedule_send)

lemma I_SendHello: "I s \<Longrightarrow> I (SendHello E s)"
  unfolding SendHello_def by (rule I_fold [OF I_hello_on])

lemma I_dequeue: "I s \<Longrightarrow> dequeue E dst s = (e, s') \<Longrightarrow> I s'"
  by (auto simp: dequeue_def split: prod.splits intro!: I_emits I_queue
      intro: RequestQueue_Dequeue_inv RequestQueue_Dequeue_bounded RequestQueue_Dequeue_maxLen
      intro: sendable_queue_drops(2) [THEN bspec])

lemma I_SendPacketFromQueue: "I s \<Longrightarrow> I (SendPacketFromQueue E dst route s)"
proof (induction "length (m_queue (rp_queue s))" arbitrary: s rule: less_induct)
  case less
  obtain e s' where d: "dequeue E dst s = (e, s')" by fastforce
  with less.prems have "I s'" by (rule I_dequeue)
  show ?case
  proof (cases e)
    case None
    with d \<open>I s'\<close> show ?thesis by (subst SendPacketFromQueue.simps) simp
  next
    case (Some q)
    with d have "length (m_queue (rp_queue s')) < length (m_queue (rp_queue s))"
      using dequeue_shorter by blast
    then have "length (m_queue (rp_queue (emit (release route q) s'))) < length (m_queue (rp_queue s))"
      by (simp add: emit_def)
    moreover have "I (emit (release route q) s')" using I_emit [OF \<open>I s'\<close>] by simp
    ultimately have "I (SendPacketFromQueue E dst route (emit (release route q) s'))"
      by (rule less.hyps)
    with \<open>I s'\<close> d Some show ?thesis by (subst SendPacketFromQueue.simps) simp
  qed
qed

text \<open>Incoming messages.\<close>

lemma I_reverse_route:
  assumes "I s" "R a" "request_ok K h" "K (Hop b)"
  shows "pred_option (\<lambda>(rt, s). Q rt \<and> K (Hop (GetNextHop rt)) \<and> I s) (reverse_route E h hop a b s)"
  unfolding reverse_route_def Let_def
proof (rule pres_lookup [OF assms(1)], goal_cases)
  case (1 r s')
  then have edit: "Q e \<and> I (update_route e s')" if "r = Some e0" "same_core K e0 e" for e0 e
    using that I_update_core Q_edit by blast
  have ok: "K (Seq (rq_originSeqNo h))" "K (Key (rq_origin h))" using assms(3) by (simp_all add: request_ok_def)
  show ?case
  proof (cases r)
    case None
    with 1 assms ok show ?thesis by (auto intro!: I_add Q_RoutingTableEntry_new I_any)
  next
    case (Some e0)
    show ?thesis
      unfolding Some option.case
      by (rule pres_bind [where Q = "\<lambda>e. same_links e0 e \<and> m_flag e = m_flag e0 \<and>
            (m_seqNo e = m_seqNo e0 \<or> K (Seq (m_seqNo e)))"])
        (use assms(2,4) ok in \<open>auto intro!: pres_bind [OF pres_True] edit [OF Some] simp: same_core_simps entry_edits
          simp del: bind_split\<close>)
  qed
qed

lemma I_neighbor_route:
  assumes "I s" "R a" "request_ok K h" "K (Key b)" "K (Hop b)"
  shows "I (neighbor_route E h a b s)"
  unfolding neighbor_route_def Let_def
  by (rule keep_lookup [OF assms(1)])
    (use assms(2-) [unfolded request_ok_def] in \<open>auto split: option.split intro!: I_add I_update_core Q_RoutingTableEntry_new
       simp: same_core_simps entry_edits\<close>)

lemma I_forward_rreq: "I s \<Longrightarrow> I (forward_rreq E p h s)"
  by (auto simp: forward_rreq_def forward_rreq_on_def Let_def split: prod.split
      intro!: I_fold I_schedule_send I_lastBcast)

lemma I_answer_or_forward:
  assumes "I s" "Q toOrigin" "K (Hop (GetNextHop toOrigin))" "request_ok K h"
  shows "pred_option I (answer_or_forward E p h toOrigin a s)"
  unfolding answer_or_forward_def Let_def
proof (rule pres_lookup_hop [OF assms(1)], goal_cases)
  case 1
  show ?case using assms(4) by (simp add: request_ok_def)
next
  case (2 r s')
  show ?case
  proof (cases r)
    case None
    with 2 show ?thesis by (auto intro: I_forward_rreq)
  next
    case (Some toDst)
    with 2 have "Q toDst" "K (Hop (GetNextHop toDst))" by blast+
    moreover have "K (Hop (rq_origin h))" using assms(4) by (simp add: request_ok_def)
    moreover have "K (Hop (GetNextHop (into r toOrigin)))"
      if "\<And>e. r = Some e \<Longrightarrow> Q e \<and> K (Hop (GetNextHop e))" for r
      using that assms(3) by (auto simp: into_def split: option.split)
    ultimately show ?thesis
      using 2 assms(2) unfolding Some option.case
      by (intro pres_if pres_bind [OF pres_True])
        (auto intro!: I_forward_rreq pres_lookup_hop I_reply_intermediate Q_into)
  qed
qed

lemma I_RecvRequest:
  assumes "I s" "R receiver" "K (Key a)" "K (Hop a)"
    and "pred_option (\<lambda>x. request_ok K (fst x)) (RreqHeader_Deserialize (wire E) (pk_bytes p))"
  shows "pred_option I (RecvRequest E p receiver a s)"
  unfolding RecvRequest_def Let_def split_beta
proof (rule pres_bind [OF assms(5)], goal_cases)
  case (1 x)
  then have ok: "request_ok K ((fst x)\<lparr>rq_hopCount := n\<rparr>)" for n by (simp add: request_ok_def)
  obtain r s1 where l: "lookup E a s = (r, s1)" by fastforce
  with assms(1) have s1: "I s1" by (rule I_lookupD)
  let ?d = "IdCache_IsDuplicate (now E) (rq_origin (fst x)) (rq_requestID (fst x)) (m_rreqIdCache s1)"
  from s1 have s2: "I (s1\<lparr>m_rreqIdCache := snd ?d\<rparr>)" by (rule I_rreqIds) (simp_all add: IdCache_inv_dup)
  show ?case
    unfolding l fst_conv snd_conv
    using s1
    by (intro pres_if pres_Some s2 pres_bind [OF I_reverse_route [OF s2 assms(2) ok assms(4)]])
      (auto simp: split_beta assms(2-4) ok intro!: pres_bind [OF I_nb_update] I_neighbor_route
        I_answer_or_forward I_SendReply intro: I_lookupD [OF _ surjective_pairing])
qed

lemma I_ProcessHello:
  assumes "I s" "R a" "reply_ok K h"
  shows "pred_option I (ProcessHello E h a s)"
proof -
  have "I (case lookup E (rp_dst h) s of (r, s) \<Rightarrow>
             (case r of
                None \<Rightarrow>
                  add_route E (RoutingTableEntry_new (now E) (Some (recv_dev E a)) (rp_dst h) True
                    (rp_dstSeqNo h) (recv_iface E a) 1 (rp_dst h) (RrepHeader_GetLifeTime h)) s
              | Some toNeighbor \<Rightarrow>
                  update_route (SetNextHop (rp_dst h)
                    (SetOutputDevice (Some (recv_dev E a))
                      ((SetLifeTime (now E) (max (hello_lifetime (par s)) (GetLifeTime (now E) toNeighbor))
                        toNeighbor)\<lparr>m_seqNo := rp_dstSeqNo h, m_validSeqNo := True, m_flag := VALID\<rparr>)
                      \<lparr>m_iface := recv_iface E a, m_hops := 1\<rparr>)) s))"
    by (rule keep_lookup [OF assms(1)])
      (use assms(2-) [unfolded reply_ok_def] in \<open>auto split: option.split intro!: I_add I_update_core Q_RoutingTableEntry_new
         simp: same_core_simps entry_edits\<close>)
  then show ?thesis
    unfolding ProcessHello_def Let_def by (auto split: prod.splits option.splits intro: I_nb_update)
qed

lemma I_install_reply:
  assumes "I s" "Q e" "K (Key (GetDestination e))"
  shows "pred_option I (install_reply E h hop e r s)"
  using assms
  by (cases r) (auto simp: install_reply_def intro!: pres_bind [OF pres_True] I_add I_update
      simp del: bind_split)

lemma I_insert_precursor_at:
  assumes "I s" "K (Hop i)"
  shows "I (insert_precursor_at E a i s)"
  unfolding insert_precursor_at_def Let_def
  by (rule keep_lookup [OF assms(1)]) (auto intro!: I_update Q_precursor Q_into assms(2))

lemma I_update_precursors:
  "I s \<Longrightarrow> Q toDst \<Longrightarrow> Q toOrigin \<Longrightarrow> K (Hop (GetNextHop toDst)) \<Longrightarrow> K (Hop (GetNextHop toOrigin)) \<Longrightarrow>
     I (update_precursors E toDst toOrigin s)"
  by (auto simp: update_precursors_def Let_def intro!: I_insert_precursor_at I_update Q_precursor)

lemma I_forward_reply:
  assumes "I s" "reply_ok K h"
  shows "pred_option I (forward_reply E p h s)"
  unfolding forward_reply_def Let_def
proof (rule pres_lookup_hop [OF assms(1)], goal_cases)
  case 1
  show ?case using assms(2) by (simp add: reply_ok_def)
next
  case (2 r s')
  show ?case
  proof (cases r)
    case None
    with 2 show ?thesis by simp
  next
    case (Some e)
    let ?e = "SetLifeTime (now E) (max (m_activeRouteTimeout (par s')) (GetLifeTime (now E) e)) e"
    from 2 Some have e: "Q e" "K (Hop (GetNextHop ?e))" by (auto simp: entry_edits)
    from e(1) have Q: "Q ?e" by (rule Q_edit) (simp add: same_core_simps entry_edits)
    with 2 have u: "I (update_route ?e s')" by (blast intro: I_update)
    have "I (case lookup_valid E (rp_dst h) (update_route ?e s') of (b, r, s) \<Rightarrow>
        (case (b, r) of (True, Some toDst) \<Rightarrow> update_precursors E toDst ?e s | _ \<Rightarrow> s))"
      unfolding lookup_valid_eq using u I_lookup [OF u, of "rp_dst h"] I_next [OF u, of "rp_dst h"] assms(2) Q e(2)
      by (auto simp: reply_ok_def split: prod.split option.split bool.split intro!: I_update_precursors)
    with 2 Some show ?thesis
      by (auto intro!: pres_bind [OF pres_True] I_emit simp del: bind_split
          split: prod.split option.split bool.split)
  qed
qed

lemma I_RecvReplyAck:
  assumes "I s" and "\<And>e s'. lookup E a s = (Some e, s') \<Longrightarrow> A e"
  shows "I (RecvReplyAck E a s)"
proof -
  obtain r s' where l: "lookup E a s = (r, s')" by fastforce
  with assms I_lookup have "I s'" "\<And>e. r = Some e \<Longrightarrow> Q e \<and> A e" by blast+
  with l show ?thesis by (cases r) (auto simp: RecvReplyAck_def intro!: I_update Q_ack)
qed

lemma I_RecvError:
  assumes "I s"
  shows "pred_option I (RecvError E p a s)"
  unfolding RecvError_def Let_def
proof (rule pres_bind [OF pres_True], goal_cases)
  case (1 x)
  obtain un s1 where "list_via E a s = (un, s1)" by fastforce
  with assms I_list_viaD show ?case
    by (auto simp: split_beta rerr_good_collected intro!: pres_bind [OF I_rerr_loop] pres_bind [OF I_rerr_rest]
        I_invalidate simp del: bind_split)
qed

text \<open>The data path and the timers.\<close>

lemma I_touch: "I s \<Longrightarrow> I (touch E a s)"
  by (simp add: touch_def I_touch_time)

lemma I_RouteOutput:
  assumes "I s"
  shows "pred_option (\<lambda>x. I (snd x)) (RouteOutput E p h oif s)"
proof (cases p)
  case None
  with assms show ?thesis
    by (auto simp: RouteOutput_def intro!: pres_bind [OF pres_True] simp del: bind_split)
next
  case (Some q)
  show ?thesis
  proof (cases "m_socketAddresses s = []")
    case True
    with assms Some show ?thesis by (simp add: RouteOutput_def)
  next
    case False
    obtain b r s1 where lv: "lookup_valid E (ih_destination h) s = (b, r, s1)" by (metis prod_cases3)
    with assms I_lookup_valid have s1: "I s1" by blast
    have loop: "pred_option (\<lambda>x. I (snd x)) (Option.bind (LoopbackRoute E h oif s1) (\<lambda>rt. Some (f rt, s1)))"
      for f :: "ipv4_route \<Rightarrow> route_output"
      using s1 by (auto intro!: pres_bind [OF pres_True] simp del: bind_split)
    from s1 False Some lv show ?thesis
      by (cases r; cases b)
        (auto simp: RouteOutput_def Let_def split_beta intro!: I_touch_time loop
          simp del: bind_split)
  qed
qed

lemma I_enqueue:
  assumes "I s"
  shows "pred_option (\<lambda>x. I (snd x)) (enqueue E e s)"
  using assms
  by (auto simp: enqueue_def bind_eq_Some_conv intro!: presI I_emits I_queue
      intro: RequestQueue_Enqueue_inv RequestQueue_Enqueue_bounded RequestQueue_Enqueue_maxLen
      intro: sendable_queue_drops(1) [THEN bspec])

lemma I_Purge: "I s \<Longrightarrow> I (s\<lparr>m_routingTable := RoutingTable_Purge (now E) (m_routingTable s)\<rparr>)"
  using I_lookup [of s 0] by (auto simp: lookup_def RoutingTable_LookupRoute_def Let_def)

lemma I_Forwarding:
  assumes "I s"
  shows "pred_option (\<lambda>x. I (snd x)) (Forwarding E p h ucb ecb s)"
proof -
  have no: "pred_option (\<lambda>x. I (snd x)) (map_option (Pair b) (SendRerrWhenNoRouteToForward E d q o' s))"
    if "I s" for b d q o' s
    using I_no_route [OF that, of d q o'] by (simp add: option.pred_map comp_def)
  show ?thesis
    unfolding Forwarding_def Let_def split_beta
    by (intro pres_if no pres_bind [OF I_nb_update] pres_Some)
      (auto intro!: I_touch I_emit I_Purge assms intro: I_lookupD [OF _ surjective_pairing])
qed

lemma I_deliver: "I s \<Longrightarrow> I (deliver p h iif lcb ecb s)"
  by (auto simp: deliver_def split: option.split intro: I_emit)

lemma I_broadcast_input:
  assumes "I s"
  shows "I (broadcast_input E p h iif ucb lcb ecb s)"
proof -
  let ?s = "s\<lparr>m_dpd := snd (Dpd_IsDuplicate (now E) p h (m_dpd s))\<rparr>"
  have s: "I ?s" using assms by (auto intro!: I_dpd simp: Dpd_IsDuplicate_def IdCache_inv_dup)
  then have d: "I (deliver p h iif lcb ecb (touch E (ih_source h) ?s))"
    by (intro I_deliver I_touch)
  have "I (case lookup E (ih_destination h) (deliver p h iif lcb ecb (touch E (ih_source h) ?s)) of
      (r, s) \<Rightarrow> (case r of Some toBroadcast \<Rightarrow> emit (Forward ucb (m_ipv4Route toBroadcast) p h) s
                | None \<Rightarrow> s))"
    by (rule keep_lookup [OF d]) (auto intro: I_emit split: option.split)
  then show ?thesis using s d
    unfolding broadcast_input_def Let_def by (auto split: prod.splits option.splits)
qed

lemma I_unicast_input:
  assumes "I s"
  shows "pred_option I (unicast_input E p h iif lcb ecb s)"
proof -
  have "pred_option I (case lookup_valid E (ih_source h) (touch E (ih_source h) s) of (b, r, s) \<Rightarrow>
      (case (b, r) of
         (True, Some toOrigin) \<Rightarrow>
           nb_update E (GetNextHop toOrigin) (m_activeRouteTimeout (par s))
             (touch E (GetNextHop toOrigin) s)
       | _ \<Rightarrow> Some s))"
    by (rule pres_lookup_valid [OF I_touch [OF assms]])
      (auto split: option.split bool.split intro!: I_nb_update I_touch)
  then show ?thesis
    unfolding unicast_input_def Let_def
    by (intro pres_bind [where Q = I]) (auto intro: I_deliver split: prod.splits)
qed

lemma I_drop_queued: "I s \<Longrightarrow> I (drop_queued E dst s)"
  using RequestQueue_DropPacketWithDst_inv [of "rp_queue s" "now E" dst]
    RequestQueue_DropPacketWithDst_bounded [of "rp_queue s" "now E" dst]
    RequestQueue_DropPacketWithDst_maxLen [of "now E" dst "rp_queue s"]
  by (auto simp: drop_queued_def split: prod.split intro!: I_emits I_queue
      intro: sendable_queue_drops(3) [THEN bspec])

end

subsection \<open>The handlers that may end in a search\<close>

locale agent_client = route_client Q K A R E I
  for Q :: "rte \<Rightarrow> bool" and K A R and E :: ns3 and I :: "rp \<Rightarrow> bool" +
  fixes J :: "rp \<Rightarrow> bool"
  assumes J_I: "I s \<Longrightarrow> J s"
    and J_request: "I s \<Longrightarrow> K (Key dst) \<Longrightarrow> pred_option J (SendRequest E dst s)"
    and J_finish: "I s \<Longrightarrow> Q e \<Longrightarrow> m_flag e \<noteq> IN_SEARCH \<Longrightarrow> GetDestination e = dst \<Longrightarrow>
      J (finish_discovery E dst e toDst s)"
begin

lemma J_pred: "pred_option I m \<Longrightarrow> pred_option J m"
  using J_I by (cases m) auto

lemma J_RecvReply:
  assumes "I s" "R receiver" "K (Hop sender)"
    and "pred_option (\<lambda>x. reply_ok K (fst x)) (RrepHeader_Deserialize (wire E) (pk_bytes p))"
  shows "pred_option J (RecvReply E p receiver sender s)"
  unfolding RecvReply_def Let_def split_beta
proof (rule pres_bind [OF assms(4)], goal_cases)
  case (1 x)
  then have ok: "reply_ok K ((fst x)\<lparr>rp_hopCount := n\<rparr>)" for n by (simp add: reply_ok_def)
  have new: "Q (RoutingTableEntry_new t d (rp_dst (fst x)) v (rp_dstSeqNo (fst x)) (recv_iface E receiver) n sender l)"
    and key: "K (Key (rp_dst (fst x)))" for t d v n l
    using 1 assms(2,3) by (auto simp: reply_ok_def intro!: Q_RoutingTableEntry_new)
  let ?dst = "rp_dst (fst x)"
  obtain r s1 where l: "lookup E ?dst s = (r, s1)" by fastforce
  with assms(1) have s1: "I s1" by (rule I_lookupD)
  have ack: "pred_option (\<lambda>y. reply_ok K (fst y) \<and> I (snd y))
    (if b then Option.bind (SendReplyAck E sender s) (\<lambda>s. Some (RrepHeader_SetAckRequired False h, s)) else Some (h, s))"
    if "I s" "reply_ok K h" for b h s
    using that by (auto intro!: pres_bind [OF I_SendReplyAck] simp: reply_ok_def RrepHeader_SetAckRequired_def
        simp del: bind_split)
  show ?case
    unfolding l fst_conv snd_conv
    by (intro pres_if J_pred [OF I_ProcessHello [OF assms(1,2) ok]] pres_bind [OF I_install_reply [OF s1]]
        pres_bind [OF ack])
      (auto intro!: J_finish J_pred [OF I_forward_reply] simp: ok new key)
qed

lemma J_RecvMadaodv:
  assumes "I s" and "\<And>b. receiver_of k s = Some b \<Longrightarrow> R b"
    and "K (Key a)" "K (Hop a)" "datagram_ok K (wire E) (pk_bytes p)"
  shows "pred_option J (RecvMadaodv E k p a s)"
proof -
  have on: "pred_option J (case t of
      MADAODVTYPE_RREQ \<Rightarrow> RecvRequest E q b a (UpdateRouteToNeighbor E a b s)
    | MADAODVTYPE_RREP \<Rightarrow> RecvReply E q b a (UpdateRouteToNeighbor E a b s)
    | MADAODVTYPE_RERR \<Rightarrow> RecvError E q a (UpdateRouteToNeighbor E a b s)
    | MADAODVTYPE_RREP_ACK \<Rightarrow> Some (RecvReplyAck E a (UpdateRouteToNeighbor E a b s)))"
    if "receiver_of k s = Some b"
      and "t = MADAODVTYPE_RREQ \<longrightarrow> pred_option (\<lambda>x. request_ok K (fst x)) (RreqHeader_Deserialize (wire E) (pk_bytes q))"
      and "t = MADAODVTYPE_RREP \<longrightarrow> pred_option (\<lambda>x. reply_ok K (fst x)) (RrepHeader_Deserialize (wire E) (pk_bytes q))"
    for t b q
  proof -
    have "R b" using that(1) by (rule assms(2))
    with assms(1,3,4) have u: "I (UpdateRouteToNeighbor E a b s)" by (intro I_UpdateRouteToNeighbor)
    with \<open>R b\<close> assms(3,4) that(2,3) show ?thesis
      by (cases t) (auto intro: J_RecvReply J_I I_RecvReplyAck I_settled [OF assms(1)]
        J_pred [OF I_RecvRequest] J_pred [OF I_RecvError])
  qed
  show ?thesis
  proof (cases "receiver_of k s")
    case None
    then show ?thesis by (simp add: RecvMadaodv_def)
  next
    case (Some b)
    then have "I (UpdateRouteToNeighbor E a b s)"
      by (intro I_UpdateRouteToNeighbor assms)
    with on [OF Some] show ?thesis
      unfolding RecvMadaodv_def Let_def Some Option.bind_lunit
      by (intro pres_bind [OF assms(5) [unfolded datagram_ok_def]]) (auto simp: split_beta intro: J_I)
  qed
qed

lemma J_DeferredRouteOutput:
  assumes "I s" "K (Key (ih_destination h))"
  shows "pred_option J (DeferredRouteOutput E p h ucb ecb s)"
  unfolding DeferredRouteOutput_def
  by (rule pres_bind [OF I_enqueue [OF assms(1)]])
    (auto simp: split_beta assms(2) intro!: J_request J_I intro: I_lookupD [OF _ surjective_pairing]
      split: option.split)

lemma J_RouteInput:
  assumes "I s" "K (Key (ih_destination h))"
  shows "pred_option (\<lambda>x. J (snd x)) (RouteInput E p h idev ucb lcb ecb s)"
proof -
  have p: "pred_option (\<lambda>x. J (snd x)) (map_option (Pair b) m)" if "pred_option J m" for b :: bool and m
    using that by (simp add: option.pred_map comp_def)
  have f: "pred_option (\<lambda>x. J (snd x)) (Forwarding E p h ucb ecb s)"
    using I_Forwarding [OF assms(1), of p h ucb ecb] J_I by (auto intro: option.pred_mono_strong)
  show ?thesis
    unfolding RouteInput_def Let_def
    by (intro pres_if p f pres_Some J_DeferredRouteOutput J_pred [OF I_unicast_input] assms)
      (auto intro!: J_I intro: assms I_broadcast_input I_emit)
qed

end

subsection \<open>The searches\<close>

lemma kept_keys:
  "(a, b) \<in> set (smap_put k v m) \<Longrightarrow> a = k \<or> (a, b) \<in> set m"
  "(a, b) \<in> set (smap_erase k m) \<Longrightarrow> (a, b) \<in> set m"
  using set_smap_put [of k v m] by (auto simp: smap_erase_def)

locale search_client = route_client Q K A R E I
  for Q :: "rte \<Rightarrow> bool" and K A R and E :: ns3 and I :: "rp \<Rightarrow> bool" +
  assumes Q_search: "Q e \<Longrightarrow> same_links e e' \<Longrightarrow> m_iface e' = m_iface e \<Longrightarrow> m_validSeqNo e' = m_validSeqNo e \<Longrightarrow>
      m_seqNo e' = m_seqNo e \<Longrightarrow> GetNextHop e' = GetNextHop e \<Longrightarrow> m_flag e' = IN_SEARCH \<Longrightarrow> Q e'"
    and Q_searched: "m_precursorList e = [] \<Longrightarrow> \<not> m_blackListState e \<Longrightarrow> m_ackTimer e = [] \<Longrightarrow>
      m_flag e = IN_SEARCH \<Longrightarrow> \<not> m_validSeqNo e \<Longrightarrow> m_seqNo e = 0 \<Longrightarrow> K (Hop (GetNextHop e)) \<Longrightarrow> Q e"
    and I_delete: "I s \<Longrightarrow> I (delete_route E dst s)"
    and I_later: "I s \<Longrightarrow> K (Key dst) \<Longrightarrow> I (emit (SchedRequest d dst) s)"
    and I_timers: "I s \<Longrightarrow> (smap_inv (m_addressReqTimer s) \<Longrightarrow> smap_inv m) \<Longrightarrow>
      (\<And>k tm. (k, tm) \<in> set m \<Longrightarrow> K (Key k) \<or> (\<exists>tm'. (k, tm') \<in> set (m_addressReqTimer s))) \<Longrightarrow> I (s\<lparr>m_addressReqTimer := m\<rparr>)"
    and I_requestId: "I s \<Longrightarrow> I (s\<lparr>m_requestId := n\<rparr>)"
    and I_rreqCount: "I s \<Longrightarrow> m_rreqCount s \<noteq> m_rreqRateLimit (par s) \<Longrightarrow>
      I (s\<lparr>m_rreqCount := m_rreqCount s + 1\<rparr>)"
begin

lemma I_search_known: "I s \<Longrightarrow> Q rt \<Longrightarrow> I (snd (snd (search_known E rt h s)))"
  by (auto simp: search_known_def Let_def same_links_def entry_edits intro!: I_update elim!: Q_search)

lemma I_search_new: "I s \<Longrightarrow> K (Key dst) \<Longrightarrow> I (snd (snd (search_new E dst h s)))"
  by (auto simp: search_new_def Let_def IncrementRreqCnt_def RoutingTableEntry_new_def I_any
      intro!: I_add Q_searched)

lemma I_ScheduleRreqRetry:
  assumes "I s" "K (Key dst)"
  shows "pred_option I (ScheduleRreqRetry E dst s)"
  unfolding ScheduleRreqRetry_def Let_def
  by (rule pres_lookup [OF assms(1)])
    (auto intro!: pres_bind [OF pres_True] I_timers simp: assms(2) dest!: kept_keys simp del: bind_split)

lemma I_SendRequest:
  assumes "I s" "K (Key dst)"
  shows "pred_option I (SendRequest E dst s)"
proof (cases "m_rreqCount s = m_rreqRateLimit (par s)")
  case True
  with assms show ?thesis by (auto simp: SendRequest_def intro: I_later)
next
  case False
  let ?s = "s\<lparr>m_rreqCount := m_rreqCount s + 1\<rparr>" and ?h = "(RreqHeader_new E)\<lparr>rq_dst := dst\<rparr>"
  obtain r s1 where l: "lookup E dst ?s = (r, s1)" by fastforce
  with I_rreqCount [OF assms(1) False] have 1: "I s1" "\<And>e. r = Some e \<Longrightarrow> Q e" using I_lookup by blast+
  obtain ttl h s2 where sk: "(case r of Some rt \<Rightarrow> search_known E rt ?h s1
      | None \<Rightarrow> search_new E dst ?h s1) = (ttl, h, s2)"
    by (metis prod_cases3)
  with 1 I_search_known [of s1 _ ?h] I_search_new [of s1 dst ?h] assms(2) have "I s2"
    by (auto split: option.splits) force+
  with l sk False assms(2) show ?thesis
    by (auto simp: SendRequest_def Let_def intro!: I_ScheduleRreqRetry I_fold I_send_rreq_on
        I_requestId I_seqNo)
qed

lemma I_finish_discovery:
  assumes "I s" "Q e"
  shows "I (finish_discovery E dst e toDst s)"
proof -
  let ?s = "if m_flag toDst = IN_SEARCH
            then (update_route e s)\<lparr>m_addressReqTimer := smap_erase dst (m_addressReqTimer s)\<rparr> else s"
  have "m_addressReqTimer (update_route e s) = m_addressReqTimer s"
    by (simp add: update_route_def)
  with assms have "I ?s" by (auto intro!: I_timers I_update dest!: kept_keys)
  then show ?thesis
    unfolding finish_discovery_def Let_def by (rule keep_lookup) (rule I_SendPacketFromQueue)
qed

lemma I_stop_search: "I s \<Longrightarrow> I (stop_search E dst s)"
  by (auto simp: stop_search_def Let_def intro!: I_drop_queued I_delete I_timers dest!: kept_keys)

lemma I_RouteRequestTimerExpire:
  assumes "I s" "K (Key dst)"
  shows "pred_option I (RouteRequestTimerExpire E dst s)"
  unfolding RouteRequestTimerExpire_def Let_def
  by (rule pres_lookup_valid [OF assms(1)])
    (auto intro!: I_SendRequest I_SendPacketFromQueue I_stop_search assms(2))

end

sublocale search_client \<subseteq> agent_client Q K A R E I I
  by unfold_locales (auto intro: I_SendRequest I_finish_discovery)

subsection \<open>Configuration\<close>

locale config_client = route_client Q K A R E I for Q :: "rte \<Rightarrow> bool" and K A R and E :: ns3 and I :: "rp \<Rightarrow> bool" +
  assumes I_htimer: "I s \<Longrightarrow> I (s\<lparr>m_htimer := tm\<rparr>)"
    and I_limit_timers: "I s \<Longrightarrow> tm = m_rreqRateLimitTimer s \<or> tm_started tm \<Longrightarrow>
      tm' = m_rerrRateLimitTimer s \<or> tm_started tm' \<Longrightarrow>
      I (s\<lparr>m_rreqRateLimitTimer := tm, m_rerrRateLimitTimer := tm'\<rparr>)"
    and I_created: "I s \<Longrightarrow> I (s\<lparr>created := n\<rparr>)"
    and I_lo: "I s \<Longrightarrow> I (s\<lparr>m_lo := d\<rparr>)"
    and I_ipv4: "I s \<Longrightarrow> I (s\<lparr>m_ipv4 := True\<rparr>)"
    and I_clear: "I s \<Longrightarrow> I (s\<lparr>m_routingTable := RoutingTable_Clear (m_routingTable s)\<rparr>)"
    and I_delete_from: "I s \<Longrightarrow> I (delete_routes_from i s)"
    and I_sockets: "I s \<Longrightarrow> (smap_inv (m_socketAddresses s) \<Longrightarrow> smap_inv m) \<Longrightarrow>
      m_ipv4 s \<or> set m \<subseteq> set (m_socketAddresses s) \<Longrightarrow> I (s\<lparr>m_socketAddresses := m\<rparr>)"
    and I_subnet_sockets: "I s \<Longrightarrow>
      (smap_inv (m_socketSubnetBroadcastAddresses s) \<Longrightarrow> smap_inv m) \<Longrightarrow>
      I (s\<lparr>m_socketSubnetBroadcastAddresses := m\<rparr>)"
    and I_dispose: "I s \<Longrightarrow> I (DoDispose s)"
    and K_configured [simp]: "K (Over i)"
    and I_par: "I s \<Longrightarrow> m_rreqRateLimit p = m_rreqRateLimit (par s) \<Longrightarrow> m_rerrRateLimit p = m_rerrRateLimit (par s) \<Longrightarrow>
      m_maxQueueLen p = m_maxQueueLen (par s) \<Longrightarrow> I (s\<lparr>par := p\<rparr>)"
begin

lemma I_HelloTimerExpire: "I s \<Longrightarrow> I (HelloTimerExpire E s)"
  by (auto simp: HelloTimerExpire_def Let_def intro!: I_lastBcast I_htimer I_SendHello)

text \<open>The expiry of a limit's timer and the handler that starts it again are one change.\<close>

lemma I_rerr_limit: "I s \<Longrightarrow> I (RerrRateLimitTimerExpire (expire EvRerrLimitTimer s))"
  using I_limit_timers [where s = "s\<lparr>m_rerrCount := 0\<rparr>" and tm = "m_rreqRateLimitTimer s"
      and tm' = "m_rerrRateLimitTimer s @ [TmExpire, TmSchedule (Some (Seconds 1))]"]
  by (auto simp: RerrRateLimitTimerExpire_def dest: I_rerrCount)

lemma I_Start: "I s \<Longrightarrow> I (Start s)"
  by (auto simp: Start_def Let_def Neighbors_ScheduleTimer_def Neighbors_inv_def
      intro!: I_limit_timers I_nb)

lemma I_DoInitialize: "I s \<Longrightarrow> I (DoInitialize E s)"
  by (auto simp: DoInitialize_def draw_def Let_def intro!: I_htimer I_draws)

lemma I_AssignStreams: "I s \<Longrightarrow> I (snd (AssignStreams n s))"
  by (simp add: AssignStreams_def I_emit)

lemma I_SetIpv4: "I s \<Longrightarrow> K (Key (ip4 127 0 0 1)) \<Longrightarrow> pred_option I (SetIpv4 E s)"
  by (auto simp: SetIpv4_def Let_def simp del: One_nat_def intro!: I_emit I_add Q_RoutingTableEntry_new I_lo I_ipv4)

lemma I_open_socket: "I s \<Longrightarrow> I (snd (open_socket E i a b s))"
  by (auto simp: open_socket_def Let_def intro!: I_emit I_created)

lemma open_socket_other [simp]:
  "m_ipv4 (snd (open_socket E i a b s)) = m_ipv4 s"
  "m_socketAddresses (snd (open_socket E i a b s)) = m_socketAddresses s"
  "m_socketSubnetBroadcastAddresses (snd (open_socket E i a b s)) = m_socketSubnetBroadcastAddresses s"
  by (simp_all add: open_socket_def Let_def emit_def)

lemma I_open_interface:
  assumes "I s" "m_ipv4 s" "K (Key (ia_broadcast (ip_address (stack E) i)))"
  shows "I (open_interface E i b s)"
  unfolding open_interface_def Let_def split_beta
  using assms by (intro I_add Q_RoutingTableEntry_new K_configured I_subnet_sockets I_open_socket I_sockets) auto

lemma I_NotifyInterfaceUp:
  "I s \<Longrightarrow> K (Key (ia_broadcast (ip_address (stack E) i))) \<Longrightarrow> pred_option I (NotifyInterfaceUp E i s)"
  by (auto simp: NotifyInterfaceUp_def Let_def Neighbors_AddArpCache_def Neighbors_inv_def
      split: option.split intro!: I_emit I_nb I_open_interface)

lemma I_no_interfaces:
  assumes "I s"
  shows "I (no_interfaces s)"
proof -
  have "I (s\<lparr>m_htimer := m_htimer s @ [TmCancel], rp_nb := Neighbors_Clear (rp_nb s)\<rparr>)"
    using I_htimer [OF assms] by (rule I_nb) (rule Neighbors_Clear_inv)
  from I_clear [OF this] show ?thesis by (simp add: no_interfaces_def)
qed

lemma DelArpCache_inv: "Neighbors_inv nb \<Longrightarrow> Neighbors_inv (Neighbors_DelArpCache a nb)"
  by (simp add: Neighbors_DelArpCache_def Neighbors_inv_def)

lemma I_NotifyInterfaceDown:
  assumes "I s"
  shows "pred_option I (NotifyInterfaceDown E i s)"
proof -
  have arp: "I s \<Longrightarrow> I (s\<lparr>rp_nb := Neighbors_DelArpCache a (rp_nb s)\<rparr>)" for s a
    by (rule I_nb) (auto intro: DelArpCache_inv)
  show ?thesis
    unfolding NotifyInterfaceDown_def Let_def
    using assms
    by (intro pres_if pres_bind [where Q = I] pres_bind [OF pres_True] pres_Some arp I_emit)
      (auto intro!: I_no_interfaces I_delete_from I_subnet_sockets I_sockets I_emit smap_inv_erase
        simp: smap_erase_def simp del: bind_split)
qed

lemma I_NotifyAddAddress:
  "I s \<Longrightarrow> K (Key (ia_broadcast (ip_address (stack E) i))) \<Longrightarrow> pred_option I (NotifyAddAddress E i a s)"
  by (auto simp: NotifyAddAddress_def Let_def split: option.split intro!: I_open_interface)

lemma I_erase_socket:
  "I s \<Longrightarrow> I ((emit (SockClose u) s)\<lparr>m_socketAddresses := smap_erase k (m_socketAddresses s)\<rparr>)"
proof -
  assume "I s"
  then have "I (emit (SockClose u) s)" by (rule I_emit) simp
  moreover have "m_socketAddresses (emit (SockClose u) s) = m_socketAddresses s" by (simp add: emit_def)
  ultimately show ?thesis by (intro I_sockets) (auto simp: smap_erase_def)
qed

lemma I_NotifyRemoveAddress:
  assumes "I s" "K (Key (ia_broadcast (ip_address (stack E) i)))"
  shows "pred_option I (NotifyRemoveAddress E i a s)"
proof (cases "FindSocketWithInterfaceAddress a s")
  case None
  with assms show ?thesis by (simp add: NotifyRemoveAddress_def)
next
  case (Some k)
  let ?s = "delete_routes_from a s"
  let ?s1 = "(emit (SockClose k) ?s)
      \<lparr>m_socketAddresses := smap_erase k (m_socketAddresses (emit (SockClose k) ?s))\<rparr>"
  let ?s2 = "case FindSubnetBroadcastSocketWithInterfaceAddress a ?s1 of
      Some u \<Rightarrow> (emit (SockClose u) ?s1)\<lparr>m_socketAddresses := smap_erase u (m_socketAddresses ?s1)\<rparr>
    | None \<Rightarrow> ?s1"
  have "m_socketAddresses (emit (SockClose k) ?s) = m_socketAddresses ?s" by (simp add: emit_def)
  then have "I ?s1" using assms I_erase_socket [OF I_delete_from] by simp
  then have "I ?s2"
    by (cases "FindSubnetBroadcastSocketWithInterfaceAddress a ?s1")
      (simp_all only: option.case I_erase_socket)
  moreover have "pred_option I (if \<not> m_ipv4 s then None
      else Some (if m_socketAddresses (if b then open_interface E i True s else s) = []
                 then no_interfaces (if b then open_interface E i True s else s)
                 else (if b then open_interface E i True s else s)))"
    if "I s" for s b
    using that assms(2) by (auto intro!: I_no_interfaces I_open_interface)
  ultimately show ?thesis
    using Some unfolding NotifyRemoveAddress_def Let_def by (simp only: option.case)
qed

end

subsection \<open>All events\<close>

text \<open>What an event may make the agent write: the sender and the content of a message, the destination of
  a packet it may search a route for, and the broadcast address of an interface.\<close>

fun admitted :: "(written \<Rightarrow> bool) \<Rightarrow> ns3 \<Rightarrow> event \<Rightarrow> bool" where
  "admitted K E (EvRecv k p a) \<longleftrightarrow> K (Key a) \<and> K (Hop a) \<and> datagram_ok K (wire E) (pk_bytes p)"
| "admitted K E (EvRouteInput p h idev ucb lcb ecb) \<longleftrightarrow> K (Key (ih_destination h))"
| "admitted K E EvSetIpv4 \<longleftrightarrow> K (Key (ip4 127 0 0 1))"
| "admitted K E (EvInterfaceUp i) \<longleftrightarrow> K (Key (ia_broadcast (ip_address (stack E) i)))"
| "admitted K E (EvAddAddress i a) \<longleftrightarrow> K (Key (ia_broadcast (ip_address (stack E) i)))"
| "admitted K E (EvRemoveAddress i a) \<longleftrightarrow> K (Key (ia_broadcast (ip_address (stack E) i)))"
| "admitted K E _ \<longleftrightarrow> True"

lemma admitted_free [simp]: "admitted free E ev"
  by (cases ev) simp_all

text \<open>The events but the timer that lets requests be sent again.\<close>

locale window_client = agent_client Q K A R E I J + config_client Q K A R E I
  for Q :: "rte \<Rightarrow> bool" and K A R and E :: ns3 and I J :: "rp \<Rightarrow> bool" +
  assumes I_receiver: "I s \<Longrightarrow> receiver_of k s = Some b \<Longrightarrow> R b"
    and J_run_request: "I s \<Longrightarrow> due (SchedRequest d dst) (log s) \<Longrightarrow>
      pred_option J (SendRequest E dst (emit (Ran (SchedRequest d dst)) s))"
    and J_retry: "I s \<Longrightarrow> enabled (EvRreqTimer dst) s \<Longrightarrow>
      pred_option J (RouteRequestTimerExpire E dst (expire (EvRreqTimer dst) s))"
    and I_started: "I s \<Longrightarrow> due SchedStart (log s) \<Longrightarrow> I (Start (emit (Ran SchedStart) s))"
    and I_send_to: "I s \<Longrightarrow> due (SchedSend d k p a) (log s) \<Longrightarrow>
      I (SendTo k p a (emit (Ran (SchedSend d k p a)) s))"
begin

lemma I_flags:
  assumes "I s"
  shows "I (SetGratuitousReplyFlag f s)" "I (SetDestinationOnlyFlag f s)" "I (SetHelloEnable f s)"
    "I (SetBroadcastEnable f s)" "I (SetMaxQueueTime t s)"
proof -
  have "I (s\<lparr>par := (par s)\<lparr>m_maxQueueTime := t\<rparr>\<rparr>)"
    using assms by (rule I_par) simp_all
  then have "I (s\<lparr>par := (par s)\<lparr>m_maxQueueTime := t\<rparr>, rp_queue := RequestQueue_SetQueueTimeout t (rp_queue s)\<rparr>)"
    by (rule I_queue) (simp_all add: RequestQueue_inv_def queue_bounded_def RequestQueue_SetQueueTimeout_def)
  then show "I (SetMaxQueueTime t s)" by (simp add: SetMaxQueueTime_def)
qed (use assms in \<open>auto simp: SetGratuitousReplyFlag_def SetDestinationOnlyFlag_def SetHelloEnable_def
      SetBroadcastEnable_def intro!: I_par\<close>)

lemmas I_handlers =
  I_DoInitialize I_dispose I_NotifyInterfaceUp I_NotifyInterfaceDown
  I_NotifyAddAddress I_NotifyRemoveAddress I_nb_purge I_NotifyTxError I_AssignStreams I_flags

lemma J_window:
  assumes "I s" and "enabled ev s" and "\<And>a t. ev = EvAckTimer a t \<Longrightarrow> J (AckTimerExpire a t s)"
    and "\<And>n. ev = EvSetMaxQueueLen n \<Longrightarrow> J (SetMaxQueueLen n s)"
    and "admitted K E ev" and "ev \<noteq> EvRreqLimitTimer"
  shows "pred_option J (handle E ev (expire ev s))"
proof (cases ev)
  case (EvRreqTimer dst)
  with assms J_retry show ?thesis by simp
next
  case EvRerrLimitTimer
  with I_rerr_limit [OF assms(1)] show ?thesis by (simp add: J_I)
next
  case EvHelloTimer
  with assms(1) show ?thesis by (simp add: J_I I_HelloTimerExpire I_htimer)
next
  case (EvRouteOutput p h oif)
  then show ?thesis using I_RouteOutput [OF assms(1), of p h oif] J_I
    by (auto simp: option.pred_map comp_def intro: option.pred_mono_strong)
next
  case (EvRouteInput p h idev ucb lcb ecb)
  then show ?thesis using J_RouteInput [OF assms(1)] assms(5) by (simp add: option.pred_map comp_def)
next
  case (EvRecv k p a)
  then show ?thesis using J_RecvMadaodv [OF assms(1)] I_receiver [OF assms(1)] assms(5) by simp
next
  case EvSetIpv4
  then show ?thesis using J_pred [OF I_SetIpv4 [OF assms(1)]] assms(5) by (simp del: One_nat_def)
qed (use assms in \<open>simp_all add: I_handlers J_pred J_I I_started I_send_to J_run_request\<close>)

end

locale node_client = window_client Q K A R E I J
  for Q :: "rte \<Rightarrow> bool" and K A R and E :: ns3 and I J :: "rp \<Rightarrow> bool" +
  assumes I_rreq_reset: "I s \<Longrightarrow> I (s\<lparr>m_rreqCount := 0\<rparr>)"
begin

lemma I_rreq_limit: "I s \<Longrightarrow> I (RreqRateLimitTimerExpire (expire EvRreqLimitTimer s))"
  using I_limit_timers [where s = "s\<lparr>m_rreqCount := 0\<rparr>" and tm' = "m_rerrRateLimitTimer s"
      and tm = "m_rreqRateLimitTimer s @ [TmExpire, TmSchedule (Some (Seconds 1))]"]
  by (auto simp: RreqRateLimitTimerExpire_def dest: I_rreq_reset)

lemma J_handle:
  assumes "I s" and "enabled ev s" and "\<And>a t. ev = EvAckTimer a t \<Longrightarrow> J (AckTimerExpire a t s)"
    and "\<And>n. ev = EvSetMaxQueueLen n \<Longrightarrow> J (SetMaxQueueLen n s)"
    and "admitted K E ev"
  shows "pred_option J (handle E ev (expire ev s))"
proof (cases "ev = EvRreqLimitTimer")
  case True
  with I_rreq_limit [OF assms(1)] show ?thesis by (simp add: J_I)
next
  case False
  with assms show ?thesis by (intro J_window)
qed

lemma J_agent_step:
  assumes "agent_step E ev s s'" "I s" and "\<And>a t. ev = EvAckTimer a t \<Longrightarrow> J (AckTimerExpire a t s)"
    and "\<And>n. ev = EvSetMaxQueueLen n \<Longrightarrow> J (SetMaxQueueLen n s)"
    and "admitted K E ev"
  shows "J s'"
  using assms(1) J_handle [of s ev] assms(2-) by (auto elim!: agent_stepE)

end

locale full_client = search_client Q K A R E I + config_client Q K A R E I
  for Q :: "rte \<Rightarrow> bool" and K A R and E :: ns3 and I :: "rp \<Rightarrow> bool" +
  assumes I_heard: "I s \<Longrightarrow> receiver_of k s = Some b \<Longrightarrow> R b"
    and I_SendTo: "I s \<Longrightarrow> SchedSend d k p a \<in> set (log s) \<Longrightarrow> I (SendTo k p a s)"
    and I_due: "I s \<Longrightarrow> due (SchedRequest d dst) (log s) \<Longrightarrow> K (Key dst)"
    and I_searched: "I s \<Longrightarrow> dst \<in> fst ` set (m_addressReqTimer s) \<Longrightarrow> K (Key dst)"
    and I_ran: "I s \<Longrightarrow> due x (log s) \<Longrightarrow> I (emit (Ran x) s)"
    and I_reset: "I s \<Longrightarrow> I (s\<lparr>m_rreqCount := 0\<rparr>)"

sublocale full_client \<subseteq> node_client Q K A R E I I
proof unfold_locales
  fix s d dst
  assume "I s" "due (SchedRequest d dst) (log s)"
  then show "pred_option I (SendRequest E dst (emit (Ran (SchedRequest d dst)) s))"
    by (intro I_SendRequest I_ran I_due)
next
  fix s dst
  assume s: "I s" "enabled (EvRreqTimer dst) s"
  then have k: "K (Key dst)" using I_searched [OF s(1)] map_of_notin_None [of dst "m_addressReqTimer s"]
    by fastforce
  with s(1) have "I (expire (EvRreqTimer dst) s)"
    by (auto intro!: I_timers dest!: kept_keys split: option.split)
  with k show "pred_option I (RouteRequestTimerExpire E dst (expire (EvRreqTimer dst) s))"
    by (intro I_RouteRequestTimerExpire)
next
  fix s d k p a
  assume I: "I s" and d: "due (SchedSend d k p a) (log s)"
  then have "SchedSend d k p a \<in> set (log (emit (Ran (SchedSend d k p a)) s))"
    by (auto simp: emit_def dest: due_mem)
  with I d show "I (SendTo k p a (emit (Ran (SchedSend d k p a)) s))"
    by (intro I_SendTo I_ran)
qed (auto intro: I_heard I_ran I_reset I_Start)

subsection \<open>The frame of the handlers\<close>

text \<open>No handler of messages and data changes the parameters, the interfaces, the rate limiters'
  timers or the configuration of the table and the caches, and the log only grows.\<close>

definition same_config :: "rp \<Rightarrow> rp \<Rightarrow> bool" where
  "same_config s s' \<longleftrightarrow>
     par s' = par s \<and> m_ipv4 s' = m_ipv4 s \<and> m_lo s' = m_lo s \<and>
     m_socketAddresses s' = m_socketAddresses s \<and>
     m_socketSubnetBroadcastAddresses s' = m_socketSubnetBroadcastAddresses s \<and>
     m_badLinkLifetime (m_routingTable s') = m_badLinkLifetime (m_routingTable s) \<and>
     (\<exists>es. log s' = log s @ es)"

lemma list_via_state:
  "snd (list_via E a s) = s\<lparr>m_routingTable :=
     snd (RoutingTable_GetListOfDestinationWithNextHop (now E) a (m_routingTable s))\<rparr>"
  by (simp add: list_via_def split: prod.split)

lemmas agent_ops =
  lookup_def list_via_state invalidate_routes_def emit_def update_route_def add_route_def
  delete_route_def RoutingTable_LookupRoute_def

interpretation config: search_client free free free free E "same_config s0"
  rewrites "\<And>P. (True \<Longrightarrow> P) \<equiv> Trueprop P"
  by unfold_locales (auto simp: same_config_def agent_ops Let_def split: prod.splits)

lemma same_config_refl [simp]: "same_config s s"
  by (simp add: same_config_def)

end
