(* ===== verification/Protocol_Machine.thy ===== *)
theory Protocol_Machine
  imports Protocol_Frame
begin

text \<open>
  The invariants of the components hold in all states a run of the agent reaches.
\<close>

subsection \<open>The invariant of the components\<close>

definition rp_inv :: "rp \<Rightarrow> bool" where
  "rp_inv s \<longleftrightarrow>
     entries_all rte_ok (m_routingTable s) \<and> 0 \<le> m_badLinkLifetime (m_routingTable s) \<and>
     RequestQueue_inv (rp_queue s) \<and>
     Neighbors_inv (rp_nb s) \<and> IdCache_inv (m_rreqIdCache s) \<and> IdCache_inv (m_dpd s) \<and>
     smap_inv (m_socketAddresses s) \<and> smap_inv (m_socketSubnetBroadcastAddresses s) \<and>
     smap_inv (m_addressReqTimer s) \<and> m_rreqCount s \<le> m_rreqRateLimit (par s) \<and>
     m_rerrCount s \<le> m_rerrRateLimit (par s) \<and>
     m_maxLen (rp_queue s) = m_maxQueueLen (par s) \<and>
     (m_socketAddresses s \<noteq> [] \<longrightarrow> m_ipv4 s)"

lemma rte_ok_settled: "distinct (m_precursorList rt) \<Longrightarrow> rte_ok (GetDestination rt) (settled rt)"
  by (simp add: rte_ok_def settled_def)

lemma word_less_Suc_le: "a \<le> b \<Longrightarrow> a \<noteq> b \<Longrightarrow> a + 1 \<le> (b :: 'a::len word)"
  by (metis inc_le order_le_less)

interpretation good: full_client "\<lambda>e. distinct (m_precursorList e)" free free free E rp_inv
  rewrites "\<And>P. (True \<Longrightarrow> P) \<equiv> Trueprop P"
proof unfold_locales
  fix s i r s'
  assume "rp_inv s" and l: "lookup E i s = (r, s')"
  then have "entries_all rte_ok (m_routingTable s)" by (simp add: rp_inv_def)
  with l have "entries_all rte_ok (m_routingTable s')" "\<forall>e. r = Some e \<longrightarrow> rte_ok i e"
    using ok.inv_LookupRoute [of "m_routingTable s" "now E" i]
    by (auto simp: lookup_def split: prod.splits)
  with l \<open>rp_inv s\<close> show "rp_inv s' \<and> (\<forall>e. r = Some e \<longrightarrow> distinct (m_precursorList e))"
    by (auto simp: rp_inv_def rte_ok_def lookup_def RoutingTable_LookupRoute_def Let_def)
qed (auto simp: same_core_simps InsertPrecursor_def LookupPrecursor_def rp_inv_def list_via_state
    invalidate_routes_def emit_def update_route_def add_route_def delete_route_def
    delete_routes_from_def DoDispose_def emits_def SendTo_def Let_def
    intro: ok.inv_GetList ok.inv_InvalidateRoutesWithDst ok.inv_Update ok.inv_AddRoute
      ok.inv_DeleteRoute ok.inv_Clear ok.inv_DeleteAllRoutesFromInterface rte_ok_settled
      word_less_Suc_le)

lemmas construction =
  configured_def attribute_defaults_def RoutingProtocol_new_def initial_params_def SetMaxQueueLen_def
  SetMaxQueueTime_def RequestQueue_SetMaxQueueLen_def RequestQueue_SetQueueTimeout_def
  SetGratuitousReplyFlag_def SetDestinationOnlyFlag_def SetHelloEnable_def SetBroadcastEnable_def

lemma rp_inv_configured: "rp_inv (configured b p)"
  by (simp add: rp_inv_def construction Let_def ok.inv_new [unfolded RoutingTable_new_def] RequestQueue_inv_def RequestQueue_new_def
      Neighbors_inv_new IdCache_inv_new time_units RoutingTable_new_def)

lemma rp_inv_ack: "rp_inv s \<Longrightarrow> rp_inv (AckTimerExpire a t s)"
  by (auto simp: rp_inv_def AckTimerExpire_def rte_ok_def intro!: ok.inv_MarkLink)
    (auto simp: RoutingTable_MarkLinkAsUnidirectional_def split: option.split)

lemma rp_inv_limit: "rp_inv s \<Longrightarrow> rp_inv (SetMaxQueueLen n s)"
  by (simp add: rp_inv_def SetMaxQueueLen_def RequestQueue_SetMaxQueueLen_def RequestQueue_inv_def)

lemma reachable_inv: "reachable C b p t s \<Longrightarrow> rp_inv s"
proof (induction rule: reachable.induct)
  case reachable_init
  show ?case by (rule rp_inv_configured)
next
  case (reachable_step t s E ev s')
  then show ?case by (auto intro: good.J_agent_step rp_inv_ack rp_inv_limit)
qed

text \<open>The queue stays within its limit, unless the limit is set below its length.\<close>

interpretation within: full_client free free free free E "\<lambda>s. queue_bounded (rp_queue s)"
  rewrites "\<And>P. (True \<Longrightarrow> P) \<equiv> Trueprop P"
  by unfold_locales
    (auto simp: agent_ops delete_routes_from_def DoDispose_def emits_def SendTo_def Let_def)

lemma queue_bounded_configured: "queue_bounded (rp_queue (configured b p))"
  by (simp add: queue_bounded_def construction RequestQueue_new_def Let_def)

lemma queue_bounded_step:
  assumes "agent_step E ev s s'" and "queue_bounded (rp_queue s)"
    and "\<And>n. ev = EvSetMaxQueueLen n \<Longrightarrow> length (m_queue (rp_queue s)) \<le> unat n"
  shows "queue_bounded (rp_queue s')"
  using within.J_agent_step [OF assms(1,2)] assms(2,3)
  by (auto simp: AckTimerExpire_def SetMaxQueueLen_def RequestQueue_SetMaxQueueLen_def queue_bounded_def)

text \<open>No acknowledgement is waited for, and nobody is on the blacklist.\<close>

definition quiet :: "rte \<Rightarrow> bool" where
  "quiet e \<longleftrightarrow> \<not> m_blackListState e \<and> \<not> tm_started (m_ackTimer e)"

definition no_blacklist :: "rp \<Rightarrow> bool" where
  "no_blacklist s \<longleftrightarrow> entries_all (\<lambda>_. quiet) (m_routingTable s)"

interpretation qt: entry_invariant "\<lambda>_. quiet"
  by unfold_locales (auto simp: quiet_def Invalidate_def)

lemma quiet_edits:
  "quiet e \<Longrightarrow> same_core K e e' \<Longrightarrow> quiet e'"
  "quiet e \<Longrightarrow> same_links e e' \<Longrightarrow> quiet e'"
  "quiet e \<Longrightarrow> quiet (snd (InsertPrecursor a e))"
  "quiet e \<Longrightarrow> quiet (e\<lparr>m_ackTimer := m_ackTimer e @ [TmCancel], m_flag := VALID\<rparr>)"
  "\<not> m_blackListState e \<Longrightarrow> m_ackTimer e = [] \<Longrightarrow> quiet e"
  "quiet e \<Longrightarrow> quiet (settled e)"
  by (simp_all add: quiet_def same_core_simps InsertPrecursor_def settled_def tm_started_def)

interpretation quiet: full_client quiet free free free E no_blacklist
  rewrites "\<And>P. (True \<Longrightarrow> P) \<equiv> Trueprop P"
proof unfold_locales
  fix s i r s'
  assume "no_blacklist s" and l: "lookup E i s = (r, s')"
  then show "no_blacklist s' \<and> (\<forall>e. r = Some e \<longrightarrow> quiet e)"
    using qt.inv_LookupRoute [of "m_routingTable s" "now E" i]
    by (auto simp: no_blacklist_def lookup_def split: prod.splits)
qed (auto simp: no_blacklist_def list_via_state invalidate_routes_def emit_def update_route_def
    add_route_def delete_route_def delete_routes_from_def DoDispose_def emits_def SendTo_def Let_def
    intro: quiet_edits qt.inv_GetList qt.inv_InvalidateRoutesWithDst qt.inv_Update qt.inv_AddRoute
      qt.inv_DeleteRoute qt.inv_Clear qt.inv_DeleteAllRoutesFromInterface)

lemma no_blacklist_configured: "no_blacklist (configured b p)"
  by (simp add: no_blacklist_def construction Let_def qt.inv_new)

lemma no_ack_enabled: "no_blacklist s \<Longrightarrow> \<not> enabled (EvAckTimer a t) s"
  by (auto simp: no_blacklist_def entries_all_def quiet_def smap_inv_distinct)

text \<open>What the constructor set in the table and the caches stays, whatever the attributes.\<close>

definition factory_settings :: "rp \<Rightarrow> bool" where
  "factory_settings s \<longleftrightarrow>
     m_badLinkLifetime (m_routingTable s) = Seconds 15 \<and>
     m_lifetime (m_rreqIdCache s) = MilliSeconds 5600 \<and> m_lifetime (m_dpd s) = MilliSeconds 5600"

interpretation fs: full_client free free free free E factory_settings
  rewrites "\<And>P. (True \<Longrightarrow> P) \<equiv> Trueprop P"
  by unfold_locales
    (auto simp: factory_settings_def agent_ops delete_routes_from_def DoDispose_def emits_def SendTo_def Let_def)

lemma factory_settings_configured: "factory_settings (configured b p)"
  by (simp add: factory_settings_def construction Let_def RoutingTable_new_def IdCache_new_def time_units)

lemma factory_settings_ack: "factory_settings s \<Longrightarrow> factory_settings (AckTimerExpire a t s)"
  by (auto simp: factory_settings_def AckTimerExpire_def RoutingTable_MarkLinkAsUnidirectional_def
      split: option.split)

end
