(* ===== verification/Machine_Props.thy ===== *)
theory Machine_Props
  imports Protocol_Machine
begin

text \<open>
  What holds in every reachable state of an agent, and what no message or data event changes.
\<close>

subsection \<open>A run\<close>

text \<open>The concrete agent of the witnesses: IPv4 is set and the wireless interface comes up.\<close>

definition example_params :: params where
  "example_params = (initial_params True)\<lparr>m_enableHello := True\<rparr>"

definition example_start :: rp where
  "example_start = the (SetIpv4 (example_env 0) (configured True example_params))"

definition example_agent :: rp where
  "example_agent = the (NotifyInterfaceUp (example_env 0) 1 example_start)"

lemmas run_defs =
  example_params_def example_start_def example_agent_def configured_def attribute_defaults_def
  RoutingProtocol_new_def initial_params_def SetMaxQueueLen_def SetMaxQueueTime_def
  SetGratuitousReplyFlag_def SetDestinationOnlyFlag_def SetHelloEnable_def SetBroadcastEnable_def
  RequestQueue_new_def RequestQueue_SetMaxQueueLen_def RequestQueue_SetQueueTimeout_def
  RoutingTable_new_def IdCache_new_def Neighbors_new_def time_units SetIpv4_def NotifyInterfaceUp_def
  open_interface_def open_socket_def add_route_def RoutingTable_AddRoute_def RoutingTable_Purge_def
  RoutingTableEntry_new_def GetLifeTime_def example_env_def example_stack_def example_iface_def
  emit_def Neighbors_AddArpCache_def smap_insert_def ip4_def

lemma example_start_eq: "SetIpv4 (example_env 0) (configured True example_params) = Some example_start"
  by (simp add: example_start_def SetIpv4_def configured_def attribute_defaults_def Let_def
      SetMaxQueueLen_def SetMaxQueueTime_def SetGratuitousReplyFlag_def SetDestinationOnlyFlag_def
      SetHelloEnable_def SetBroadcastEnable_def RoutingProtocol_new_def example_stack_def)

lemma example_start_ipv4 [simp]: "m_ipv4 example_start"
  by (simp add: example_start_def SetIpv4_def configured_def attribute_defaults_def Let_def
      SetMaxQueueLen_def SetMaxQueueTime_def SetGratuitousReplyFlag_def SetDestinationOnlyFlag_def
      SetHelloEnable_def SetBroadcastEnable_def RoutingProtocol_new_def example_stack_def
      add_route_def emit_def)

lemma example_agent_eq: "NotifyInterfaceUp (example_env 0) 1 example_start = Some example_agent"
  by (simp add: example_agent_def NotifyInterfaceUp_def Let_def)

lemma example_agent_fields:
  "m_socketAddresses example_agent = [(0, example_iface)]"
  "m_socketSubnetBroadcastAddresses example_agent = [(1, example_iface)]"
  "par example_agent = example_params" "m_lo example_agent = Some 0" "m_ipv4 example_agent"
  "rp_queue example_agent = \<lparr>m_queue = [], m_maxLen = 64, m_queueTimeout = Seconds 30\<rparr>"
  "m_rreqCount example_agent = 0" "m_lastBcastTime example_agent = 0"
  by (simp_all add: run_defs Let_def)

lemma example_reachable: "reachable be_codec True example_params 0 example_agent"
proof -
  have 1: "agent_step (example_env 0) EvSetIpv4 (configured True example_params) example_start"
    by (simp add: agent_step_iff example_start_eq)
  have 2: "agent_step (example_env 0) (EvInterfaceUp 1) example_start example_agent"
    by (simp add: agent_step_iff example_agent_eq)
  have "reachable be_codec True example_params (now (example_env 0)) example_agent"
    by (rule reachable_step [OF reachable_step [OF reachable_init _ _ 1] _ _ 2]) simp_all
  then show ?thesis by simp
qed

subsection \<open>Properties\<close>

text \<open>C1: in every reachable state, whatever the attributes the agent was given before the run, the events and
  the environment: the routing table is ordered, every entry lies under its own destination, lists no
  precursor twice and counts requests only while the route is searched for; the packet queue holds no
  packet twice and has the limit of the agent; the neighbour list has one record for each neighbour and a
  purge due while it is not empty; the duplicate caches hold no identifier twice; the counters of requests
  and of errors stay within their rate limits; and there are sockets only while IPv4 is set. The queue
  starts within its limit, and every event keeps it there but one: \<open>SetMaxQueueLen\<close> with a value below the
  number of packets that wait.\<close>

theorem reachable_invariant:
  assumes "reachable C b p t s"
  shows "rp_inv s \<and> queue_bounded (rp_queue (configured b p))
     \<and> (queue_bounded (rp_queue s) \<longrightarrow> agent_step E ev s s' \<longrightarrow>
         (\<forall>n. ev = EvSetMaxQueueLen n \<longrightarrow> length (m_queue (rp_queue s)) \<le> unat n) \<longrightarrow> queue_bounded (rp_queue s'))"
  using reachable_inv [OF assms] queue_bounded_configured queue_bounded_step by blast

theorem reachable_invariant_witness:
  "rp_inv example_agent \<and> m_socketAddresses example_agent \<noteq> []
   \<and> queue_bounded (rp_queue (SetMaxQueueLen 3 example_agent))"
proof -
  have "agent_step E (EvSetMaxQueueLen 3) example_agent (SetMaxQueueLen 3 example_agent)" for E
    by (simp add: agent_step_iff)
  with reachable_invariant [OF example_reachable, of "example_env 0" "EvSetMaxQueueLen 3" "SetMaxQueueLen 3 example_agent"]
  show ?thesis by (simp add: example_agent_fields queue_bounded_def)
qed

lemma reachable_no_blacklist: "reachable C b p t s \<Longrightarrow> no_blacklist s"
proof (induction rule: reachable.induct)
  case reachable_init
  show ?case by (rule no_blacklist_configured)
next
  case (reachable_step t s E ev s')
  then have "\<not> enabled (EvAckTimer a d) s" for a d by (intro no_ack_enabled)
  then have "ev \<noteq> EvAckTimer a d" for a d using reachable_step(4) by (auto simp: agent_step_iff)
  moreover have "no_blacklist (SetMaxQueueLen n s)" for n
    using reachable_step(5) by (simp add: no_blacklist_def SetMaxQueueLen_def)
  ultimately show ?case using quiet.J_agent_step [OF reachable_step(4,5)] by simp
qed

text \<open>C25: no link is ever put on the blacklist. In no reachable state an acknowledgement timer of a
  table entry has been started, so that \<open>AckTimerExpire\<close>, the only code that blacklists, never runs,
  and \<open>RecvRequest\<close> never meets a blacklisted neighbour.\<close>

theorem blacklist_is_unreachable:
  assumes "reachable C b p t s"
  shows "(\<forall>k e. route_of (m_routingTable s) k = Some e \<longrightarrow> \<not> m_blackListState e \<and> \<not> tm_started (m_ackTimer e))
       \<and> (\<forall>a d. \<not> enabled (EvAckTimer a d) s)"
  using reachable_no_blacklist [OF assms] no_ack_enabled [OF reachable_no_blacklist [OF assms]]
  by (auto simp: no_blacklist_def entries_all_def quiet_def)

theorem blacklist_is_unreachable_witness: "\<not> enabled (EvAckTimer 5 (Seconds 1)) example_agent"
  using blacklist_is_unreachable [OF example_reachable] by blast

text \<open>C38: the attributes \<open>DeletePeriod\<close> and \<open>PathDiscoveryTime\<close> never reach the components that were
  built from the constructor's values: whatever the attributes \<open>p\<close>, the routing table keeps invalid
  routes for 15 s, and both duplicate caches remember for 5.6 s.\<close>

theorem lifetimes_ignore_attributes:
  assumes "reachable C b p t s"
  shows "m_badLinkLifetime (m_routingTable s) = Seconds 15
       \<and> m_lifetime (m_rreqIdCache s) = MilliSeconds 5600 \<and> m_lifetime (m_dpd s) = MilliSeconds 5600"
proof -
  have "factory_settings s"
    using assms
  proof (induction rule: reachable.induct)
    case reachable_init
    show ?case by (rule factory_settings_configured)
  next
    case (reachable_step t s E ev s')
    moreover have "factory_settings (SetMaxQueueLen n s)" if "factory_settings s" for n
      using that by (simp add: factory_settings_def SetMaxQueueLen_def)
    ultimately show ?case by (auto intro: fs.J_agent_step factory_settings_ack)
  qed
  then show ?thesis by (simp add: factory_settings_def)
qed

theorem lifetimes_ignore_attributes_witness:
  "reachable be_codec True (example_params\<lparr>m_deletePeriod := 1\<rparr>) 0 (configured True (example_params\<lparr>m_deletePeriod := 1\<rparr>))
   \<and> m_badLinkLifetime (m_routingTable (configured True (example_params\<lparr>m_deletePeriod := 1\<rparr>))) = Seconds 15"
  using lifetimes_ignore_attributes [OF reachable_init [of be_codec True "example_params\<lparr>m_deletePeriod := 1\<rparr>"]]
  by (blast intro: reachable_init)

text \<open>The events that messages, data and their timers cause.\<close>

fun traffic_event :: "event \<Rightarrow> bool" where
  "traffic_event (EvRouteOutput p h oif) = True"
| "traffic_event (EvRouteInput p h idev ucb lcb ecb) = True"
| "traffic_event (EvRecv k p a) = True"
| "traffic_event (EvSendRequest d dst) = True"
| "traffic_event (EvSendTo d k p a) = True"
| "traffic_event (EvRreqTimer dst) = True"
| "traffic_event EvNeighborTimer = True"
| "traffic_event (EvTxError a) = True"
| "traffic_event _ = False"

text \<open>No packet, no control message and none of their timers changes the parameters, the
  interfaces and their sockets, the loopback device or the lifetime of bad links, and nothing that was
  done is undone: the effects are only appended to.\<close>

lemma traffic_keeps_configuration:
  assumes "traffic_event ev" and "handle E ev s = Some s'"
  shows "par s' = par s \<and> m_ipv4 s' = m_ipv4 s \<and> m_lo s' = m_lo s
       \<and> m_socketAddresses s' = m_socketAddresses s
       \<and> m_socketSubnetBroadcastAddresses s' = m_socketSubnetBroadcastAddresses s
       \<and> m_badLinkLifetime (m_routingTable s') = m_badLinkLifetime (m_routingTable s)
       \<and> (\<exists>es. log s' = log s @ es)"
proof -
  note config = config.I_RouteOutput config.J_RouteInput config.J_RecvMadaodv config.I_SendRequest config.I_RouteRequestTimerExpire config.I_nb_purge config.I_NotifyTxError
  have "pred_option (same_config s) (handle E ev s)"
    using assms(1) config [OF same_config_refl]
    by (cases ev) (simp_all add: option.pred_map comp_def same_config_def SendTo_def emit_def)
  with assms(2) show ?thesis by (simp add: same_config_def)
qed

text \<open>The defaults the constructor sets and those of the attributes agree in every parameter but
  one, \<open>EnableHello\<close>, which is off in the constructor and on as an attribute; \<open>EnableBroadcast\<close> has no
  initialiser in the constructor.\<close>

lemma constructor_and_attributes_agree:
  "par (attribute_defaults (RoutingProtocol_new b)) =
     (par (RoutingProtocol_new b))\<lparr>m_enableHello := True, m_enableBroadcast := True\<rparr>
   \<and> \<not> m_enableHello (par (RoutingProtocol_new b))
   \<and> m_enableBroadcast (par (RoutingProtocol_new b)) = b
   \<and> rp_queue (attribute_defaults (RoutingProtocol_new b)) = rp_queue (RoutingProtocol_new b)"
  by (simp add: construction Let_def RequestQueue_new_def time_units)

end
