(* ===== verification/Packet_Props.thy ===== *)
theory Packet_Props
  imports Packet_Format
begin

text \<open>
  The wire formats. \<open>wire_format\<close> is the contract of a header class: reading what was written gives
  back the header and leaves what follows it, and the size announced is the number of bytes. Its
  lemmas (no header is a proper prefix of another, two headers in sequence parse in sequence) hold
  for every header; the RERR header meets it up to 255 destinations.
\<close>

subsection \<open>The contract of a header\<close>

locale wire_format =
  fixes ser :: "'h \<Rightarrow> u8 list"
    and des :: "u8 list \<Rightarrow> ('h \<times> u8 list) option"
    and good :: "'h \<Rightarrow> bool"
    and sz :: "'h \<Rightarrow> nat"
  assumes des_ser: "good h \<Longrightarrow> des (ser h @ rest) = Some (h, rest)"
    and ser_size: "good h \<Longrightarrow> length (ser h) = sz h"
begin

lemma ser_prefix_free:
  assumes "good h" "good g" "ser h @ r = ser g @ q"
  shows "h = g \<and> r = q"
  using des_ser [OF assms(1), of r] des_ser [OF assms(2), of q] unfolding assms(3) by simp

lemma ser_inj: "good h \<Longrightarrow> good g \<Longrightarrow> ser h = ser g \<Longrightarrow> h = g"
  using ser_prefix_free [of h g "[]" "[]"] by simp

lemma ser_des_alone: "good h \<Longrightarrow> des (ser h) = Some (h, [])"
  using des_ser [of h "[]"] by simp

end

text \<open>Two headers one behind the other, as \<open>AddHeader\<close> builds a message and \<open>RemoveHeader\<close> takes it
  apart.\<close>

locale framed = tag: wire_format tser tdes tgood tsz + body: wire_format ser des good sz
  for tser :: "'t \<Rightarrow> u8 list" and tdes tgood tsz
  and ser :: "'h \<Rightarrow> u8 list" and des good sz
begin

lemma parse_frame:
  assumes "tgood t" "good h"
  shows "(do { (t', bs) \<leftarrow> tdes (tser t @ ser h @ rest); (h', bs) \<leftarrow> des bs; Some (t', h', bs) })
         = Some (t, h, rest)"
  using tag.des_ser [OF assms(1)] body.des_ser [OF assms(2)] by simp

end

subsection \<open>Reading back what the buffer holds\<close>

locale byte_order =
  fixes C :: codec
  assumes ok: "codec_ok C"
begin

lemma len_u32 [simp]: "length (put_u32 C w) = 4"
  using ok by (simp add: codec_ok_def)

lemma len_addr [simp]: "length (put_addr C a) = 4"
  using ok by (simp add: codec_ok_def)

lemma read_u32 [simp]: "ReadNtohU32 C (put_u32 C w @ bs) = Some (w, bs)"
  using ok by (simp add: ReadNtohU32_def codec_ok_def)

lemma read_addr [simp]: "ReadFrom C (put_addr C a @ bs) = Some (a, bs)"
  using ok by (simp add: ReadFrom_def codec_ok_def)

lemma rreq_des_ser: "RreqHeader_Deserialize C (RreqHeader_Serialize C h @ rest) = Some (h, rest)"
  by (cases h) (simp add: RreqHeader_Deserialize_def RreqHeader_Serialize_def
    RreqHeader_GetSerializedSize_def)

lemma rreq_size: "length (RreqHeader_Serialize C h) = RreqHeader_GetSerializedSize"
  by (simp add: RreqHeader_Serialize_def RreqHeader_GetSerializedSize_def)

lemma rrep_des_ser: "RrepHeader_Deserialize C (RrepHeader_Serialize C h @ rest) = Some (h, rest)"
  by (cases h) (simp add: RrepHeader_Deserialize_def RrepHeader_Serialize_def
    RrepHeader_GetSerializedSize_def)

lemma rrep_size: "length (RrepHeader_Serialize C h) = RrepHeader_GetSerializedSize"
  by (simp add: RrepHeader_Serialize_def RrepHeader_GetSerializedSize_def)

lemma length_dests:
  "length (concat (map (\<lambda>(a, s). put_addr C a @ put_u32 C s) ps)) = 8 * length ps"
  by (induction ps) auto

lemma read_dests_concat:
  "read_dests C (length ps) (concat (map (\<lambda>(a, s). put_addr C a @ put_u32 C s) ps) @ rest) m =
     Some (fold (\<lambda>p m. smap_insert (fst p) (snd p) m) ps m, rest)"
  by (induction ps arbitrary: m) auto

end

text \<open>The number of bindings of a map built from a list is the number of distinct keys.\<close>

lemma keys_fold_insert:
  "fst ` set (fold (\<lambda>p m. smap_insert (fst p) (snd p) m) ps m) = fst ` set ps \<union> fst ` set m"
proof (induction ps arbitrary: m)
  case Nil
  then show ?case by simp
next
  case (Cons p ps)
  have "fst ` set (smap_insert (fst p) (snd p) m) = insert (fst p) (fst ` set m)"
    by (auto simp: smap_insert_def map_of_eq_None_iff)
  with Cons show ?case by auto
qed

lemma length_smap_of_list: "length (smap_of_list ps) = card (fst ` set ps)"
proof -
  have "length (smap_of_list ps) = card (set (map fst (smap_of_list ps)))"
    by (metis distinct_card length_map smap_inv_distinct smap_inv_of_list)
  then show ?thesis by (simp add: smap_of_list_def keys_fold_insert)
qed

lemma length_smap_of_list_distinct: "length (smap_of_list ps) = length ps \<longleftrightarrow> distinct (map fst ps)"
  using card_distinct [of "map fst ps"] distinct_card [of "map fst ps"]
  by (auto simp: length_smap_of_list)

lemma length_smap_of_list_le: "length (smap_of_list ps) \<le> length ps"
  by (metis length_smap_of_list card_length length_map list.set_map)

lemma unat_small: "n < 256 \<Longrightarrow> unat (word_of_nat n :: u8) = n"
  by (simp add: unat_of_nat)

context byte_order begin

lemma rerr_des_list:
  assumes "length ps < 256"
  shows "RerrHeader_Deserialize C ([f, r, word_of_nat (length ps)]
           @ concat (map (\<lambda>(a, s). put_addr C a @ put_u32 C s) ps) @ rest) =
         (if distinct (map fst ps)
          then Some (\<lparr>re_flag = f, re_reserved = r, re_unreachable = smap_of_list ps\<rparr>, rest)
          else None)"
proof -
  have "length (smap_of_list ps) < 256" using length_smap_of_list_le [of ps] assms by simp
  moreover have "length ps = length (smap_of_list ps) \<longleftrightarrow> distinct (map fst ps)"
    using length_smap_of_list_distinct [of ps] by auto
  ultimately show ?thesis
    using assms
    by (simp add: RerrHeader_Deserialize_def unat_small read_dests_concat length_dests
        RerrHeader_GetSerializedSize_def RerrHeader_GetDestCount_def flip: smap_of_list_def)
qed

lemma rerr_des_ser:
  assumes "smap_inv (re_unreachable h) \<and> length (re_unreachable h) < 256"
  shows "RerrHeader_Deserialize C (RerrHeader_Serialize C h @ rest) = Some (h, rest)"
  using rerr_des_list [of "re_unreachable h" "re_flag h" "re_reserved h" rest] assms
  by (simp add: RerrHeader_Serialize_def RerrHeader_GetDestCount_def smap_inv_distinct smap_of_list_id)

lemma rerr_size:
  assumes "length (re_unreachable h) < 256"
  shows "length (RerrHeader_Serialize C h) = RerrHeader_GetSerializedSize h"
  using assms by (simp add: RerrHeader_Serialize_def RerrHeader_GetSerializedSize_def
    RerrHeader_GetDestCount_def unat_small length_dests)

end

subsection \<open>The headers meet the contract\<close>

lemma type_des_ser:
  "th_valid t \<Longrightarrow> TypeHeader_Deserialize h (TypeHeader_Serialize t @ rest) = Some (t, rest)"
  by (cases t; cases "th_type t")
    (auto simp: TypeHeader_Deserialize_def TypeHeader_Serialize_def TypeHeader_GetSerializedSize_def)

interpretation type_wire: wire_format TypeHeader_Serialize "TypeHeader_Deserialize h" th_valid
  "\<lambda>_. TypeHeader_GetSerializedSize"
  by unfold_locales
    (simp_all add: type_des_ser, simp add: TypeHeader_Serialize_def TypeHeader_GetSerializedSize_def)

interpretation ack_wire: wire_format RrepAckHeader_Serialize RrepAckHeader_Deserialize "\<lambda>_. True"
  "\<lambda>_. RrepAckHeader_GetSerializedSize"
  by unfold_locales
    (auto simp: RrepAckHeader_Serialize_def RrepAckHeader_Deserialize_def
      RrepAckHeader_GetSerializedSize_def)

sublocale byte_order \<subseteq> rreq: wire_format "RreqHeader_Serialize C" "RreqHeader_Deserialize C"
  "\<lambda>_. True" "\<lambda>_. RreqHeader_GetSerializedSize"
  by unfold_locales (simp_all add: rreq_des_ser rreq_size)

sublocale byte_order \<subseteq> rrep: wire_format "RrepHeader_Serialize C" "RrepHeader_Deserialize C"
  "\<lambda>_. True" "\<lambda>_. RrepHeader_GetSerializedSize"
  by unfold_locales (simp_all add: rrep_des_ser rrep_size)

sublocale byte_order \<subseteq> rerr: wire_format "RerrHeader_Serialize C" "RerrHeader_Deserialize C"
  "\<lambda>h. smap_inv (re_unreachable h) \<and> length (re_unreachable h) < 256" RerrHeader_GetSerializedSize
  by unfold_locales (simp_all add: rerr_des_ser rerr_size)

sublocale byte_order \<subseteq> rreq_msg: framed TypeHeader_Serialize "TypeHeader_Deserialize h" th_valid
  "\<lambda>_. TypeHeader_GetSerializedSize" "RreqHeader_Serialize C" "RreqHeader_Deserialize C"
  "\<lambda>_. True" "\<lambda>_. RreqHeader_GetSerializedSize" for h
  by unfold_locales

sublocale byte_order \<subseteq> rrep_msg: framed TypeHeader_Serialize "TypeHeader_Deserialize h" th_valid
  "\<lambda>_. TypeHeader_GetSerializedSize" "RrepHeader_Serialize C" "RrepHeader_Deserialize C"
  "\<lambda>_. True" "\<lambda>_. RrepHeader_GetSerializedSize" for h
  by unfold_locales

sublocale byte_order \<subseteq> rerr_msg: framed TypeHeader_Serialize "TypeHeader_Deserialize h" th_valid
  "\<lambda>_. TypeHeader_GetSerializedSize" "RerrHeader_Serialize C" "RerrHeader_Deserialize C"
  "\<lambda>h. smap_inv (re_unreachable h) \<and> length (re_unreachable h) < 256" RerrHeader_GetSerializedSize for h
  by unfold_locales

interpretation ack_msg: framed TypeHeader_Serialize "TypeHeader_Deserialize h" th_valid
  "\<lambda>_. TypeHeader_GetSerializedSize" RrepAckHeader_Serialize RrepAckHeader_Deserialize "\<lambda>_. True"
  "\<lambda>_. RrepAckHeader_GetSerializedSize"
  by unfold_locales

context byte_order begin

lemmas rreq_frame = rreq_msg.parse_frame
lemmas rrep_frame = rrep_msg.parse_frame
lemmas rerr_frame = rerr_msg.parse_frame

end

lemma byte_orderI: "codec_ok C \<Longrightarrow> byte_order C"
  by unfold_locales

interpretation be: byte_order be_codec
  by unfold_locales (rule be_codec_ok)

subsection \<open>Flag bits\<close>

lemma get_flag_bit: "get_flag n w = bit w n"
  by (simp add: get_flag_def bit_iff_and_push_bit_not_eq_0)

lemma get_set_flag:
  "n < 8 \<Longrightarrow> m < 8 \<Longrightarrow> get_flag n (set_flag m f w) = (if n = m then f else get_flag n w)"
  by (auto simp: get_flag_bit set_flag_def bit_or_iff bit_and_iff bit_not_iff bit_exp_iff possible_bit_word)

lemmas flag_defs =
  RreqHeader_SetGratuitousRrep_def RreqHeader_GetGratuitousRrep_def
  RreqHeader_SetDestinationOnly_def RreqHeader_GetDestinationOnly_def
  RreqHeader_SetUnknownSeqno_def RreqHeader_GetUnknownSeqno_def
  RrepHeader_SetAckRequired_def RrepHeader_GetAckRequired_def
  RerrHeader_SetNoDelete_def RerrHeader_GetNoDelete_def

subsection \<open>Comparison of RERR headers\<close>

lemma dests_eq_same_length: "length js = length ks \<Longrightarrow> dests_eq (length js) js ks \<longleftrightarrow> js = ks"
  by (induction js ks rule: list_induct2) (auto simp: prod_eq_iff)

lemma rerr_count_inj:
  "length (re_unreachable h) < 256 \<Longrightarrow> length (re_unreachable g) < 256 \<Longrightarrow>
   RerrHeader_GetDestCount h = RerrHeader_GetDestCount g \<longleftrightarrow>
   length (re_unreachable h) = length (re_unreachable g)"
  unfolding RerrHeader_GetDestCount_def by (metis unat_small)

subsection \<open>Properties\<close>

lemma TypeHeader_new_valid [simp]: "th_valid (TypeHeader_new t)"
  by (simp add: TypeHeader_new_def)

text \<open>A RREQ message, its type octet followed by the header, is read back by the receiver as the
  same header, with whatever follows it left over; the header takes 23 bytes.\<close>

lemma rreq_message_roundtrip:
  assumes "codec_ok C"
  shows "(do {
           (t, bs) \<leftarrow> TypeHeader_Deserialize t0
              (TypeHeader_Serialize (TypeHeader_new MADAODVTYPE_RREQ) @ RreqHeader_Serialize C h @ rest);
           (h', bs) \<leftarrow> RreqHeader_Deserialize C bs;
           Some (t, h', bs)
         }) = Some (TypeHeader_new MADAODVTYPE_RREQ, h, rest)
         \<and> length (RreqHeader_Serialize C h) = 23"
  using byte_order.rreq_frame [OF byte_orderI [OF assms] TypeHeader_new_valid TrueI]
    byte_order.rreq_size [OF byte_orderI [OF assms], of h]
  by (simp add: RreqHeader_GetSerializedSize_def)

definition example_rreq :: RreqHeader where
  "example_rreq = \<lparr>rq_flags = 0x18, rq_reserved = 0, rq_hopCount = 3, rq_requestID = 7,
     rq_dst = ip4 10 1 2 3, rq_dstSeqNo = 41, rq_origin = ip4 10 1 2 9, rq_originSeqNo = 5\<rparr>"

text \<open>A RREP message is read back as the same header; the header takes 19 bytes.\<close>

lemma rrep_message_roundtrip:
  assumes "codec_ok C"
  shows "(do {
           (t, bs) \<leftarrow> TypeHeader_Deserialize t0
              (TypeHeader_Serialize (TypeHeader_new MADAODVTYPE_RREP) @ RrepHeader_Serialize C h @ rest);
           (h', bs) \<leftarrow> RrepHeader_Deserialize C bs;
           Some (t, h', bs)
         }) = Some (TypeHeader_new MADAODVTYPE_RREP, h, rest)
         \<and> length (RrepHeader_Serialize C h) = 19"
  using byte_order.rrep_frame [OF byte_orderI [OF assms] TypeHeader_new_valid TrueI]
    byte_order.rrep_size [OF byte_orderI [OF assms], of h]
  by (simp add: RrepHeader_GetSerializedSize_def)

text \<open>C35: a RERR message with up to 255 destinations is read back as the same header, its map of
  unreachable destinations included.\<close>

theorem rerr_message_roundtrip:
  assumes "codec_ok C" and "smap_inv (re_unreachable h)" and "length (re_unreachable h) < 256"
  shows "(do {
           (t, bs) \<leftarrow> TypeHeader_Deserialize t0
              (TypeHeader_Serialize (TypeHeader_new MADAODVTYPE_RERR) @ RerrHeader_Serialize C h @ rest);
           (h', bs) \<leftarrow> RerrHeader_Deserialize C bs;
           Some (t, h', bs)
         }) = Some (TypeHeader_new MADAODVTYPE_RERR, h, rest)
         \<and> length (RerrHeader_Serialize C h) = RerrHeader_GetSerializedSize h"
  using byte_order.rerr_frame [OF byte_orderI [OF assms(1)] TypeHeader_new_valid conjI [OF assms(2,3)]]
    byte_order.rerr_size [OF byte_orderI [OF assms(1)] assms(3)]
  by simp

definition example_rerr :: RerrHeader where
  "example_rerr = \<lparr>re_flag = 0, re_reserved = 0, re_unreachable = [(3, 8), (7, 1)]\<rparr>"

theorem rerr_message_roundtrip_witness:
  "(do {
      (t, bs) \<leftarrow> TypeHeader_Deserialize (TypeHeader_new MADAODVTYPE_RREQ)
         (TypeHeader_Serialize (TypeHeader_new MADAODVTYPE_RERR)
          @ RerrHeader_Serialize be_codec example_rerr @ []);
      (h', bs) \<leftarrow> RerrHeader_Deserialize be_codec bs;
      Some (t, h', bs)
    }) = Some (TypeHeader_new MADAODVTYPE_RERR, example_rerr, [])
    \<and> length (RerrHeader_Serialize be_codec example_rerr) = RerrHeader_GetSerializedSize example_rerr"
  by (rule rerr_message_roundtrip [OF be_codec_ok]) (simp_all add: example_rerr_def)

text \<open>C36: what \<open>RerrHeader::Deserialize\<close> does with any list of up to 255 destinations on the wire: it
  yields their map when the addresses are distinct, and otherwise fails the assertion that compares
  the bytes read with the size of the header it built.\<close>

theorem rerr_deserialize_duplicates:
  assumes "codec_ok C" and "length ps < 256"
  shows "RerrHeader_Deserialize C ([f, r, word_of_nat (length ps)]
           @ concat (map (\<lambda>(a, s). put_addr C a @ put_u32 C s) ps) @ rest) =
         (if distinct (map fst ps)
          then Some (\<lparr>re_flag = f, re_reserved = r, re_unreachable = smap_of_list ps\<rparr>, rest)
          else None)"
  by (rule byte_order.rerr_des_list [OF byte_orderI [OF assms(1)] assms(2)])

theorem rerr_deserialize_duplicates_witness:
  "RerrHeader_Deserialize be_codec ([0, 0, word_of_nat (length [(7, 1), (7, 2)])]
     @ concat (map (\<lambda>(a, s). put_addr be_codec a @ put_u32 be_codec s) [(7, 1), (7, 2)]) @ []) = None"
  using rerr_deserialize_duplicates [OF be_codec_ok, of "[(7, 1), (7, 2)]" 0 0 "[]"] by simp

text \<open>An unknown message type leaves the type as it was and marks the header invalid; the four
  known ones are recognised.\<close>

lemma type_octet_decoded:
  "TypeHeader_Deserialize h (b # rest) =
     Some (case filter (\<lambda>t. MessageType_value t = b)
             [MADAODVTYPE_RREQ, MADAODVTYPE_RREP, MADAODVTYPE_RERR, MADAODVTYPE_RREP_ACK] of
             [] \<Rightarrow> h\<lparr>th_valid := False\<rparr>
           | t # _ \<Rightarrow> TypeHeader_new t, rest)"
  by (simp add: TypeHeader_Deserialize_def TypeHeader_GetSerializedSize_def TypeHeader_new_def)

text \<open>Each flag accessor of the RREQ header reads what its setter wrote, and no setter disturbs
  another flag.\<close>

lemma rreq_flags_independent:
  "RreqHeader_GetGratuitousRrep (RreqHeader_SetGratuitousRrep f h) = f
   \<and> RreqHeader_GetDestinationOnly (RreqHeader_SetGratuitousRrep f h) = RreqHeader_GetDestinationOnly h
   \<and> RreqHeader_GetUnknownSeqno (RreqHeader_SetGratuitousRrep f h) = RreqHeader_GetUnknownSeqno h
   \<and> RreqHeader_GetDestinationOnly (RreqHeader_SetDestinationOnly f h) = f
   \<and> RreqHeader_GetGratuitousRrep (RreqHeader_SetDestinationOnly f h) = RreqHeader_GetGratuitousRrep h
   \<and> RreqHeader_GetUnknownSeqno (RreqHeader_SetDestinationOnly f h) = RreqHeader_GetUnknownSeqno h
   \<and> RreqHeader_GetUnknownSeqno (RreqHeader_SetUnknownSeqno f h) = f
   \<and> RreqHeader_GetGratuitousRrep (RreqHeader_SetUnknownSeqno f h) = RreqHeader_GetGratuitousRrep h
   \<and> RreqHeader_GetDestinationOnly (RreqHeader_SetUnknownSeqno f h) = RreqHeader_GetDestinationOnly h"
  by (simp add: flag_defs get_set_flag)

text \<open>\<open>operator==\<close> of RERR headers with fewer than 256 destinations is equality of the headers.\<close>

lemma rerr_eq_structural:
  assumes "length (re_unreachable h) < 256" and "length (re_unreachable g) < 256"
  shows "RerrHeader_eq h g \<longleftrightarrow> h = g"
proof (cases "length (re_unreachable h) = length (re_unreachable g)")
  case True
  with assms dests_eq_same_length [OF True] show ?thesis
    by (cases h; cases g) (auto simp: RerrHeader_eq_def RerrHeader_GetDestCount_def unat_small)
next
  case False
  with assms rerr_count_inj [OF assms] show ?thesis by (auto simp: RerrHeader_eq_def)
qed

end
