(* ===== verification/Discovery_Props.thy ===== *)
theory Discovery_Props
  imports Machine_Props Packet_Props
begin

text \<open>
  Route discovery and the upkeep of routes: what the lifetime updates do to the table, what a request
  sends, that a request never stops the program under a sane configuration, and that the expanding
  ring search ends.
\<close>

subsection \<open>Looking routes up\<close>

definition purged :: "ns3 \<Rightarrow> rp \<Rightarrow> rtable" where
  "purged E s = RoutingTable_Purge (now E) (m_routingTable s)"

lemma lookup_eq: "lookup E i s = (route_of (purged E s) i, s\<lparr>m_routingTable := purged E s\<rparr>)"
  by (simp add: lookup_def RoutingTable_LookupRoute_def purged_def Let_def)

lemma purged_bad [simp]: "m_badLinkLifetime (purged E s) = m_badLinkLifetime (m_routingTable s)"
  by (simp add: purged_def RoutingTable_Purge_def)

lemma purged_ok: "entries_all rte_ok (m_routingTable s) \<Longrightarrow> entries_all rte_ok (purged E s)"
  by (simp add: purged_def ok.inv_Purge)

lemma purged_dest:
  "entries_all rte_ok (m_routingTable s) \<Longrightarrow> route_of (purged E s) i = Some e \<Longrightarrow> GetDestination e = i"
  using purged_ok [of s E] by (auto simp: entries_all_def rte_ok_def)

lemma route_update_route:
  "route_of (m_routingTable (update_route rt s)) k =
     (if k = GetDestination rt \<and> route_of (m_routingTable s) k \<noteq> None then Some (settled rt)
      else route_of (m_routingTable s) k)"
  by (simp add: update_route_def route_of_Update)

lemma purge_idem:
  assumes "entries_all rte_ok T" "0 \<le> m_badLinkLifetime T"
  shows "RoutingTable_Purge t (RoutingTable_Purge t T) = RoutingTable_Purge t T"
  using assms by (intro RoutingTable_Purge_idem) (auto simp: entries_all_def)

text \<open>The agent of the witnesses, with two routes.\<close>

definition example_node :: rp where
  "example_node = example_agent\<lparr>m_routingTable := example_table\<rparr>"

lemma example_node_fields [simp]:
  "m_routingTable example_node = example_table" "m_socketAddresses example_node = [(0, example_iface)]"
  "m_socketSubnetBroadcastAddresses example_node = [(1, example_iface)]"
  "par example_node = example_params" "m_lo example_node = Some 0" "m_ipv4 example_node"
  "rp_queue example_node = \<lparr>m_queue = [], m_maxLen = 64, m_queueTimeout = Seconds 30\<rparr>"
  "m_rreqCount example_node = 0"
  by (simp_all add: example_node_def example_agent_fields)

lemma example_node_inv: "rp_inv example_node"
  using reachable_inv [OF example_reachable]
  by (auto simp: rp_inv_def example_node_def entries_all_def rte_ok_def example_rte_def
      RoutingTableEntry_new_def)

lemma example_purged [simp]: "t \<le> 10 \<Longrightarrow> purged (example_env t) example_node = example_table"
  by (simp add: purged_def RoutingTable_Purge_def example_table_def GetLifeTime_def example_rte_def
      RoutingTableEntry_new_def)

lemma purged_idem: "rp_inv s \<Longrightarrow> RoutingTable_Purge (now E) (purged E s) = purged E s"
  unfolding purged_def by (rule purge_idem) (simp_all add: rp_inv_def)

lemma route_add_route:
  assumes "RoutingTable_Purge (now E) (m_routingTable s) = m_routingTable s"
  shows "route_of (m_routingTable (add_route E rt s)) k =
     (if k = GetDestination rt \<and> route_of (m_routingTable s) k = None then Some (settled rt)
      else route_of (m_routingTable s) k)"
  using assms by (auto simp: add_route_def route_of_AddRoute)

lemma UpdateRouteLifeTime_effect:
  assumes "rp_inv s" and "UpdateRouteLifeTime E addr l s = (b, s')"
  shows "(b \<longleftrightarrow> (\<exists>e. route_of (purged E s) addr = Some e \<and> m_flag e = VALID))
       \<and> s' = s\<lparr>m_routingTable := m_routingTable s'\<rparr>
       \<and> (\<forall>k. route_of (m_routingTable s') k =
            (if b \<and> k = addr
             then map_option (\<lambda>e. e\<lparr>m_reqCount := 0, m_lifeTime := max (now E + l) (m_lifeTime e)\<rparr>)
                    (route_of (purged E s) k)
             else route_of (purged E s) k))"
proof (cases "route_of (purged E s) addr")
  case None
  with assms(2) show ?thesis by (auto simp: UpdateRouteLifeTime_def lookup_eq)
next
  case (Some e)
  from assms(1) have ok: "entries_all rte_ok (m_routingTable s)" by (simp add: rp_inv_def)
  have d: "GetDestination e = addr" using purged_dest [OF ok Some] .
  have m: "max l (m_lifeTime e - t) + t = max (t + l) (m_lifeTime e)" for t by (simp add: max_def)
  from Some d assms(2) show ?thesis
    by (cases "m_flag e = VALID")
      (auto simp: UpdateRouteLifeTime_def lookup_eq Let_def route_update_route settled_def SetLifeTime_def
        GetLifeTime_def m update_route_def route_of_Update)
qed

subsection \<open>Properties of the upkeep\<close>

text \<open>\<open>UpdateRouteLifeTime\<close> reports whether there is a valid route; it then moves the end of its
  lifetime to the later of the two dates, so never shortens it, and changes no other route and nothing
  but the table.\<close>

lemma route_lifetime_never_shortened:
  assumes "rp_inv s" and "UpdateRouteLifeTime E addr l s = (b, s')"
  shows "(b \<longleftrightarrow> (\<exists>e. route_of (purged E s) addr = Some e \<and> m_flag e = VALID))
       \<and> s' = s\<lparr>m_routingTable := m_routingTable s'\<rparr>
       \<and> (\<forall>k. route_of (m_routingTable s') k =
            (if b \<and> k = addr
             then map_option (\<lambda>e. e\<lparr>m_reqCount := 0, m_lifeTime := max (now E + l) (m_lifeTime e)\<rparr>)
                    (route_of (purged E s) k)
             else route_of (purged E s) k))"
  using assms by (rule UpdateRouteLifeTime_effect)

text \<open>C26: what \<open>UpdateRouteToNeighbor\<close> does when a message is heard from \<open>sender\<close>. A new neighbour gets a
  route. A known one-hop route with a valid sequence number over the same device is left as it is: its
  lifetime is not extended. Any other route is replaced by one whose sequence number is 0 and
  invalid: what was known of the neighbour's sequence number is forgotten.\<close>

theorem neighbor_route_update:
  assumes "rp_inv s"
  shows "UpdateRouteToNeighbor E sender receiver s =
           s\<lparr>m_routingTable := m_routingTable (UpdateRouteToNeighbor E sender receiver s)\<rparr>
       \<and> (let new = (\<lambda>lt. RoutingTableEntry_new (now E) (Some (recv_dev E receiver)) sender False 0
                          (recv_iface E receiver) 1 sender lt);
              T' = m_routingTable (UpdateRouteToNeighbor E sender receiver s) in
          case route_of (purged E s) sender of
            None \<Rightarrow> route_of T' = (route_of (purged E s))(sender \<mapsto> new (m_activeRouteTimeout (par s)))
          | Some e \<Rightarrow>
              if m_validSeqNo e \<and> m_hops e = 1 \<and> GetOutputDevice e = Some (recv_dev E receiver)
              then T' = purged E s
              else route_of T' = (route_of (purged E s))
                     (sender \<mapsto> new (max (m_activeRouteTimeout (par s)) (m_lifeTime e - now E))))"
proof -
  have n: "settled (RoutingTableEntry_new t d a v q i h nh lt) = RoutingTableEntry_new t d a v q i h nh lt"
    "GetDestination (RoutingTableEntry_new t d a v q i h nh lt) = a" for t d a v q i h nh lt
    by (simp_all add: settled_def RoutingTableEntry_new_def)
  show ?thesis
    using purged_idem [OF assms, of E]
    by (cases "route_of (purged E s) sender")
      (auto simp: UpdateRouteToNeighbor_def lookup_eq Let_def n GetLifeTime_def add_route_def
        update_route_def route_of_AddRoute route_of_Update fun_upd_def)
qed

theorem neighbor_route_update_witness:
  "map_option m_seqNo (route_of (purged (example_env 5) example_node) 3) = Some 7
   \<and> map_option (\<lambda>e. (m_seqNo e, m_validSeqNo e))
       (route_of (m_routingTable (UpdateRouteToNeighbor (example_env 5) 3 (ip4 10 1 1 1) example_node)) 3)
     = Some (0, False)"
  using neighbor_route_update [OF example_node_inv, of "example_env 5" 3 "ip4 10 1 1 1"]
  by (simp add: Let_def example_rte_def RoutingTableEntry_new_def)

subsection \<open>One round of the search\<close>

text \<open>The entry after the next request for its destination.\<close>

definition next_search :: "params \<Rightarrow> rte \<Rightarrow> rte" where
  "next_search p rt =
     (let ttl = next_ttl p rt in
      (if ucast ttl = m_netDiameter p then IncrementRreqCnt rt else rt)
        \<lparr>m_hops := ttl, m_flag := IN_SEARCH\<rparr>)"

text \<open>The entry created by the first request.\<close>

definition first_search :: "ns3 \<Rightarrow> params \<Rightarrow> ipv4 \<Rightarrow> rte" where
  "first_search E p dst =
     (let e = RoutingTableEntry_new (now E) None dst False 0 (any_iface E) (m_ttlStart p) (any_addr E)
                (m_pathDiscoveryTime p) in
      (if ucast (m_ttlStart p) = m_netDiameter p then IncrementRreqCnt e else e)
        \<lparr>m_flag := IN_SEARCH\<rparr>)"

definition rreq_packet :: "ns3 \<Rightarrow> RreqHeader \<Rightarrow> u16 \<Rightarrow> iface \<Rightarrow> control" where
  "rreq_packet E h ttl i =
     control_packet (ucast ttl) MADAODVTYPE_RREQ
       (RreqHeader_Serialize (wire E) (h\<lparr>rq_origin := ia_local i\<rparr>))"

text \<open>What sending over the interfaces changes.\<close>

lemma send_rreq_on_frame [simp]:
  "m_routingTable (send_rreq_on E h ttl j s) = m_routingTable s"
  "par (send_rreq_on E h ttl j s) = par s"
  "m_rreqCount (send_rreq_on E h ttl j s) = m_rreqCount s"
  "m_addressReqTimer (send_rreq_on E h ttl j s) = m_addressReqTimer s"
  "rp_queue (send_rreq_on E h ttl j s) = rp_queue s"
  "rp_seqNo (send_rreq_on E h ttl j s) = rp_seqNo s"
  "m_requestId (send_rreq_on E h ttl j s) = m_requestId s"
  "draws (send_rreq_on E h ttl j s) = Suc (draws s)"
  "log (send_rreq_on E h ttl j s) =
     log s @ [SchedSend (MilliSeconds (uniform E (draws s) 0 10)) (fst j) (rreq_packet E h ttl (snd j))
                (broadcast_destination E (snd j))]"
  by (simp_all add: send_rreq_on_def schedule_send_def jitter_def draw_def emit_def rreq_packet_def
      split_beta Let_def)

lemma fold_send_rreq_frame [simp]:
  "m_routingTable (fold (send_rreq_on E h ttl) js s) = m_routingTable s"
  "par (fold (send_rreq_on E h ttl) js s) = par s"
  "m_rreqCount (fold (send_rreq_on E h ttl) js s) = m_rreqCount s"
  "m_addressReqTimer (fold (send_rreq_on E h ttl) js s) = m_addressReqTimer s"
  "rp_queue (fold (send_rreq_on E h ttl) js s) = rp_queue s"
  "rp_seqNo (fold (send_rreq_on E h ttl) js s) = rp_seqNo s"
  "m_requestId (fold (send_rreq_on E h ttl) js s) = m_requestId s"
  by (induction js arbitrary: s) simp_all

lemma fold_send_rreq_log:
  "log (fold (send_rreq_on E h ttl) js s) =
     log s @ map (\<lambda>(n, j). SchedSend (MilliSeconds (uniform E (draws s + n) 0 10)) (fst j)
                    (rreq_packet E h ttl (snd j)) (broadcast_destination E (snd j))) (enumerate 0 js)"
proof (induction js arbitrary: s)
  case Nil
  then show ?case by simp
next
  case (Cons j js)
  have "enumerate (Suc 0) js = map (\<lambda>(n, j). (Suc n, j)) (enumerate 0 js)"
    by (simp add: enumerate_eq_zip zip_map1 [symmetric] map_Suc_upt)
  with Cons show ?case by (simp add: split_beta comp_def)
qed

text \<open>The retry timer is set unless the entry counts no request at the full diameter, or too many.\<close>

lemma retry_delay_ok:
  assumes "ucast (m_hops e) < m_netDiameter p \<or> 0 < unat (m_reqCount e) \<and> unat (m_reqCount e) \<le> 31"
  shows "retry_delay p e \<noteq> None"
proof -
  have "uint (m_reqCount e) - 1 < 31" if "unat (m_reqCount e) \<le> 31"
    unfolding uint_nat using that by linarith
  moreover have "m_reqCount e \<noteq> 0" if "0 < unat (m_reqCount e)"
    using that by auto
  ultimately show ?thesis using assms by (auto simp: retry_delay_def Let_def)
qed

lemma ScheduleRreqRetry_ok:
  assumes "route_of (purged E s) dst = Some e"
    and "ucast (m_hops e) < m_netDiameter (par s) \<or> 0 < unat (m_reqCount e) \<and> unat (m_reqCount e) \<le> 31"
  shows "\<exists>tm d. ScheduleRreqRetry E dst s = Some (s\<lparr>m_routingTable := purged E s,
      m_addressReqTimer := smap_put dst (tm @ [TmSchedule (Some d)]) (m_addressReqTimer s)\<rparr>)"
proof -
  obtain d where "retry_delay (par s) e = Some d" using retry_delay_ok [OF assms(2)] by blast
  with assms(1) show ?thesis
    by (intro exI [of _ "(case map_of (m_addressReqTimer s) dst of None \<Rightarrow> [] | Some tm \<Rightarrow> tm)
        @ [TmSetFunction, TmCancel, TmSetArguments dst]"] exI [of _ d])
      (simp add: ScheduleRreqRetry_def lookup_eq into_def Let_def)
qed

text \<open>The entry a request leaves behind, and the table with it.\<close>

definition searched :: "ns3 \<Rightarrow> ipv4 \<Rightarrow> rp \<Rightarrow> rte" where
  "searched E dst s =
     (case route_of (purged E s) dst of
        Some e \<Rightarrow> SetLifeTime (now E) (m_pathDiscoveryTime (par s)) (next_search (par s) e)
      | None \<Rightarrow> first_search E (par s) dst)"

lemma next_search_simps [simp]:
  "m_flag (next_search p e) = IN_SEARCH" "m_hops (next_search p e) = next_ttl p e"
  "m_ipv4Route (next_search p e) = m_ipv4Route e"
  "m_reqCount (next_search p e) =
     (if ucast (next_ttl p e) = m_netDiameter p then m_reqCount e + 1 else m_reqCount e)"
  by (simp_all add: next_search_def Let_def IncrementRreqCnt_def)

lemma first_search_simps [simp]:
  "m_flag (first_search E p dst) = IN_SEARCH" "GetDestination (first_search E p dst) = dst"
  "m_hops (first_search E p dst) = m_ttlStart p"
  "m_reqCount (first_search E p dst) = (if ucast (m_ttlStart p) = m_netDiameter p then 1 else 0)"
  by (simp_all add: first_search_def Let_def IncrementRreqCnt_def RoutingTableEntry_new_def)

lemma searched_flag [simp]: "m_flag (searched E dst s) = IN_SEARCH"
  by (simp add: searched_def SetLifeTime_def split: option.split)

lemma settled_search: "m_flag e = IN_SEARCH \<Longrightarrow> settled e = e"
  by (simp add: settled_def)

text \<open>Storing a search in a purged table.\<close>

lemma search_stored:
  assumes "rp_inv s" and "GetDestination e = dst" and "m_flag e = IN_SEARCH"
    and T: "T = (if route_of (purged E s) dst = None
                 then snd (RoutingTable_AddRoute (now E) e (purged E s))
                 else snd (RoutingTable_Update e (purged E s)))"
  shows "route_of (RoutingTable_Purge (now E) T) = (route_of (purged E s))(dst \<mapsto> e)"
proof (rule ext)
  fix k
  have inv: "smap_inv (m_ipv4AddressEntry (purged E s))"
    and bad: "m_badLinkLifetime (purged E s) = m_badLinkLifetime (m_routingTable s)"
    using assms(1) purged_ok [of s E] by (simp_all add: rp_inv_def entries_all_def purged_def)
  note idem = purged_idem [OF assms(1), of E]
  have "smap_inv (m_ipv4AddressEntry T)"
    using inv idem by (auto simp: T RoutingTable_AddRoute_def RoutingTable_Update_def Let_def)
  moreover have T_of: "route_of T = (route_of (purged E s))(dst \<mapsto> e)"
    using assms(2,3) idem
    by (auto simp: T route_of_AddRoute route_of_Update settled_search fun_upd_def)
  moreover have "m_badLinkLifetime T = m_badLinkLifetime (purged E s)"
    by (simp add: T)
  moreover have "route_of (purged E s) k =
      (case route_of (purged E s) k of None \<Rightarrow> None
       | Some e \<Rightarrow> purge_entry (now E) (m_badLinkLifetime (purged E s)) e)"
    using route_of_Purge [OF inv, of "now E" k] idem by simp
  ultimately show "route_of (RoutingTable_Purge (now E) T) k = ((route_of (purged E s))(dst \<mapsto> e)) k"
    using assms(3)
    by (cases "k = dst"; cases "route_of (purged E s) k") (auto simp: route_of_Purge purge_entry_def)
qed

text \<open>The header of a request.\<close>

definition request_header :: "ns3 \<Rightarrow> ipv4 \<Rightarrow> rp \<Rightarrow> RreqHeader" where
  "request_header E dst s =
     (let h = (RreqHeader_new E)\<lparr>rq_dst := dst\<rparr>;
          h = (case route_of (purged E s) dst of
                 Some e \<Rightarrow> if m_validSeqNo e then h\<lparr>rq_dstSeqNo := m_seqNo e\<rparr>
                           else RreqHeader_SetUnknownSeqno True h
               | None \<Rightarrow> RreqHeader_SetUnknownSeqno True h);
          h = (if m_gratuitousReply (par s) then RreqHeader_SetGratuitousRrep True h else h);
          h = (if m_destinationOnly (par s) then RreqHeader_SetDestinationOnly True h else h) in
      h\<lparr>rq_originSeqNo := rp_seqNo s + 1, rq_requestID := m_requestId s + 1\<rparr>)"

lemma request_header_fields:
  "rq_dst (request_header E dst s) = dst" "rq_hopCount (request_header E dst s) = 0"
  "rq_originSeqNo (request_header E dst s) = rp_seqNo s + 1"
  "rq_requestID (request_header E dst s) = m_requestId s + 1"
  "case route_of (purged E s) dst of
     Some e \<Rightarrow> if m_validSeqNo e
               then \<not> RreqHeader_GetUnknownSeqno (request_header E dst s) \<and> rq_dstSeqNo (request_header E dst s) = m_seqNo e
               else RreqHeader_GetUnknownSeqno (request_header E dst s)
   | None \<Rightarrow> RreqHeader_GetUnknownSeqno (request_header E dst s)"
proof -
  have "\<not> get_flag 3 (0 :: u8)" by (simp add: get_flag_def)
  then show "case route_of (purged E s) dst of
     Some e \<Rightarrow> if m_validSeqNo e
               then \<not> RreqHeader_GetUnknownSeqno (request_header E dst s) \<and> rq_dstSeqNo (request_header E dst s) = m_seqNo e
               else RreqHeader_GetUnknownSeqno (request_header E dst s)
   | None \<Rightarrow> RreqHeader_GetUnknownSeqno (request_header E dst s)"
    by (auto simp: request_header_def Let_def flag_defs get_set_flag RreqHeader_new_def split: option.split)
qed (auto simp: request_header_def Let_def flag_defs RreqHeader_new_def split: option.split)

text \<open>The state in which the retry timer is set.\<close>

definition request_sent :: "ns3 \<Rightarrow> ipv4 \<Rightarrow> rp \<Rightarrow> rp" where
  "request_sent E dst s =
     (let e = searched E dst s;
          T = (if route_of (purged E s) dst = None
               then snd (RoutingTable_AddRoute (now E) e (purged E s))
               else snd (RoutingTable_Update e (purged E s))) in
      fold (send_rreq_on E (request_header E dst s) (m_hops e)) (m_socketAddresses s)
        (s\<lparr>m_rreqCount := m_rreqCount s + 1, m_routingTable := T, rp_seqNo := rp_seqNo s + 1,
           m_requestId := m_requestId s + 1\<rparr>))"

lemma SetLifeTime_simps [simp]:
  "m_flag (SetLifeTime t l e) = m_flag e" "m_hops (SetLifeTime t l e) = m_hops e"
  "m_ipv4Route (SetLifeTime t l e) = m_ipv4Route e" "m_reqCount (SetLifeTime t l e) = m_reqCount e"
  by (simp_all add: SetLifeTime_def)

lemma m_hops_new [simp]: "m_hops (RoutingTableEntry_new t d a v q i h nh l) = h"
  by (simp add: RoutingTableEntry_new_def)

lemma IncrementRreqCnt_simps [simp]:
  "m_hops (IncrementRreqCnt e) = m_hops e" "m_seqNo (IncrementRreqCnt e) = m_seqNo e"
  "m_validSeqNo (IncrementRreqCnt e) = m_validSeqNo e"
  by (simp_all add: IncrementRreqCnt_def)

lemma searched_fields:
  "m_hops (searched E dst s) =
     (case route_of (purged E s) dst of Some e0 \<Rightarrow> next_ttl (par s) e0 | None \<Rightarrow> m_ttlStart (par s))"
  "m_reqCount (searched E dst s) = (case route_of (purged E s) dst of Some e0 \<Rightarrow> m_reqCount e0 | None \<Rightarrow> 0)
     + (if ucast (m_hops (searched E dst s)) = m_netDiameter (par s) then 1 else 0)"
  by (auto simp: searched_def split: option.split)

lemma SendRequest_eq:
  assumes "m_rreqCount s \<noteq> m_rreqRateLimit (par s)"
  shows "SendRequest E dst s = ScheduleRreqRetry E dst (request_sent E dst s)"
proof (cases "route_of (purged E s) dst")
  case None
  with assms show ?thesis
    by (simp add: SendRequest_def lookup_eq purged_def request_sent_def searched_def search_new_def
        first_search_def request_header_def add_route_def Let_def)
next
  case (Some e)
  with assms show ?thesis
    by (simp add: SendRequest_def lookup_eq purged_def request_sent_def searched_def search_known_def
        next_search_def request_header_def update_route_def Let_def)
qed

lemma searched_dest: "rp_inv s \<Longrightarrow> GetDestination (searched E dst s) = dst"
  using purged_dest [of s E dst] by (auto simp: searched_def rp_inv_def split: option.split)

lemma request_sent_frame:
  "par (request_sent E dst s) = par s" "rp_queue (request_sent E dst s) = rp_queue s"
  "m_rreqCount (request_sent E dst s) = m_rreqCount s + 1"
  "m_addressReqTimer (request_sent E dst s) = m_addressReqTimer s"
  "rp_seqNo (request_sent E dst s) = rp_seqNo s + 1"
  "m_requestId (request_sent E dst s) = m_requestId s + 1"
  "log (request_sent E dst s) = log s @
     map (\<lambda>(n, j). SchedSend (MilliSeconds (uniform E (draws s + n) 0 10)) (fst j)
            (rreq_packet E (request_header E dst s) (m_hops (searched E dst s)) (snd j))
            (broadcast_destination E (snd j))) (enumerate 0 (m_socketAddresses s))"
  by (simp_all add: request_sent_def Let_def fold_send_rreq_log)

lemma purged_request_sent:
  assumes "rp_inv s"
  shows "route_of (purged E (request_sent E dst s)) = (route_of (purged E s))(dst \<mapsto> searched E dst s)"
proof -
  have "m_routingTable (request_sent E dst s) =
      (if route_of (purged E s) dst = None
       then snd (RoutingTable_AddRoute (now E) (searched E dst s) (purged E s))
       else snd (RoutingTable_Update (searched E dst s) (purged E s)))"
    by (simp add: request_sent_def Let_def)
  from search_stored [OF assms searched_dest [OF assms] searched_flag this] show ?thesis
    by (simp only: purged_def [of E "request_sent E dst s"])
qed

lemma SendRequest_ok:
  assumes "rp_inv s" and "m_rreqCount s \<noteq> m_rreqRateLimit (par s)"
    and "ucast (m_hops (searched E dst s)) < m_netDiameter (par s)
         \<or> 0 < unat (m_reqCount (searched E dst s)) \<and> unat (m_reqCount (searched E dst s)) \<le> 31"
  shows "\<exists>s' tm d. SendRequest E dst s = Some s'
       \<and> s' = (request_sent E dst s)\<lparr>m_routingTable := m_routingTable s',
            m_addressReqTimer := smap_put dst (tm @ [TmSchedule (Some d)]) (m_addressReqTimer s)\<rparr>
       \<and> route_of (m_routingTable s') = (route_of (purged E s))(dst \<mapsto> searched E dst s)"
proof -
  have "route_of (purged E (request_sent E dst s)) dst = Some (searched E dst s)"
    by (simp add: purged_request_sent assms(1))
  from ScheduleRreqRetry_ok [OF this] assms(3) obtain tm d where
    "ScheduleRreqRetry E dst (request_sent E dst s) =
       Some ((request_sent E dst s)\<lparr>m_routingTable := purged E (request_sent E dst s),
         m_addressReqTimer := smap_put dst (tm @ [TmSchedule (Some d)])
           (m_addressReqTimer (request_sent E dst s))\<rparr>)"
    by (auto simp: request_sent_frame)
  then show ?thesis
    unfolding SendRequest_eq [OF assms(2)]
    by (intro exI conjI, assumption) (simp_all add: request_sent_frame purged_request_sent assms(1))
qed

lemma ScheduleRreqRetry_frame:
  "ScheduleRreqRetry E dst s = Some s' \<Longrightarrow>
     log s' = log s \<and> m_rreqIdCache s' = m_rreqIdCache s \<and> m_requestId s' = m_requestId s
     \<and> rp_seqNo s' = rp_seqNo s \<and> m_rreqCount s' = m_rreqCount s"
  by (auto simp: ScheduleRreqRetry_def lookup_eq Let_def bind_eq_Some_conv)

subsection \<open>Sane parameters\<close>

text \<open>The ring grows, stays within the network and within 16 bits. The defaults are sane.\<close>

definition sane :: "params \<Rightarrow> bool" where
  "sane p \<longleftrightarrow>
     0 < unat (m_ttlIncrement p) \<and> unat (m_netDiameter p) + unat (m_ttlIncrement p) < 2 ^ 16 \<and>
     unat (m_ttlThreshold p) \<le> unat (m_netDiameter p) \<and> unat (m_ttlStart p) \<le> unat (m_netDiameter p)"

lemma sane_example [simp]: "sane example_params"
  by (simp add: sane_def example_params_def initial_params_def Let_def)

lemma unat_ucast_16_32 [simp]: "unat (ucast (h :: u16) :: u32) = unat h"
  by (simp add: unsigned_ucast_eq take_bit_nat_eq_self_iff order_less_le_trans [OF unsigned_less])

lemma ucast_eq_retries: "ucast (c :: u8) = (r :: u32) \<longleftrightarrow> unat c = unat r"
proof -
  have "unat (ucast c :: u32) = unat c"
    by (simp add: unsigned_ucast_eq take_bit_nat_eq_self_iff order_less_le_trans [OF unsigned_less])
  then show ?thesis by (metis word_unat_eq_iff)
qed

lemma ucast_eq_diameter: "ucast (h :: u16) = (d :: u32) \<longleftrightarrow> unat h = unat d"
  by (metis unat_ucast_16_32 word_unat_eq_iff)

lemma ucast_less_diameter: "ucast (h :: u16) < (d :: u32) \<longleftrightarrow> unat h < unat d"
  by (simp add: word_less_nat_alt)

lemma unat_ucast_32_16: "unat d < 2 ^ 16 \<Longrightarrow> unat (ucast (d :: u32) :: u16) = unat d"
  by (simp add: unsigned_ucast_eq take_bit_nat_eq_self_iff)

lemma unat_add_16: "unat (a :: u16) + unat b < 2 ^ 16 \<Longrightarrow> unat (a + b) = unat a + unat b"
  by (simp add: unat_word_ariths)

text \<open>The radius of the next request, in plain numbers.\<close>

lemma next_ttl_search:
  assumes "sane p" "m_flag e = IN_SEARCH" "unat (m_hops e) \<le> unat (m_netDiameter p)"
  shows "unat (next_ttl p e) =
     (if unat (m_hops e) + unat (m_ttlIncrement p) > unat (m_ttlThreshold p) then unat (m_netDiameter p)
      else unat (m_hops e) + unat (m_ttlIncrement p))"
proof -
  have d: "unat (m_netDiameter p) < 2 ^ 16" and
    s: "unat (m_hops e + m_ttlIncrement p) = unat (m_hops e) + unat (m_ttlIncrement p)"
    using assms by (auto simp: sane_def intro!: unat_add_16)
  then show ?thesis
    using assms(2) by (simp add: next_ttl_def Let_def unat_ucast_32_16 word_less_nat_alt)
qed

lemma next_ttl_bound:
  assumes "sane p"
  shows "unat (next_ttl p e) \<le> unat (m_netDiameter p)"
proof -
  have "unat (ucast (m_netDiameter p) :: u16) = unat (m_netDiameter p)"
    using assms by (intro unat_ucast_32_16) (simp add: sane_def)
  with assms show ?thesis
    by (auto simp: next_ttl_def Let_def min_def word_le_nat_alt word_less_nat_alt sane_def)
qed

lemma first_ttl_bound: "sane p \<Longrightarrow> unat (m_ttlStart p) \<le> unat (m_netDiameter p)"
  by (simp add: sane_def)

text \<open>The radius and the count after a request, and when the next retry cannot be timed.\<close>

lemma searched_within:
  "sane (par s) \<Longrightarrow> unat (m_hops (searched E dst s)) \<le> unat (m_netDiameter (par s))"
  by (auto simp: searched_def next_ttl_bound first_ttl_bound split: option.split)

lemma retry_delay_None:
  "retry_delay p e = None \<longleftrightarrow>
     m_netDiameter p \<le> ucast (m_hops e) \<and> (m_reqCount e = 0 \<or> 32 \<le> unat (m_reqCount e))"
proof -
  have "31 \<le> uint (m_reqCount e) - 1 \<longleftrightarrow> 32 \<le> unat (m_reqCount e)" by (simp only: uint_nat) arith
  then show ?thesis by (auto simp: retry_delay_def Let_def)
qed

lemma count_next: "(c + 1 = 0 \<or> 32 \<le> unat (c + 1)) \<longleftrightarrow> 31 \<le> unat c" for c :: u8
proof (cases "c + 1 = 0")
  case True
  then have "c = - 1" by (simp add: eq_neg_iff_add_eq_0)
  then show ?thesis by (simp add: unsigned_minus_1_eq_mask mask_eq_exp_minus_1)
next
  case False
  then have "unat (c + 1) = Suc (unat c)" by (simp add: unatSuc add.commute)
  with False show ?thesis by simp
qed

lemma searched_aborts:
  assumes "sane (par s)"
  shows "retry_delay (par s) (searched E dst s) = None \<longleftrightarrow>
    (\<exists>e. route_of (purged E s) dst = Some e \<and> ucast (next_ttl (par s) e) = m_netDiameter (par s)
       \<and> 31 \<le> unat (m_reqCount e))"
proof -
  have "m_netDiameter (par s) \<le> ucast h \<longleftrightarrow> ucast h = m_netDiameter (par s)"
    if "unat (h :: u16) \<le> unat (m_netDiameter (par s))" for h
    using that by (auto simp: ucast_eq_diameter word_le_nat_alt)
  with searched_within [OF assms, of E dst] show ?thesis
    using count_next
    by (cases "route_of (purged E s) dst") (auto simp: retry_delay_None searched_def)
qed

lemma SendRequest_None:
  assumes "rp_inv s" and "sane (par s)"
  shows "SendRequest E dst s = None \<longleftrightarrow>
    m_rreqCount s \<noteq> m_rreqRateLimit (par s)
    \<and> (\<exists>e. route_of (purged E s) dst = Some e \<and> ucast (next_ttl (par s) e) = m_netDiameter (par s)
       \<and> 31 \<le> unat (m_reqCount e))"
proof (cases "m_rreqCount s = m_rreqRateLimit (par s)")
  case True
  then show ?thesis by (simp add: SendRequest_def)
next
  case False
  have "route_of (purged E (request_sent E dst s)) dst = Some (searched E dst s)"
    by (simp add: purged_request_sent assms(1))
  then have "SendRequest E dst s = None \<longleftrightarrow> retry_delay (par s) (searched E dst s) = None"
    by (simp add: SendRequest_eq [OF False] ScheduleRreqRetry_def lookup_eq into_def Let_def request_sent_frame
        bind_eq_None_conv)
  with False searched_aborts [OF assms(2), of E dst] show ?thesis by simp
qed

text \<open>What a request that is sent leaves behind.\<close>

lemma SendRequest_leaves:
  assumes "rp_inv s" and "SendRequest E dst s = Some s'" and "m_rreqCount s \<noteq> m_rreqRateLimit (par s)"
  shows "\<exists>tm d. retry_delay (par s) (searched E dst s) = Some d
       \<and> map_of (m_addressReqTimer s') dst = Some (tm @ [TmSchedule (Some d)])
       \<and> route_of (m_routingTable s') = (route_of (purged E s))(dst \<mapsto> searched E dst s)"
proof -
  have e: "route_of (purged E (request_sent E dst s)) dst = Some (searched E dst s)"
    by (simp add: purged_request_sent assms(1))
  show ?thesis
    using assms(2) e unfolding SendRequest_eq [OF assms(3)]
    by (auto simp: ScheduleRreqRetry_def lookup_eq into_def Let_def request_sent_frame bind_eq_Some_conv
        purged_request_sent assms(1) map_of_put)
qed

lemma SendRequest_total:
  assumes "rp_inv s" and "sane (par s)"
    and "\<And>e. route_of (purged E s) dst = Some e \<Longrightarrow> unat (m_reqCount e) \<le> 30"
  shows "\<exists>s'. SendRequest E dst s = Some s'"
proof -
  have "SendRequest E dst s \<noteq> None"
    using SendRequest_None [OF assms(1,2), of E dst] assms(3) by fastforce
  then show ?thesis by blast
qed

lemma SendRequest_searches:
  assumes "rp_inv s" and "sane (par s)" and "m_rreqCount s \<noteq> m_rreqRateLimit (par s)"
    and "\<And>e. route_of (purged E s) dst = Some e \<Longrightarrow> unat (m_reqCount e) \<le> 30"
  shows "\<exists>s'. SendRequest E dst s = Some s' \<and> route_of (m_routingTable s') dst = Some (searched E dst s)"
proof -
  obtain s' where s': "SendRequest E dst s = Some s'" using SendRequest_total [OF assms(1,2,4)] by blast
  with SendRequest_leaves [OF assms(1) s' assms(3)] show ?thesis by auto
qed

subsection \<open>Properties of a request\<close>



text \<open>C11: what a request does, in a state with the components' invariant. At the rate limit nothing: the request is scheduled again for the end of
  the limiter's second. Below it, one copy goes out on every interface, each with a delay of its own and
  sent to the interface's broadcast address: a header that asks for the destination with the next sequence
  number and request id of this node, no hop counted, and the destination's last sequence number
  where a valid one is known, marked unknown where not; it differs between the copies only in the
  originator, the address of the interface. The TTL is that of the first ring for a destination without an
  entry, and that of the next ring for one with an entry. It is also the hop count of the entry, which is
  in search, counts one request more when the TTL is the network diameter, and is the only one that
  changes. The retry timer of the destination is scheduled with the delay for that entry.\<close>

theorem request_broadcast:
  assumes "rp_inv s" and "SendRequest E dst s = Some s'"
  shows "if m_rreqCount s = m_rreqRateLimit (par s)
     then s' = emit (SchedRequest (rreq_delay_left E + MicroSeconds 100) dst) s
     else m_rreqCount s' = m_rreqCount s + 1 \<and> rp_seqNo s' = rp_seqNo s + 1 \<and> m_requestId s' = m_requestId s + 1
       \<and> (\<exists>h e tm d. rq_dst h = dst \<and> rq_hopCount h = 0
            \<and> rq_originSeqNo h = rp_seqNo s' \<and> rq_requestID h = m_requestId s'
            \<and> (case route_of (purged E s) dst of
                 Some e \<Rightarrow> if m_validSeqNo e
                           then \<not> RreqHeader_GetUnknownSeqno h \<and> rq_dstSeqNo h = m_seqNo e
                           else RreqHeader_GetUnknownSeqno h
               | None \<Rightarrow> RreqHeader_GetUnknownSeqno h)
            \<and> m_flag e = IN_SEARCH
            \<and> m_hops e = (case route_of (purged E s) dst of Some e0 \<Rightarrow> next_ttl (par s) e0 | None \<Rightarrow> m_ttlStart (par s))
            \<and> m_reqCount e = (case route_of (purged E s) dst of Some e0 \<Rightarrow> m_reqCount e0 | None \<Rightarrow> 0)
                           + (if ucast (m_hops e) = m_netDiameter (par s) then 1 else 0)
            \<and> route_of (m_routingTable s') = (route_of (purged E s))(dst \<mapsto> e)
            \<and> retry_delay (par s) e = Some d
            \<and> map_of (m_addressReqTimer s') dst = Some (tm @ [TmSchedule (Some d)])
            \<and> log s' = log s @ map (\<lambda>(n, k, i).
                 SchedSend (MilliSeconds (uniform E (draws s + n) 0 10)) k
                   (control_packet (ucast (m_hops e)) MADAODVTYPE_RREQ
                      (RreqHeader_Serialize (wire E) (h\<lparr>rq_origin := ia_local i\<rparr>)))
                   (broadcast_destination E i)) (enumerate 0 (m_socketAddresses s)))"
proof (cases "m_rreqCount s = m_rreqRateLimit (par s)")
  case True
  with assms show ?thesis by (simp add: SendRequest_def)
next
  case False
  let ?h = "request_header E dst s" and ?e = "searched E dst s"
  from assms(2) False have "ScheduleRreqRetry E dst (request_sent E dst s) = Some s'"
    by (simp add: SendRequest_eq)
  note frame = ScheduleRreqRetry_frame [OF this]
  have log: "log s' = log s @ map (\<lambda>(n, k, i).
       SchedSend (MilliSeconds (uniform E (draws s + n) 0 10)) k
         (control_packet (ucast (m_hops ?e)) MADAODVTYPE_RREQ
            (RreqHeader_Serialize (wire E) (?h\<lparr>rq_origin := ia_local i\<rparr>)))
         (broadcast_destination E i)) (enumerate 0 (m_socketAddresses s))"
    using frame by (simp add: request_sent_frame rreq_packet_def split_beta)
  have count: "m_rreqCount s' = m_rreqCount s + 1" "rp_seqNo s' = rp_seqNo s + 1"
    "m_requestId s' = m_requestId s + 1"
    using frame by (simp_all add: request_sent_frame)
  obtain tm d where left: "retry_delay (par s) ?e = Some d"
    "map_of (m_addressReqTimer s') dst = Some (tm @ [TmSchedule (Some d)])"
    "route_of (m_routingTable s') = (route_of (purged E s))(dst \<mapsto> ?e)"
    using SendRequest_leaves [OF assms False] by blast
  show ?thesis
    unfolding if_not_P [OF False] count
    by (intro conjI refl, rule exI [of _ ?h], rule exI [of _ ?e], rule exI [of _ tm], rule exI [of _ d])
      (intro conjI request_header_fields searched_fields searched_flag left log)
qed

lemma example_request:
  "\<exists>s'. SendRequest (example_env 5) 9 example_node = Some s'"
  "m_rreqCount example_node \<noteq> m_rreqRateLimit (par example_node)"
proof -
  show "m_rreqCount example_node \<noteq> m_rreqRateLimit (par example_node)"
    by (simp add: example_params_def initial_params_def Let_def)
  show "\<exists>s'. SendRequest (example_env 5) 9 example_node = Some s'"
    using SendRequest_total [OF example_node_inv, of "example_env 5" 9] by simp
qed

theorem request_broadcast_witness:
  "\<exists>s' k p a. SendRequest (example_env 5) 9 example_node = Some s'
     \<and> log s' = log example_node @ [SchedSend (MilliSeconds 0) k p a]"
proof -
  obtain s' where s': "SendRequest (example_env 5) 9 example_node = Some s'"
    using example_request(1) by blast
  with request_broadcast [OF example_node_inv s'] example_request(2) show ?thesis by auto
qed

subsection \<open>The end of a search\<close>

text \<open>A search along the ring counts no request until it has reached the full diameter. \<open>search_rank\<close>
  bounds the requests that are left.\<close>

definition search_ok :: "params \<Rightarrow> rte \<Rightarrow> bool" where
  "search_ok p e \<longleftrightarrow>
     m_flag e = IN_SEARCH \<and> unat (m_hops e) \<le> unat (m_netDiameter p) \<and>
     (m_reqCount e \<noteq> 0 \<longrightarrow> unat (m_hops e) = unat (m_netDiameter p)) \<and>
     unat (m_reqCount e) \<le> unat (m_rreqRetries p)"

definition search_rank :: "params \<Rightarrow> rte \<Rightarrow> nat" where
  "search_rank p e =
     (if m_reqCount e \<noteq> 0 then 0 else Suc (unat (m_ttlThreshold p) - unat (m_hops e)))
     + (unat (m_rreqRetries p) - unat (m_reqCount e))"

lemma search_SetLifeTime [simp]:
  "search_ok p (SetLifeTime t l e) = search_ok p e" "search_rank p (SetLifeTime t l e) = search_rank p e"
  by (simp_all add: search_ok_def search_rank_def)

lemma next_search_rank:
  assumes "sane p" "unat (m_rreqRetries p) \<le> 31" "search_ok p e"
    and "unat (m_reqCount e) \<noteq> unat (m_rreqRetries p)"
  shows "search_ok p (next_search p e) \<and> search_rank p (next_search p e) < search_rank p e"
proof -
  let ?d = "unat (m_netDiameter p)" and ?i = "unat (m_ttlIncrement p)" and ?t = "unat (m_ttlThreshold p)"
  let ?h = "unat (m_hops e)" and ?c = "unat (m_reqCount e)"
  from assms(2-4) have c: "?c < unat (m_rreqRetries p)" "?c < 31" by (auto simp: search_ok_def)
  then have c1: "unat (m_reqCount e + 1) = Suc ?c" by (simp add: unat_word_ariths)
  then have c0: "m_reqCount e + 1 \<noteq> 0" by (metis nat.distinct(1) unat_0)
  have ttl: "unat (next_ttl p e) = (if ?h + ?i > ?t then ?d else ?h + ?i)"
    using assms(1,3) by (intro next_ttl_search) (auto simp: search_ok_def)
  show ?thesis
  proof (cases "unat (next_ttl p e) = ?d")
    case True
    with c c1 c0 show ?thesis
      by (auto simp: search_ok_def search_rank_def ucast_eq_diameter)
  next
    case False
    with ttl assms(1,3) have "?h + ?i \<le> ?t" "unat (next_ttl p e) = ?h + ?i" "0 < ?i" "?t \<le> ?d"
      by (auto simp: sane_def split: if_splits)
    moreover from this False assms(3) have "m_reqCount e = 0"
      by (auto simp: search_ok_def)
    ultimately show ?thesis
      using assms(3) False by (auto simp: search_ok_def search_rank_def ucast_eq_diameter)
  qed
qed

lemma purged_search:
  assumes "rp_inv s" "route_of (m_routingTable s) dst = Some e" "m_flag e = IN_SEARCH"
  shows "route_of (purged E s) dst = Some e"
  using assms by (simp add: purged_def route_of_Purge rp_inv_def entries_all_def purge_entry_def)

lemma stop_search_effect:
  "route_of (m_routingTable (stop_search E dst s)) dst = None"
  "map_of (m_addressReqTimer (stop_search E dst s)) dst = None"
  "\<forall>x\<in>set (m_queue (rp_queue (stop_search E dst s))). qe_dst x \<noteq> dst"
  by (auto simp: stop_search_def drop_queued_def delete_route_def emits_def Let_def route_of_DeleteRoute
      map_of_erase RequestQueue_DropPacketWithDst_def RequestQueue_Purge_def)

lemma expire_stops:
  assumes "rp_inv s" "route_of (m_routingTable s) dst = Some e" "m_flag e = IN_SEARCH"
    and "unat (m_reqCount e) = unat (m_rreqRetries (par s))"
  shows "\<exists>s1. RouteRequestTimerExpire E dst s = Some (stop_search E dst s1)"
proof -
  have "ucast (m_reqCount e) = m_rreqRetries (par s)"
    using assms(4) by (simp add: ucast_eq_retries)
  with purged_search [OF assms(1-3), of E] assms(3) show ?thesis
    by (auto simp: RouteRequestTimerExpire_def lookup_valid_eq lookup_eq into_def)
qed

text \<open>A request for a destination that is searched for, and has retries left, brings the search closer to
  its end.\<close>

definition next_round :: "ipv4 \<Rightarrow> rp \<Rightarrow> rte \<Rightarrow> rp \<Rightarrow> bool" where
  "next_round dst s e s' \<longleftrightarrow> rp_inv s' \<and> par s' = par s
     \<and> (\<exists>e'. route_of (m_routingTable s') dst = Some e' \<and> search_ok (par s) e'
           \<and> search_rank (par s) e' < search_rank (par s) e)"

lemma request_next_round:
  assumes "rp_inv s" "sane (par s)" "unat (m_rreqRetries (par s)) \<le> 31"
    and p: "route_of (purged E s) dst = Some e" and "search_ok (par s) e"
    and "unat (m_reqCount e) \<noteq> unat (m_rreqRetries (par s))"
    and "m_rreqCount s \<noteq> m_rreqRateLimit (par s)"
  shows "\<exists>s'. SendRequest E dst s = Some s' \<and> next_round dst s e s'"
proof -
  have "unat (m_reqCount e) \<le> 30" using assms(3,5,6) by (auto simp: search_ok_def)
  with SendRequest_total [OF assms(1,2), of E dst] p obtain s' where s': "SendRequest E dst s = Some s'" by auto
  have e: "searched E dst s = SetLifeTime (now E) (m_pathDiscoveryTime (par s)) (next_search (par s) e)"
    using p by (simp add: searched_def)
  from SendRequest_leaves [OF assms(1) s' assms(7)]
  have "route_of (m_routingTable s') dst = Some (searched E dst s)" by auto
  moreover have "par s' = par s"
    using presD [OF config.I_SendRequest [OF same_config_refl] s'] by (simp add: same_config_def)
  moreover have "rp_inv s'" using presD [OF good.I_SendRequest [OF assms(1)] s'] .
  ultimately show ?thesis
    using s' next_search_rank [OF assms(2,3,5,6)] by (auto simp: next_round_def e)
qed

lemma expire_searches:
  assumes "rp_inv s" "sane (par s)" "unat (m_rreqRetries (par s)) \<le> 31"
    and "route_of (m_routingTable s) dst = Some e" "search_ok (par s) e"
    and "unat (m_reqCount e) \<noteq> unat (m_rreqRetries (par s))"
  shows "\<exists>s'. RouteRequestTimerExpire E dst s = Some s'
       \<and> (m_rreqCount s \<noteq> m_rreqRateLimit (par s) \<longrightarrow> next_round dst s e s')"
proof -
  let ?s1 = "s\<lparr>m_routingTable := purged E s\<rparr>"
  have flag: "m_flag e = IN_SEARCH" using assms(5) by (simp add: search_ok_def)
  have p: "route_of (purged E s) dst = Some e" using purged_search [OF assms(1,4) flag] .
  have inv: "rp_inv ?s1" using good.I_lookupD [OF assms(1)] lookup_eq by blast
  have p1: "purged E ?s1 = purged E s" using purged_idem [OF assms(1), of E] by (simp add: purged_def)
  have run: "RouteRequestTimerExpire E dst s = SendRequest E dst ?s1"
    using p flag assms(6) by (simp add: RouteRequestTimerExpire_def lookup_valid_eq lookup_eq into_def
        ucast_eq_retries)
  show ?thesis
  proof (cases "m_rreqCount s = m_rreqRateLimit (par s)")
    case True
    then show ?thesis unfolding run by (simp add: SendRequest_def)
  next
    case False
    with request_next_round [OF inv, of E dst e] assms(2,3,5,6) p p1 run show ?thesis
      by (auto simp: next_round_def)
  qed
qed

text \<open>A run in which nobody answers: the retry timer expires, a request that the rate limit had put off goes
  out while there are retries left, and in between anything else happens that leaves the entry and the
  parameters as they are. The run goes on while the entry is there; the number counts the rounds of the search.\<close>

inductive unanswered :: "ipv4 \<Rightarrow> rp \<Rightarrow> nat \<Rightarrow> rp \<Rightarrow> bool" for dst s where
  unanswered_start: "unanswered dst s 0 s"
| unanswered_other: "unanswered dst s n u \<Longrightarrow> route_of (m_routingTable u) dst = Some e \<Longrightarrow>
    agent_step E ev u v \<Longrightarrow> route_of (m_routingTable v) dst = Some e \<Longrightarrow> par v = par u \<Longrightarrow> unanswered dst s n v"
| unanswered_expiry: "unanswered dst s n u \<Longrightarrow> route_of (m_routingTable u) dst = Some e \<Longrightarrow>
    m_rreqCount u \<noteq> m_rreqRateLimit (par u) \<or> ucast (m_reqCount e) = m_rreqRetries (par u) \<Longrightarrow>
    agent_step E (EvRreqTimer dst) u v \<Longrightarrow> unanswered dst s (Suc n) v"
| unanswered_deferred: "unanswered dst s n u \<Longrightarrow> route_of (m_routingTable u) dst = Some e \<Longrightarrow>
    m_rreqCount u \<noteq> m_rreqRateLimit (par u) \<Longrightarrow> ucast (m_reqCount e) \<noteq> m_rreqRetries (par u) \<Longrightarrow>
    agent_step E (EvSendRequest d dst) u v \<Longrightarrow> unanswered dst s (Suc n) v"

text \<open>What holds all through such a run that starts with \<open>r\<close> rounds to go.\<close>

definition searching :: "ipv4 \<Rightarrow> params \<Rightarrow> nat \<Rightarrow> nat \<Rightarrow> rp \<Rightarrow> bool" where
  "searching dst p r n s \<longleftrightarrow> rp_inv s \<and> (case route_of (m_routingTable s) dst of
       Some e \<Rightarrow> par s = p \<and> search_ok p e \<and> search_rank p e + n \<le> r
     | None \<Rightarrow> n \<le> Suc r \<and> map_of (m_addressReqTimer s) dst = None
               \<and> (\<forall>x\<in>set (m_queue (rp_queue s)). qe_dst x \<noteq> dst))"

lemma searching_next:
  "searching dst p r n s \<Longrightarrow> route_of (m_routingTable s) dst = Some e \<Longrightarrow> next_round dst s e s' \<Longrightarrow>
   searching dst p r (Suc n) s'"
  by (auto simp: searching_def next_round_def)

lemma searching_step:
  assumes "searching dst p r n u" and "agent_step E ev u v"
  shows "rp_inv v"
  using good.J_agent_step [OF assms(2)] assms(1) by (auto simp: searching_def intro: rp_inv_ack rp_inv_limit)

lemma rp_inv_expire: "rp_inv s \<Longrightarrow> rp_inv (expire (EvRreqTimer dst) s)"
  by (auto simp: rp_inv_def split: option.split)

lemma expire_RreqTimer [simp]:
  "m_routingTable (expire (EvRreqTimer dst) s) = m_routingTable s" "par (expire (EvRreqTimer dst) s) = par s"
  "m_rreqCount (expire (EvRreqTimer dst) s) = m_rreqCount s"
  by (simp_all split: option.split)

lemma next_round_expire [simp]: "next_round dst (expire (EvRreqTimer dst) s) e s' = next_round dst s e s'"
  by (simp add: next_round_def del: expire.simps)

lemma searching_expiry:
  assumes "sane p" "unat (m_rreqRetries p) \<le> 31" "searching dst p r n u"
    and "route_of (m_routingTable u) dst = Some e"
  shows "\<exists>v. RouteRequestTimerExpire E dst (expire (EvRreqTimer dst) u) = Some v
     \<and> (m_rreqCount u \<noteq> m_rreqRateLimit (par u) \<or> ucast (m_reqCount e) = m_rreqRetries (par u) \<longrightarrow>
          rp_inv v \<longrightarrow> searching dst p r (Suc n) v)"
proof -
  let ?u = "expire (EvRreqTimer dst) u"
  have u: "rp_inv ?u" "par ?u = p" "search_ok p e" "search_rank p e + n \<le> r"
    using assms(3,4) rp_inv_expire by (auto simp: searching_def simp del: expire.simps)
  have flag: "m_flag e = IN_SEARCH" using u(3) by (simp add: search_ok_def)
  show ?thesis
  proof (cases "unat (m_reqCount e) = unat (m_rreqRetries p)")
    case True
    then obtain s1 where "RouteRequestTimerExpire E dst ?u = Some (stop_search E dst s1)"
      using expire_stops [OF u(1), of dst e E] assms(4) flag u(2) by (auto simp del: expire.simps)
    moreover have "rp_inv (stop_search E dst s1) \<longrightarrow> searching dst p r (Suc n) (stop_search E dst s1)"
      using u(4) by (simp add: searching_def stop_search_effect)
    ultimately show ?thesis by simp
  next
    case False
    with expire_searches [OF u(1), of dst e E] assms(1,2,4) u(2,3)
    obtain v where v: "RouteRequestTimerExpire E dst ?u = Some v"
      "m_rreqCount u \<noteq> m_rreqRateLimit (par u) \<longrightarrow> next_round dst u e v"
      by (auto simp del: expire.simps)
    with False searching_next [OF assms(3,4)] u(2) show ?thesis
      by (auto simp: ucast_eq_retries simp del: expire.simps)
  qed
qed

lemma unanswered_searching:
  assumes "unanswered dst s n s'" and "searching dst (par s) r 0 s" and "sane (par s)" "unat (m_rreqRetries (par s)) \<le> 31"
  shows "searching dst (par s) r n s'"
  using assms
proof (induction rule: unanswered.induct)
  case unanswered_start
  then show ?case by simp
next
  case (unanswered_other n u e E ev v)
  then have "searching dst (par s) r n u" by simp
  with unanswered_other.hyps(2,4,5) searching_step [OF this unanswered_other.hyps(3)] show ?case
    by (simp add: searching_def)
next
  case (unanswered_expiry n u e E v)
  then have u: "searching dst (par s) r n u" by simp
  have "RouteRequestTimerExpire E dst (expire (EvRreqTimer dst) u) = Some v"
    using unanswered_expiry.hyps(4) by (simp add: agent_step_iff)
  with searching_expiry [OF unanswered_expiry.prems(2,3) u unanswered_expiry.hyps(2), of E]
    searching_step [OF u unanswered_expiry.hyps(4)] unanswered_expiry.hyps(3)
  show ?case by (auto simp del: expire.simps)
next
  case (unanswered_deferred n u e E d v)
  then have u: "searching dst (par s) r n u" by simp
  let ?u = "emit (Ran (SchedRequest d dst)) u"
  have run: "SendRequest E dst ?u = Some v" using unanswered_deferred.hyps(5) by (simp add: agent_step_iff)
  have i: "rp_inv ?u" "par ?u = par s" "search_ok (par s) e" "par u = par s"
    using u unanswered_deferred.hyps(2) by (auto simp: searching_def rp_inv_def emit_def)
  have "route_of (purged E ?u) dst = Some e"
    using purged_search [OF i(1)] i(3) unanswered_deferred.hyps(2) by (simp add: search_ok_def emit_def)
  with request_next_round [OF i(1), of E dst e] i unanswered_deferred.prems(2,3) unanswered_deferred.hyps(3,4) run
  have "next_round dst ?u e v" by (auto simp: emit_def ucast_eq_retries)
  with searching_next [OF u unanswered_deferred.hyps(2)] show ?case by (simp add: next_round_def emit_def)
qed


definition example_search :: rp where
  "example_search = the (SendRequest (example_env 5) 9 example_node)"

lemma example_search_facts:
  "rp_inv example_search" "par example_search = example_params" "enabled (EvRreqTimer 9) example_search"
  "route_of (m_routingTable example_search) 9 = Some (first_search (example_env 5) example_params 9)"
proof -
  have new: "searched (example_env 5) 9 example_node = first_search (example_env 5) example_params 9"
    by (simp add: searched_def)
  obtain s' where s': "SendRequest (example_env 5) 9 example_node = Some s'" using example_request(1) by blast
  then have "example_search = s'" by (simp add: example_search_def)
  moreover have "rp_inv s'" using presD [OF good.I_SendRequest [OF example_node_inv] s'] .
  moreover have "par s' = example_params"
    using presD [OF config.I_SendRequest [OF same_config_refl] s'] by (simp add: same_config_def)
  ultimately show "rp_inv example_search" "par example_search = example_params"
    "enabled (EvRreqTimer 9) example_search"
    "route_of (m_routingTable example_search) 9 = Some (first_search (example_env 5) example_params 9)"
    using SendRequest_leaves [OF example_node_inv s' example_request(2)] new by auto
qed

lemma example_search_count: "m_rreqCount example_search = 1"
proof -
  obtain s' where s': "SendRequest (example_env 5) 9 example_node = Some s'" using example_request(1) by blast
  with request_sent_frame(3) [of "example_env 5" 9 example_node] ScheduleRreqRetry_frame
  show ?thesis by (auto simp: example_search_def SendRequest_eq [OF example_request(2)])
qed


subsection \<open>A node's own requests\<close>

lemma fold_send_rreq_cache:
  "m_rreqIdCache (fold (send_rreq_on E h ttl) js s) =
     IdCache_run (map (\<lambda>j. (now E, ia_local (snd j), m_requestId s)) js) (m_rreqIdCache s)"
proof (induction js arbitrary: s)
  case Nil
  then show ?case by simp
next
  case (Cons j js)
  have "m_rreqIdCache (send_rreq_on E h ttl j s) =
      snd (IdCache_IsDuplicate (now E) (ia_local (snd j)) (m_requestId s) (m_rreqIdCache s))"
    by (simp add: send_rreq_on_def schedule_send_def jitter_def draw_def emit_def split_beta Let_def)
  with Cons show ?case by simp
qed

text \<open>A key asked for at \<open>t\<close> in a run at that time, and not known before, is known until the end of the
  lifetime.\<close>

lemma IdCache_run_records:
  assumes "(t, a, i) \<in> set qs" and "\<forall>q\<in>set qs. fst q = t" and "0 \<le> m_lifetime c"
    and "\<forall>u\<in>set (m_idCache c). uid_key u = (a, i) \<longrightarrow> m_expire u < t \<or> m_expire u = m_lifetime c + t"
  shows "\<exists>u\<in>set (m_idCache (IdCache_run qs c)). uid_key u = (a, i) \<and> m_expire u = m_lifetime c + t"
  using assms
proof (induction qs c rule: IdCache_run.induct)
  case (1 c)
  then show ?case by simp
next
  case (2 t' a' i' qs c)
  let ?c = "snd (IdCache_IsDuplicate t' a' i' c)"
  from 2(3) have t': "t' = t" by simp
  show ?case
  proof (cases "(a', i') = (a, i)")
    case True
    have "\<exists>u\<in>set (m_idCache ?c). uid_key u = (a, i) \<and> m_expire u = m_lifetime c + t"
    proof (cases "fst (IdCache_IsDuplicate t' a' i' c)")
      case dup: True
      then obtain u where "u \<in> set (m_idCache c)" "uid_key u = (a, i)" "t \<le> m_expire u"
        using True t' by (auto simp: IdCache_dup_iff)
      moreover from this 2(5) have "m_expire u = m_lifetime c + t" by force
      ultimately show ?thesis using t' by (auto simp: IdCache_dup_records)
    next
      case False
      with True t' show ?thesis by (auto simp: IdCache_dup_records uid_key_def)
    qed
    then obtain u where u: "u \<in> set (m_idCache ?c)" "uid_key u = (a, i)" "m_expire u = m_lifetime c + t"
      by blast
    moreover have "u \<in> set (m_idCache (IdCache_run qs ?c))"
      using u 2(3,4) by (intro IdCache_run_keeps) auto
    ultimately show ?thesis by auto
  next
    case False
    then have "(t, a, i) \<in> set qs" using 2(2) by auto
    moreover have "\<forall>u\<in>set (m_idCache ?c). uid_key u = (a, i) \<longrightarrow>
        m_expire u < t \<or> m_expire u = m_lifetime ?c + t"
      using 2(5) False by (auto simp: IdCache_dup_records uid_key_def split: if_splits)
    ultimately show ?thesis using 2(1) 2(3,4) by simp
  qed
qed

end
