(* ===== verification/Message_Props.thy ===== *)
theory Message_Props
  imports Discovery_Props
begin

text \<open>
  What the control messages do: duplicates of requests are ignored, a node's own among them; the test
  a reply has to pass to replace a route; an error message invalidates exactly the routes it names
  that lead over its sender.
\<close>

subsection \<open>Duplicate requests\<close>

lemma RecvRequest_duplicate:
  assumes "RreqHeader_Deserialize (wire E) (pk_bytes p) = Some (h, rest)"
    and "fst (IdCache_IsDuplicate (now E) (rq_origin h) (rq_requestID h) (m_rreqIdCache s))"
  shows "\<exists>c. RecvRequest E p receiver src s = Some (s\<lparr>m_routingTable := purged E s, m_rreqIdCache := c\<rparr>)
           \<and> (c = m_rreqIdCache s \<or> c = IdCache_Purge (now E) (m_rreqIdCache s))"
proof -
  have "snd (IdCache_IsDuplicate (now E) (rq_origin h) (rq_requestID h) (m_rreqIdCache s)) =
      IdCache_Purge (now E) (m_rreqIdCache s)"
    using assms(2) by (auto simp: IdCache_IsDuplicate_def Let_def split: if_splits)
  with assms have d: "IdCache_IsDuplicate (now E) (rq_origin h) (rq_requestID h) (m_rreqIdCache s) =
      (True, IdCache_Purge (now E) (m_rreqIdCache s))"
    by (simp add: prod_eq_iff)
  show ?thesis
  proof (cases "case route_of (purged E s) src of None \<Rightarrow> False | Some e \<Rightarrow> m_blackListState e")
    case True
    then have "RecvRequest E p receiver src s =
        Some (s\<lparr>m_routingTable := purged E s, m_rreqIdCache := m_rreqIdCache s\<rparr>)"
      by (simp add: RecvRequest_def assms(1) lookup_eq Let_def)
    then show ?thesis by blast
  next
    case False
    then have "RecvRequest E p receiver src s = Some (s\<lparr>m_routingTable := purged E s,
        m_rreqIdCache := IdCache_Purge (now E) (m_rreqIdCache s)\<rparr>)"
      by (simp add: RecvRequest_def assms(1) lookup_eq Let_def d)
    then show ?thesis by blast
  qed
qed

text \<open>C20: a request whose originator and id were seen within the lifetime of the cache is dropped: no
  answer, no forwarding, no change of any route; only what has expired is cleaned up.\<close>

theorem duplicate_request_ignored:
  assumes "codec_ok (wire E)" and "pk_bytes p = RreqHeader_Serialize (wire E) h @ rest"
    and "IdCache_seen (now E) (m_rreqIdCache s) (rq_origin h, rq_requestID h) \<noteq> None"
  shows "\<exists>c. RecvRequest E p receiver src s = Some (s\<lparr>m_routingTable := purged E s, m_rreqIdCache := c\<rparr>)
           \<and> (c = m_rreqIdCache s \<or> c = IdCache_Purge (now E) (m_rreqIdCache s))"
proof (rule RecvRequest_duplicate)
  show "RreqHeader_Deserialize (wire E) (pk_bytes p) = Some (h, rest)"
    unfolding assms(2) by (rule byte_order.rreq_des_ser [OF byte_orderI [OF assms(1)]])
  show "fst (IdCache_IsDuplicate (now E) (rq_origin h) (rq_requestID h) (m_rreqIdCache s))"
    using assms(3) by (simp add: IdCache_dup_iff IdCache_seen_None)
qed

definition example_rreq_packet :: packet where
  "example_rreq_packet = \<lparr>pk_uid = 1, pk_bytes = RreqHeader_Serialize be_codec example_rreq,
     pk_ttl_tag = Some 5, pk_oif_tag = None\<rparr>"

definition example_seen :: rp where
  "example_seen = example_node\<lparr>m_rreqIdCache := \<lparr>m_idCache =
     [\<lparr>m_context = rq_origin example_rreq, m_id = rq_requestID example_rreq, m_expire = 9\<rparr>],
     m_lifetime = 4\<rparr>\<rparr>"

theorem duplicate_request_ignored_witness:
  "\<exists>s'. RecvRequest (example_env 6) example_rreq_packet (ip4 10 1 1 1) 3 example_seen = Some s'
     \<and> log s' = log example_node \<and> m_socketAddresses example_seen \<noteq> []"
  using duplicate_request_ignored [of "example_env 6" example_rreq_packet example_rreq "[]" example_seen
      "ip4 10 1 1 1" 3]
  by (auto simp: example_rreq_packet_def be_codec_ok example_seen_def IdCache_seen_def uid_key_def)

text \<open>A node never answers or forwards its own request. Once a request has gone out over an
  interface under an id that was not in use, any copy of it that comes back within the lifetime of the
  cache is dropped.\<close>

lemma own_request_ignored:
  assumes "SendRequest E dst s = Some s'" and "m_rreqCount s \<noteq> m_rreqRateLimit (par s)"
    and "j \<in> set (m_socketAddresses s)" and "0 \<le> m_lifetime (m_rreqIdCache s)"
    and "IdCache_seen (now E) (m_rreqIdCache s) (ia_local (snd j), m_requestId s + 1) = None"
    and "now E \<le> now F" and "now F \<le> now E + m_lifetime (m_rreqIdCache s)"
    and "m_rreqIdCache s'' = m_rreqIdCache s'" and "codec_ok (wire F)"
    and "pk_bytes p = RreqHeader_Serialize (wire F) h @ rest"
    and "rq_origin h = ia_local (snd j)" and "rq_requestID h = m_requestId s'"
  shows "\<exists>c. RecvRequest F p receiver src s'' = Some (s''\<lparr>m_routingTable := purged F s'', m_rreqIdCache := c\<rparr>)"
proof -
  from assms(1,2) have "ScheduleRreqRetry E dst (request_sent E dst s) = Some s'"
    by (simp add: SendRequest_eq)
  note frame = ScheduleRreqRetry_frame [OF this]
  let ?qs = "map (\<lambda>j. (now E, ia_local (snd j), m_requestId s + 1)) (m_socketAddresses s)"
  have cache: "m_rreqIdCache s' = IdCache_run ?qs (m_rreqIdCache s)"
    using frame by (simp add: request_sent_def Let_def fold_send_rreq_cache)
  have "\<forall>u\<in>set (m_idCache (m_rreqIdCache s)). uid_key u = (ia_local (snd j), m_requestId s + 1) \<longrightarrow>
      m_expire u < now E \<or> m_expire u = m_lifetime (m_rreqIdCache s) + now E"
    using assms(5) by (auto simp: IdCache_seen_None)
  with assms(3,4) obtain u where "u \<in> set (m_idCache (m_rreqIdCache s'))"
    "uid_key u = (ia_local (snd j), m_requestId s + 1)" "m_expire u = m_lifetime (m_rreqIdCache s) + now E"
    using IdCache_run_records [of "now E" "ia_local (snd j)" "m_requestId s + 1" ?qs "m_rreqIdCache s"]
    by (force simp: cache)
  moreover have "m_requestId s' = m_requestId s + 1"
    using frame by (simp add: request_sent_frame)
  ultimately have "fst (IdCache_IsDuplicate (now F) (rq_origin h) (rq_requestID h) (m_rreqIdCache s''))"
    using assms(7,8,11,12) by (auto simp: IdCache_dup_iff)
  moreover have "RreqHeader_Deserialize (wire F) (pk_bytes p) = Some (h, rest)"
    unfolding assms(10) by (rule byte_order.rreq_des_ser [OF byte_orderI [OF assms(9)]])
  ultimately show ?thesis using RecvRequest_duplicate by blast
qed

lemma example_cache: "m_rreqIdCache example_node = \<lparr>m_idCache = [], m_lifetime = 5600000000\<rparr>"
  by (simp add: example_node_def) (simp add: run_defs Let_def)

subsection \<open>Replies\<close>

lemma accept_reply_eq:
  "accept_reply h hop e =
     (if \<not> m_validSeqNo e then Some True
      else map_option
             (\<lambda>d. 0 < d \<or> (rp_dstSeqNo h = m_seqNo e \<and> (m_flag e \<noteq> VALID \<or> ucast hop < m_hops e)))
             (s32_sub (rp_dstSeqNo h) (m_seqNo e)))"
proof (cases "m_validSeqNo e")
  case True
  then show ?thesis
    unfolding accept_reply_def map_option_case
    by (cases "s32_sub (rp_dstSeqNo h) (m_seqNo e)")
      (simp, simp only: simp_thms option.case bind.simps if_True if_False option.inject if_bool_eq_disj, blast)
next
  case False
  then show ?thesis by (simp add: accept_reply_def)
qed

text \<open>The installation alone, with its undefined case: an existing route is replaced exactly when the route's sequence number is invalid, or the
  reply's is greater as a signed number, or they are equal and the route is not valid or longer than
  the reply's. When both are valid and their signed difference leaves the range of an \<open>int\<close>, as when
  the numbers pass from \<open>2 ^ 31 - 1\<close> to \<open>2 ^ 31\<close>, the behaviour is undefined.\<close>

lemma reply_replaces_older_route:
  "install_reply E h hop new (Some e) s =
     (let d = sint (rp_dstSeqNo h) - sint (m_seqNo e) in
      if \<not> m_validSeqNo e then Some (update_route new s)
      else if d < - (2 ^ 31) \<or> 2 ^ 31 \<le> d then None
      else if sint (m_seqNo e) < sint (rp_dstSeqNo h)
              \<or> (rp_dstSeqNo h = m_seqNo e \<and> (m_flag e \<noteq> VALID \<or> unat hop < unat (m_hops e)))
           then Some (update_route new s)
           else Some s)"
proof -
  have "unat (ucast hop :: u16) = unat hop"
    by (simp add: unsigned_ucast_eq take_bit_nat_eq_self_iff order_less_le_trans [OF unsigned_less])
  then have less: "ucast hop < m_hops e \<longleftrightarrow> unat hop < unat (m_hops e)"
    by (simp add: word_less_nat_alt)
  define d where "d = sint (rp_dstSeqNo h) - sint (m_seqNo e)"
  then have newer: "sint (m_seqNo e) < sint (rp_dstSeqNo h) \<longleftrightarrow> 0 < d" by simp
  have sub: "s32_sub (rp_dstSeqNo h) (m_seqNo e) = (if d < - (2 ^ 31) \<or> 2 ^ 31 \<le> d then None else Some d)"
    by (auto simp: s32_sub_def d_def)
  have "install_reply E h hop new (Some e) s =
      map_option (\<lambda>b. if b then update_route new s else s) (accept_reply h hop e)"
    by (cases "accept_reply h hop e") (simp_all add: install_reply_def)
  then show ?thesis
    unfolding d_def [symmetric] newer Let_def accept_reply_eq sub less
    by (cases "m_validSeqNo e"; cases "d < - (2 ^ 31) \<or> 2 ^ 31 \<le> d")
      (simp_all only: if_True if_False not_True_eq_False not_False_eq_True option.map if_distrib [where f = Some])
qed

subsection \<open>Errors\<close>

text \<open>While an error message is put together the table is only looked at: it stays what the purge at
  the time of the event makes of it.\<close>

definition purges_to :: "ns3 \<Rightarrow> rtable \<Rightarrow> rp \<Rightarrow> bool" where
  "purges_to E P s \<longleftrightarrow>
     entries_all rte_ok (m_routingTable s) \<and> 0 \<le> m_badLinkLifetime (m_routingTable s) \<and> purged E s = P"

lemma purges_to_purged: "purges_to E P s \<Longrightarrow> purges_to E P (s\<lparr>m_routingTable := purged E s\<rparr>)"
  using purge_idem [of "m_routingTable s" "now E"]
  by (auto simp: purges_to_def purged_def ok.inv_Purge)

interpretation looking: lookup_client free free free free E "purges_to E P"
  by unfold_locales
    (auto simp: lookup_eq purges_to_purged, auto simp: purges_to_def purged_def emit_def)

lemma list_via_eq:
  "list_via E a s =
     (fst (RoutingTable_GetListOfDestinationWithNextHop (now E) a (m_routingTable s)),
      s\<lparr>m_routingTable := purged E s\<rparr>)"
  by (simp add: list_via_def RoutingTable_GetListOfDestinationWithNextHop_def purged_def Let_def)

text \<open>The destinations taken out of the header: those that are listed and reached over the sender.\<close>

lemma fold_matching:
  "map_of (fold (\<lambda>i m. if fst i = a then smap_insert a q m else m) ds m) k =
     (if k = a \<and> a \<in> fst ` set ds \<and> map_of m a = None then Some q else map_of m k)"
  by (induction ds arbitrary: m) (auto simp: map_of_insert split: option.splits)

lemma collect_unreachable_keys:
  "map_of (fst (collect_unreachable ds h m)) k = None \<longleftrightarrow>
     map_of m k = None \<and> \<not> (k \<in> fst ` set ds \<and> k \<in> fst ` set (re_unreachable h))"
proof (induction ds h m rule: collect_unreachable.induct)
  case (1 ds h m)
  show ?case
  proof (cases "re_unreachable h")
    case Nil
    then show ?thesis
      by (subst collect_unreachable.simps) (simp add: RerrHeader_RemoveUnDestination_def)
  next
    case (Cons u us)
    then have r: "RerrHeader_RemoveUnDestination h = (Some u, h\<lparr>re_unreachable := us\<rparr>)"
      by (simp add: RerrHeader_RemoveUnDestination_def)
    note IH = 1 [OF r [symmetric] refl]
    show ?thesis
      by (subst collect_unreachable.simps) (auto simp: r IH fold_matching Cons image_iff)
  qed
qed

text \<open>What the table is after the message has been sent and the routes invalidated.\<close>

lemma invalidated_after:
  assumes "purges_to E P s" and "m_badLinkLifetime P = bad"
  shows "route_of (m_routingTable (invalidate_routes E un s)) k =
     map_option (\<lambda>e. if m_flag e = VALID \<and> map_of un k \<noteq> None then Invalidate (now E) bad e else e)
       (route_of P k)"
proof -
  have "m_badLinkLifetime (m_routingTable s) = bad"
    using assms by (auto simp: purges_to_def purged_def)
  then show ?thesis
    using assms(1)
    by (simp add: invalidate_routes_def route_of_InvalidateRoutesWithDst purges_to_def purged_def
        cong: if_cong)
qed

lemma purges_to_list_via:
  "rp_inv s \<Longrightarrow> purges_to E (purged E s) (s\<lparr>m_routingTable := purged E s\<rparr>)"
  using purges_to_purged [of E "purged E s" s] by (simp add: purges_to_def rp_inv_def)

lemma listed_iff:
  assumes "rp_inv s"
  shows "k \<in> fst ` set (fst (RoutingTable_GetListOfDestinationWithNextHop (now E) a (m_routingTable s)))
     \<longleftrightarrow> (\<exists>e. route_of (purged E s) k = Some e \<and> GetNextHop e = a)"
proof -
  have "smap_inv (m_ipv4AddressEntry (m_routingTable s))"
    using assms by (simp add: rp_inv_def entries_all_def)
  from GetListOfDestinationWithNextHop_eq [OF this, of "now E" a k]
  have "map_of (fst (RoutingTable_GetListOfDestinationWithNextHop (now E) a (m_routingTable s))) k \<noteq> None
     \<longleftrightarrow> (\<exists>e. route_of (purged E s) k = Some e \<and> GetNextHop e = a)"
    by (auto simp: purged_def split: option.splits)
  then show ?thesis by (simp add: map_of_eq_None_iff)
qed

lemma map_of_insert_None:
  "map_of (smap_insert a v m) k = None \<longleftrightarrow> k \<noteq> a \<and> map_of m k = None"
  by (auto simp: map_of_insert split: option.splits)

lemma Invalidate_VALID:
  "m_flag e = VALID \<Longrightarrow> Invalidate t bad e = e\<lparr>m_flag := INVALID, m_reqCount := 0, m_lifeTime := bad + t\<rparr>"
  by (simp add: Invalidate_def)

text \<open>C18: an error message invalidates exactly the valid routes to the destinations it lists whose next
  hop is the node it came from, for the bad link lifetime; every other entry is what the purge left, and
  no sequence number is changed by the message.\<close>

theorem error_invalidates_exactly:
  assumes "rp_inv s" and "codec_ok (wire E)" and "pk_bytes p = RerrHeader_Serialize (wire E) h @ rest"
    and "smap_inv (re_unreachable h)" and "length (re_unreachable h) < 256"
    and "RecvError E p src s = Some s'"
  shows "route_of (m_routingTable s') k =
     map_option (\<lambda>e. if m_flag e = VALID \<and> GetNextHop e = src \<and> k \<in> fst ` set (re_unreachable h)
                      then e\<lparr>m_flag := INVALID, m_reqCount := 0,
                             m_lifeTime := m_badLinkLifetime (m_routingTable s) + now E\<rparr>
                      else e)
       (route_of (purged E s) k)"
proof -
  have des: "RerrHeader_Deserialize (wire E) (pk_bytes p) = Some (h, rest)"
    unfolding assms(3) using assms(4,5)
    by (intro byte_order.rerr_des_ser [OF byte_orderI [OF assms(2)]]) simp
  let ?ds = "fst (RoutingTable_GetListOfDestinationWithNextHop (now E) src (m_routingTable s))"
  let ?s1 = "s\<lparr>m_routingTable := purged E s\<rparr>"
  obtain un h' where un: "collect_unreachable ?ds h [] = (un, h')" by fastforce
  from assms(6) obtain h2 pre s2 s3 where
    loop: "rerr_loop E un h' [] ?s1 = Some (h2, pre, s2)" and rest: "rerr_rest E h2 pre s2 = Some s3"
    and s': "s' = invalidate_routes E un s3"
    by (auto simp: RecvError_def des list_via_eq un bind_eq_Some_conv)
  have "rerr_good h'" using rerr_good_collected [of ?ds h "[]"] by (simp add: un)
  from presD [OF looking.I_rerr_loop [OF purges_to_list_via [OF assms(1)] this] loop]
  have "purges_to E (purged E s) s2" "rerr_good h2" by simp_all
  then have "purges_to E (purged E s) s3"
    using presD [OF looking.I_rerr_rest rest] by blast
  from invalidated_after [OF this refl, of un k]
  have eq: "route_of (m_routingTable s') k =
      map_option (\<lambda>e. if m_flag e = VALID \<and> map_of un k \<noteq> None
                      then Invalidate (now E) (m_badLinkLifetime (m_routingTable s)) e else e)
        (route_of (purged E s) k)"
    by (simp add: s' cong: if_cong)
  have "map_of un k \<noteq> None \<longleftrightarrow>
      (\<exists>e. route_of (purged E s) k = Some e \<and> GetNextHop e = src) \<and> k \<in> fst ` set (re_unreachable h)"
    using collect_unreachable_keys [of ?ds h "[]" k] listed_iff [OF assms(1), of k E src] by (simp add: un)
  then show ?thesis
    unfolding eq by (cases "route_of (purged E s) k") (auto simp: Invalidate_VALID)
qed

definition example_rerr_packet :: packet where
  "example_rerr_packet = \<lparr>pk_uid = 2, pk_bytes = RerrHeader_Serialize be_codec example_rerr,
     pk_ttl_tag = Some 1, pk_oif_tag = None\<rparr>"

lemma example_table_purge [simp]: "t \<le> 10 \<Longrightarrow> RoutingTable_Purge t example_table = example_table"
  using example_purged [of t] by (simp add: purged_def)

lemma example_rerr_run: "\<exists>s'. RecvError (example_env 5) example_rerr_packet 5 example_node = Some s'"
proof -
  have "RerrHeader_Deserialize be_codec (pk_bytes example_rerr_packet) = Some (example_rerr, [])"
    using be.rerr_des_ser [of example_rerr "[]"] by (simp add: example_rerr_packet_def example_rerr_def)
  moreover have "fst (RoutingTable_GetListOfDestinationWithNextHop 5 5 example_table) = [(3, 7)]"
    using example_purged [of 5]
    by (simp add: RoutingTable_GetListOfDestinationWithNextHop_def Let_def purged_def)
      (simp add: example_table_def example_rte_def RoutingTableEntry_new_def smap_of_list_def smap_insert_def)
  moreover have "collect_unreachable [(3, 7)] example_rerr [] = ([(3, 8)], example_rerr\<lparr>re_unreachable := []\<rparr>)"
    by (simp add: example_rerr_def collect_unreachable.simps [of _ "\<lparr>re_flag = f, re_reserved = r, re_unreachable = x # xs\<rparr>" for f r x xs]
        collect_unreachable.simps [of _ "\<lparr>re_flag = f, re_reserved = r, re_unreachable = []\<rparr>" for f r]
        RerrHeader_RemoveUnDestination_def smap_insert_def)
  ultimately show ?thesis
    by (simp add: RecvError_def list_via_eq rerr_loop_Cons RerrHeader_AddUnDestination_def lookup_eq
        RerrHeader_GetDestCount_def example_rerr_def rerr_rest_def SendRerrMessage_def GetPrecursors_def
        IsPrecursorListEmpty_def into_def example_rte_def RoutingTableEntry_new_def purged_def smap_insert_def)
qed

theorem error_invalidates_exactly_witness:
  "\<exists>s'. RecvError (example_env 5) example_rerr_packet 5 example_node = Some s'
     \<and> map_option m_flag (route_of (m_routingTable s') 3) = Some INVALID
     \<and> route_of (m_routingTable s') 4 = Some (example_rte 4 6 90)"
proof -
  obtain s' where s': "RecvError (example_env 5) example_rerr_packet 5 example_node = Some s'"
    using example_rerr_run by blast
  note exact = error_invalidates_exactly [OF example_node_inv, of "example_env 5" example_rerr_packet
      example_rerr "[]" 5 s', OF _ _ _ _ s']
  show ?thesis
    using s' exact [of 3] exact [of 4]
    by (simp add: be_codec_ok example_rerr_packet_def example_rerr_def example_rte_def
        RoutingTableEntry_new_def)
qed

text \<open>When the link to a neighbour with an entry breaks, every valid route over that neighbour and the
  one to it become invalid; every other entry is what the purge left.\<close>

lemma broken_link_invalidates:
  assumes "rp_inv s" and "route_of (purged E s) nextHop = Some e0"
    and "SendRerrWhenBreaksLinkToNextHop E nextHop s = Some s'"
  shows "route_of (m_routingTable s') k =
     map_option (\<lambda>e. if m_flag e = VALID \<and> (GetNextHop e = nextHop \<or> k = nextHop)
                      then e\<lparr>m_flag := INVALID, m_reqCount := 0,
                             m_lifeTime := m_badLinkLifetime (m_routingTable s) + now E\<rparr>
                      else e)
       (route_of (purged E s) k)"
proof -
  let ?s1 = "s\<lparr>m_routingTable := purged E s\<rparr>"
  have inv: "rp_inv ?s1" using good.I_lookupD [OF assms(1)] lookup_eq by blast
  have p1: "purged E ?s1 = purged E s" using purged_idem [OF assms(1), of E] by (simp add: purged_def)
  let ?un = "fst (RoutingTable_GetListOfDestinationWithNextHop (now E) nextHop (m_routingTable ?s1))"
  from assms(2,3) obtain h1 h2 pre0 pre s2 s3 where
    good: "rerr_good h1" and
    loop: "rerr_loop E ?un h1 pre0 ?s1 = Some (h2, pre, s2)" and rest: "rerr_rest E h2 pre s2 = Some s3"
    and s': "s' = invalidate_routes E (smap_insert nextHop (m_seqNo e0) ?un) s3"
    using list_via_eq [of E nextHop ?s1] p1
    by (auto simp: SendRerrWhenBreaksLinkToNextHop_def lookup_eq bind_eq_Some_conv Let_def
        dest: rerr_good_add [OF rerr_good_new])
  from presD [OF looking.I_rerr_loop [OF purges_to_list_via [OF assms(1)] good] loop]
  have "purges_to E (purged E s) s2" "rerr_good h2" by simp_all
  then have "purges_to E (purged E s) s3"
    using presD [OF looking.I_rerr_rest rest] by blast
  from invalidated_after [OF this refl, of "smap_insert nextHop (m_seqNo e0) ?un" k]
  have eq: "route_of (m_routingTable s') k =
      map_option (\<lambda>e. if m_flag e = VALID \<and> map_of (smap_insert nextHop (m_seqNo e0) ?un) k \<noteq> None
                      then Invalidate (now E) (m_badLinkLifetime (m_routingTable s)) e else e)
        (route_of (purged E s) k)"
    by (simp add: s' cong: if_cong)
  have "map_of (smap_insert nextHop (m_seqNo e0) ?un) k \<noteq> None \<longleftrightarrow>
      k = nextHop \<or> (\<exists>e. route_of (purged E s) k = Some e \<and> GetNextHop e = nextHop)"
    using listed_iff [OF inv, of k E nextHop] p1
    unfolding map_of_insert_None by (simp add: map_of_eq_None_iff)
  then show ?thesis
    unfolding eq by (cases "route_of (purged E s) k") (auto simp: Invalidate_VALID)
qed

end
