(* ===== verification/Data_Props.thy ===== *)
theory Data_Props
  imports Message_Props
begin

text \<open>
  The data path: the packets released when a route is found, the routes handed out and refreshed, the
  forwarding decision, broadcasts, and two places where what is recorded falls behind what was done.
\<close>

subsection \<open>Waiting packets\<close>

text \<open>One pass over the packets that wait: those for \<open>dst\<close> are taken out until one of them is bound to
  another device, and that one with them.\<close>

fun left_waiting :: "ns3 \<Rightarrow> ipv4 \<Rightarrow> ipv4_route \<Rightarrow> queue_entry list \<Rightarrow> queue_entry list" where
  "left_waiting E dst route [] = []"
| "left_waiting E dst route (x # xs) =
     (if qe_dst x \<noteq> dst then x # left_waiting E dst route xs
      else if wrong_device E x route then xs
      else left_waiting E dst route xs)"

lemma left_waiting_others: "\<forall>x\<in>set xs. qe_dst x \<noteq> dst \<Longrightarrow> left_waiting E dst route (xs @ ys) = xs @ left_waiting E dst route ys"
  by (induction xs) auto

lemma left_waiting_all:
  "\<forall>x\<in>set xs. qe_dst x = dst \<longrightarrow> \<not> wrong_device E x route \<Longrightarrow> left_waiting E dst route xs = filter (\<lambda>x. qe_dst x \<noteq> dst) xs"
  by (induction xs) auto

lemma release_until:
  "SendPacketFromQueue E dst route s =
     (let live = filter (\<lambda>x. \<not> RequestQueue_IsExpired (now E) x) (m_queue (rp_queue s));
          expired = filter (RequestQueue_IsExpired (now E)) (m_queue (rp_queue s)) in
      s\<lparr>rp_queue := (rp_queue s)\<lparr>m_queue := left_waiting E dst route live\<rparr>,
        log := log s @ map RequestQueue_Drop expired
               @ map (release route) (takeWhile (\<lambda>x. \<not> wrong_device E x route) (filter (\<lambda>x. qe_dst x = dst) live))\<rparr>)"
proof (induction "length (m_queue (rp_queue s))" arbitrary: s rule: less_induct)
  case less
  define live where "live = filter (\<lambda>x. \<not> RequestQueue_IsExpired (now E) x) (m_queue (rp_queue s))"
  define expired where "expired = filter (RequestQueue_IsExpired (now E)) (m_queue (rp_queue s))"
  show ?case
  proof (cases "take_first dst live")
    case None
    then have d: "dequeue E dst s = (None, s\<lparr>rp_queue := (rp_queue s)\<lparr>m_queue := live\<rparr>,
        log := log s @ map RequestQueue_Drop expired\<rparr>)"
      by (simp add: dequeue_def RequestQueue_Dequeue_def RequestQueue_Purge_def live_def expired_def emits_def)
    from None have "left_waiting E dst route live = live" "filter (\<lambda>x. qe_dst x = dst) live = []"
      using left_waiting_others [of live dst E route "[]"] by (auto simp: take_first_None filter_empty_conv)
    with d show ?thesis
      by (subst SendPacketFromQueue.simps) (simp add: Let_def flip: live_def expired_def)
  next
    case (Some a)
    then obtain e xs ys where a: "a = (e, xs @ ys)" and l: "live = xs @ e # ys" and e: "qe_dst e = dst"
      and xs: "\<forall>x\<in>set xs. qe_dst x \<noteq> dst"
      by (cases a) (auto dest: take_first_Some)
    let ?s = "s\<lparr>rp_queue := (rp_queue s)\<lparr>m_queue := xs @ ys\<rparr>, log := log s @ map RequestQueue_Drop expired\<rparr>"
    have d: "dequeue E dst s = (Some e, ?s)"
      using Some by (simp add: dequeue_def RequestQueue_Dequeue_def RequestQueue_Purge_def live_def
          expired_def emits_def a)
    have mine: "filter (\<lambda>x. qe_dst x = dst) live = e # filter (\<lambda>x. qe_dst x = dst) ys"
      using xs e by (simp add: l)
    show ?thesis
    proof (cases "wrong_device E e route")
      case True
      with d have "SendPacketFromQueue E dst route s = ?s" by (subst SendPacketFromQueue.simps) simp
      with True xs e mine show ?thesis
        by (simp add: Let_def l left_waiting_others flip: live_def expired_def)
    next
      case False
      with d have step: "SendPacketFromQueue E dst route s = SendPacketFromQueue E dst route (emit (release route e) ?s)"
        by (subst SendPacketFromQueue.simps) simp
      have "\<forall>x\<in>set live. \<not> RequestQueue_IsExpired (now E) x" by (simp add: live_def)
      then have "filter (\<lambda>x. \<not> RequestQueue_IsExpired (now E) x) (xs @ ys) = xs @ ys"
        "filter (RequestQueue_IsExpired (now E)) (xs @ ys) = []"
        by (auto simp: l filter_empty_conv filter_id_conv)
      moreover have "length (xs @ ys) < length (m_queue (rp_queue s))" using dequeue_shorter [OF d] by simp
      ultimately show ?thesis
        using less.hyps [of "emit (release route e) ?s"] False xs e mine unfolding step
        by (simp add: emit_def Let_def l left_waiting_others flip: live_def expired_def)
    qed
  qed
qed

lemma release_all:
  assumes "\<forall>x\<in>set (m_queue (rp_queue s)). qe_dst x = dst \<longrightarrow> \<not> wrong_device E x route"
  shows "SendPacketFromQueue E dst route s =
     (let live = filter (\<lambda>x. \<not> RequestQueue_IsExpired (now E) x) (m_queue (rp_queue s));
          expired = filter (RequestQueue_IsExpired (now E)) (m_queue (rp_queue s)) in
      s\<lparr>rp_queue := (rp_queue s)\<lparr>m_queue := filter (\<lambda>x. qe_dst x \<noteq> dst) live\<rparr>,
        log := log s @ map RequestQueue_Drop expired @ map (release route) (filter (\<lambda>x. qe_dst x = dst) live)\<rparr>)"
proof -
  let ?live = "filter (\<lambda>x. \<not> RequestQueue_IsExpired (now E) x) (m_queue (rp_queue s))"
  have "left_waiting E dst route ?live = filter (\<lambda>x. qe_dst x \<noteq> dst) ?live"
    using assms by (intro left_waiting_all) auto
  moreover have "takeWhile (\<lambda>x. \<not> wrong_device E x route) (filter (\<lambda>x. qe_dst x = dst) ?live)
      = filter (\<lambda>x. qe_dst x = dst) ?live"
    using assms by (auto simp: takeWhile_eq_all_conv)
  ultimately show ?thesis by (simp only: release_until Let_def)
qed

text \<open>C23: when a route is found, one pass over the queue releases the packets that wait for its destination
  over it, oldest first, each once with its tag removed, the route's source address and one more TTL. It
  stops at the first of them that is bound to another device: that packet is taken out and lost, without
  a call of its error callback, and the later ones for the destination stay in the queue. Expired packets are
  dropped, packets for other destinations keep waiting in their order.\<close>

theorem waiting_packets_released:
  "SendPacketFromQueue E dst route s =
     (let live = filter (\<lambda>x. \<not> RequestQueue_IsExpired (now E) x) (m_queue (rp_queue s));
          expired = filter (RequestQueue_IsExpired (now E)) (m_queue (rp_queue s)) in
      s\<lparr>rp_queue := (rp_queue s)\<lparr>m_queue := left_waiting E dst route live\<rparr>,
        log := log s @ map RequestQueue_Drop expired
               @ map (\<lambda>x. Forward (qe_ucb x) route ((qe_packet x)\<lparr>pk_oif_tag := None\<rparr>)
                      ((qe_header x)\<lparr>ih_source := rt_source route, ih_ttl := ih_ttl (qe_header x) + 1\<rparr>))
                   (takeWhile (\<lambda>x. \<not> wrong_device E x route) (filter (\<lambda>x. qe_dst x = dst) live))\<rparr>)"
  unfolding release_until release_def ..

subsection \<open>Routes handed out\<close>

lemma touch_effect:
  assumes "rp_inv s"
  shows "rp_inv (touch E a s) \<and> par (touch E a s) = par s \<and> purged E (touch E a s) = m_routingTable (touch E a s)
       \<and> (\<forall>k. route_of (m_routingTable (touch E a s)) k =
            map_option (\<lambda>e. if k = a \<and> m_flag e = VALID
                 then e\<lparr>m_reqCount := 0, m_lifeTime := max (now E + m_activeRouteTimeout (par s)) (m_lifeTime e)\<rparr>
                 else e) (route_of (purged E s) k))"
proof -
  obtain b s' where u: "UpdateRouteLifeTime E a (m_activeRouteTimeout (par s)) s = (b, s')" by fastforce
  note eff = UpdateRouteLifeTime_effect [OF assms u]
  have t: "touch E a s = s'" by (simp add: touch_def u)
  have inv: "rp_inv s'" using good.I_touch [OF assms, of E a] by (simp add: t)
  have par: "par s' = par s"
    using config.I_touch [OF same_config_refl, of s E a] by (simp add: same_config_def t)
  have routes: "route_of (m_routingTable s') k =
      map_option (\<lambda>e. if k = a \<and> m_flag e = VALID
           then e\<lparr>m_reqCount := 0, m_lifeTime := max (now E + m_activeRouteTimeout (par s)) (m_lifeTime e)\<rparr>
           else e) (route_of (purged E s) k)" for k
    using eff by (cases "route_of (purged E s) k") auto
  have "RoutingTable_Purge (now E) (m_routingTable s') = m_routingTable s'"
  proof -
    have P: "smap_inv (m_ipv4AddressEntry (purged E s))" "smap_inv (m_ipv4AddressEntry (m_routingTable s'))"
      using assms inv purged_ok [of s E] by (simp_all add: rp_inv_def entries_all_def)
    have fix_P: "route_of (purged E s) k = Some e \<Longrightarrow>
        purge_entry (now E) (m_badLinkLifetime (m_routingTable s)) e = Some e" for k e
      using route_of_Purge [OF P(1), of "now E" k] purged_idem [OF assms, of E] by simp
    have alive: "route_of (purged E s) k = Some e \<Longrightarrow> m_flag e = VALID \<Longrightarrow> now E \<le> m_lifeTime e" for k e
      using fix_P [of k e] purge_entry_Some_VALID by blast
    have bad: "m_badLinkLifetime (m_routingTable s') = m_badLinkLifetime (m_routingTable s)"
      using config.I_touch [OF same_config_refl, of s E a] by (simp add: same_config_def t)
    have "purge_entries (now E) (m_badLinkLifetime (m_routingTable s')) (m_ipv4AddressEntry (m_routingTable s'))
        = m_ipv4AddressEntry (m_routingTable s')"
    proof (rule smap_ext)
      fix k
      show "map_of (purge_entries (now E) (m_badLinkLifetime (m_routingTable s'))
          (m_ipv4AddressEntry (m_routingTable s'))) k = route_of (m_routingTable s') k"
        using fix_P [of k] P(2) alive [of k]
        by (cases "route_of (purged E s) k")
          (auto simp: map_of_purge_entries routes bad purge_entry_def GetLifeTime_def
            split: if_splits RouteFlags.splits)
    qed (use P in auto)
    then show ?thesis by (simp add: RoutingTable_Purge_def)
  qed
  with inv par routes show ?thesis by (simp add: t purged_def)
qed

lemma LoopbackRoute_result:
  "LoopbackRoute E h oif s = Some r \<Longrightarrow>
     rt_gateway r = ip4 127 0 0 1 \<and> rt_device r = m_lo s \<and> rt_destination r = ih_destination h
     \<and> rt_source r \<noteq> any_addr E"
  by (auto simp: LoopbackRoute_def Let_def bind_eq_Some_conv split: option.splits list.splits if_splits)

text \<open>C22: what \<open>RouteOutput\<close> answers for a packet. It yields no route exactly when it reports that there
  is none. When the table has a valid route the answer is that route, if it leaves over the device
  asked for, and its lifetime is afterwards at least the active route timeout and not shorter than
  before. Otherwise the answer is the loopback route for the destination, and the packet is tagged.\<close>

theorem route_output_result:
  assumes "rp_inv s" and "RouteOutput E (Some p) h oif s = Some (ro, s')"
  shows "(ro_route ro = None \<longleftrightarrow> ro_sockerr ro = Some ERROR_NOROUTETOHOST)
       \<and> (case (ro_route ro, route_of (purged E s) (ih_destination h)) of
            (Some r, e0) \<Rightarrow>
              (case e0 of
                 Some e \<Rightarrow> m_flag e = VALID \<and> r = m_ipv4Route e \<and> (oif = None \<or> rt_device r = oif)
                   \<and> ro_packet ro = Some p
                   \<and> (\<exists>e'. route_of (m_routingTable s') (ih_destination h) = Some e' \<and> m_flag e' = VALID
                          \<and> now E + m_activeRouteTimeout (par s) \<le> m_lifeTime e' \<and> m_lifeTime e \<le> m_lifeTime e')
               | None \<Rightarrow> False)
              \<or> ((\<forall>e. e0 = Some e \<longrightarrow> m_flag e \<noteq> VALID)
                 \<and> rt_gateway r = ip4 127 0 0 1 \<and> rt_device r = m_lo s \<and> rt_destination r = ih_destination h
                 \<and> ro_packet ro = Some (tag_oif E oif p))
          | (None, e0) \<Rightarrow>
              m_socketAddresses s = []
              \<or> (\<exists>e d. e0 = Some e \<and> m_flag e = VALID \<and> oif = Some d \<and> GetOutputDevice e \<noteq> Some d))"
proof (cases "m_socketAddresses s = []")
  case True
  with assms(2) show ?thesis by (auto simp: RouteOutput_def split: option.split)
next
  case sockets: False
  let ?d = "ih_destination h" and ?s1 = "s\<lparr>m_routingTable := purged E s\<rparr>"
  show ?thesis
  proof (cases "\<exists>e. route_of (purged E s) ?d = Some e \<and> m_flag e = VALID")
    case True
    then obtain e where e: "route_of (purged E s) ?d = Some e" "m_flag e = VALID" by blast
    show ?thesis
    proof (cases "oif \<noteq> None \<and> GetOutputDevice e \<noteq> oif")
      case True
      with assms(2) sockets e show ?thesis
        by (auto simp: RouteOutput_def lookup_valid_eq lookup_eq Let_def)
    next
      case False
      let ?s2 = "touch E ?d ?s1"
      have inv: "rp_inv ?s1" using good.I_lookupD [OF assms(1)] lookup_eq by blast
      have p1: "purged E ?s1 = purged E s" using purged_idem [OF assms(1), of E] by (simp add: purged_def)
      note t1 = touch_effect [OF inv, of E ?d] and t2 = touch_effect [of ?s2 E "GetNextHop e"]
      from False assms(2) sockets e have r: "ro_route ro = Some (m_ipv4Route e)"
        "ro_sockerr ro = Some ERROR_NOTERROR" "ro_packet ro = Some p" and s': "s' = touch E (GetNextHop e) ?s2"
        by (auto simp: RouteOutput_def lookup_valid_eq lookup_eq Let_def touch_def split_beta)
      have "\<exists>e'. route_of (m_routingTable s') ?d = Some e' \<and> m_flag e' = VALID
          \<and> now E + m_activeRouteTimeout (par s) \<le> m_lifeTime e' \<and> m_lifeTime e \<le> m_lifeTime e'"
        using t1 t2 e by (auto simp: s' p1)
      with r e False show ?thesis by auto
    qed
  next
    case False
    with assms(2) sockets obtain rt where "LoopbackRoute E h oif ?s1 = Some rt"
      "ro = \<lparr>ro_route = Some rt, ro_sockerr = Some ERROR_NOTERROR, ro_packet = Some (tag_oif E oif p)\<rparr>"
      by (cases "route_of (purged E s) ?d")
        (auto simp: RouteOutput_def lookup_valid_eq lookup_eq Let_def bind_eq_Some_conv split: if_splits)
    with False LoopbackRoute_result [of E h oif ?s1 rt] show ?thesis by (auto split: option.split)
  qed
qed

definition example_packet_out :: packet where
  "example_packet_out = \<lparr>pk_uid = 9, pk_bytes = [1, 2], pk_ttl_tag = None, pk_oif_tag = None\<rparr>"

theorem route_output_result_witness:
  "\<exists>ro s'. RouteOutput (example_env 5) (Some example_packet_out) (example_header 3) None example_node = Some (ro, s')
     \<and> ro_sockerr ro = Some ERROR_NOTERROR \<and> ro_packet ro = Some example_packet_out \<and> ro_route ro \<noteq> None"
proof -
  obtain ro s' where r: "RouteOutput (example_env 5) (Some example_packet_out) (example_header 3) None example_node = Some (ro, s')"
    "ro_sockerr ro = Some ERROR_NOTERROR"
    by (simp add: RouteOutput_def lookup_valid_eq lookup_eq example_header_def example_rte_def
        RoutingTableEntry_new_def Let_def split_beta)
  from route_output_result [OF example_node_inv r(1)] r show ?thesis
    by (auto simp: example_header_def example_rte_def RoutingTableEntry_new_def split: option.splits)
qed

text \<open>Without a packet \<open>RouteOutput\<close> does not ask whether there are interfaces before it takes the
  address of the first one: on a node without any the behaviour is undefined, while the same call with
  a packet reports that there is no route.\<close>

lemma route_output_without_packet:
  assumes "m_socketAddresses s = []"
  shows "RouteOutput E None h None s = None
       \<and> RouteOutput E (Some p) h None s =
         Some (\<lparr>ro_route = None, ro_sockerr = Some ERROR_NOROUTETOHOST, ro_packet = Some p\<rparr>, s)"
  using assms by (auto simp: RouteOutput_def LoopbackRoute_def split: option.split)

subsection \<open>Forwarding\<close>

text \<open>What the error path for a packet without a route appends.\<close>

definition only_sends :: "effect list \<Rightarrow> rp \<Rightarrow> bool" where
  "only_sends l s \<longleftrightarrow> (\<exists>es. log s = l @ es \<and> (\<forall>x\<in>set es. case x of SockSend k p a \<Rightarrow> True | _ \<Rightarrow> False))"

lemma only_sends_table [simp]: "only_sends l (s\<lparr>m_routingTable := T\<rparr>) = only_sends l s"
  by (simp add: only_sends_def)

lemma only_sends_emit: "only_sends l s \<Longrightarrow> only_sends l (emit (SockSend k p a) s)"
  by (auto simp: only_sends_def emit_def)

lemma only_sends_fold:
  "only_sends l s \<Longrightarrow> only_sends l (fold (\<lambda>i s. emit (SockSend (f i) p (g i)) s) xs s)"
  by (induction xs arbitrary: s) (auto intro: only_sends_emit)

lemma no_route_sends:
  "only_sends l s \<Longrightarrow> pred_option (only_sends l) (SendRerrWhenNoRouteToForward E dst q origin s)"
  unfolding SendRerrWhenNoRouteToForward_def Let_def lookup_valid_eq lookup_eq
  by (intro pres_if pres_bind [OF pres_True])
    (auto intro!: pres_bind [OF pres_True] only_sends_emit only_sends_fold split: option.split bool.split
      simp del: bind_split)

text \<open>C21: a packet in transit is forwarded exactly when the table has a valid route to its destination,
  over that route, by the last thing the call does; in every other case it is not forwarded, and all
  that happens is that error messages are sent.\<close>

theorem forwarding_decision:
  assumes "Forwarding E p h ucb ecb s = Some (b, s')" and "rp_inv s"
  shows "(b \<longleftrightarrow> (\<exists>e. route_of (purged E s) (ih_destination h) = Some e \<and> m_flag e = VALID))
       \<and> (b \<longrightarrow> (\<exists>es e. route_of (purged E s) (ih_destination h) = Some e
              \<and> log s' = log s @ es @ [Forward ucb (m_ipv4Route e) p h]))
       \<and> (\<not> b \<longrightarrow> (\<exists>es. log s' = log s @ es \<and> (\<forall>x\<in>set es. case x of SockSend k c a \<Rightarrow> True | _ \<Rightarrow> False)))"
proof -
  let ?d = "ih_destination h"
  let ?s1 = "s\<lparr>m_routingTable := purged E s\<rparr>"
  have l: "lookup E ?d ?s1 = (route_of (purged E s) ?d, ?s1)"
    using purged_idem [OF assms(2), of E] by (simp add: lookup_eq purged_def)
  have start: "only_sends (log s) ?s1" by (simp add: only_sends_def)
  show ?thesis
  proof (cases "\<exists>e. route_of (purged E s) ?d = Some e \<and> m_flag e = VALID")
    case True
    then obtain e where e: "route_of (purged E s) ?d = Some e" "m_flag e = VALID" by blast
    let ?t = "touch E (GetNextHop e) (touch E ?d (touch E (ih_source h) ?s1))"
    obtain r t' where lo: "lookup E (ih_source h) ?t = (r, t')" by fastforce
    let ?nh = "GetNextHop (into r (RoutingTableEntry_default E))"
    from assms(1) e l lo obtain u v where u:
      "nb_update E (GetNextHop e) (m_activeRouteTimeout (par (touch E ?nh t'))) (touch E ?nh t') = Some u"
      "nb_update E ?nh (m_activeRouteTimeout (par u)) u = Some v"
      and b: "b" "s' = emit (Forward ucb (m_ipv4Route e) p h) v"
      by (auto simp: Forwarding_def Let_def into_def bind_eq_Some_conv simp flip: purged_def)
    have "same_config ?s1 t'"
      using config.I_lookupD [OF _ lo] by (simp add: config.I_touch)
    then have "same_config ?s1 u"
      using presD [OF config.I_nb_update u(1)] config.I_touch by blast
    then have "same_config ?s1 v"
      using presD [OF config.I_nb_update u(2)] by blast
    with b e show ?thesis by (auto simp: same_config_def emit_def)
  next
    case False
    with assms(1) l have "\<not> b" "\<exists>q. SendRerrWhenNoRouteToForward E ?d q (ih_source h) ?s1 = Some s'"
      by (auto simp: Forwarding_def Let_def into_def split: option.splits if_splits simp flip: purged_def)
    with False presD [OF no_route_sends [OF start]] show ?thesis by (auto simp: only_sends_def)
  qed
qed

text \<open>Hearing of a neighbour cannot fail while no neighbour is lost.\<close>

definition none_lost :: "ns3 \<Rightarrow> rp \<Rightarrow> bool" where
  "none_lost E s \<longleftrightarrow> (\<forall>n\<in>set (m_nb (rp_nb s)). \<not> CloseNeighbor (now E) n)"

lemma refresh_none_lost:
  "refresh E nb a x l = Some l' \<Longrightarrow> \<forall>n\<in>set l. \<not> CloseNeighbor t n \<Longrightarrow> \<forall>n\<in>set l'. \<not> CloseNeighbor t n"
  by (induction l arbitrary: l') (auto simp: CloseNeighbor_def split: if_splits)

lemma nb_update_ok:
  assumes "none_lost E s" and "0 \<le> x"
  shows "\<exists>s'. nb_update E a x s = Some s' \<and> none_lost E s'"
proof (cases "refresh E (rp_nb s) a x (m_nb (rp_nb s))")
  case None
  have "lost (now E) (rp_nb s\<lparr>m_nb := m_nb (rp_nb s)
      @ [\<lparr>m_neighborAddress = a, m_hardwareAddress = m, m_expireTime = x + now E, close = False\<rparr>]\<rparr>) = []" for m
    using assms by (auto simp: lost_def none_lost_def CloseNeighbor_def filter_empty_conv)
  then show ?thesis
    using None assms
    by (auto simp: nb_update_def Neighbors_Update_def Neighbors_Purge_eq call_failure_def nb_callback_def
        none_lost_def CloseNeighbor_def)
next
  case (Some l)
  with refresh_none_lost [OF Some] assms show ?thesis
    by (auto simp: nb_update_def Neighbors_Update_def none_lost_def)
qed

lemma none_lost_touch [simp]: "none_lost E (touch E a s) = none_lost E s"
  by (auto simp: touch_def UpdateRouteLifeTime_def lookup_eq update_route_def none_lost_def Let_def
      split: option.split)

lemma example_forwarding:
  "\<exists>s'. Forwarding (example_env 5) example_packet_out (example_header 3) 1 2 example_node = Some (True, s')"
proof -
  let ?E = "example_env 5"
  have none: "none_lost ?E example_node"
    by (simp add: none_lost_def example_node_def) (simp add: run_defs Let_def)
  then have none': "none_lost ?E (s\<lparr>m_routingTable := T\<rparr>) = none_lost ?E s" for s T
    by (simp add: none_lost_def)
  have ok: "\<exists>s'. (do { s \<leftarrow> nb_update ?E a (m_activeRouteTimeout (par s)) s;
                     s \<leftarrow> nb_update ?E b (m_activeRouteTimeout (par s)) s;
                     Some (True, emit f s) }) = Some (True, s')"
    if none_s: "none_lost ?E s" and par: "par s = example_params" for s a b f
  proof -
    have pos: "0 \<le> m_activeRouteTimeout example_params"
      by (simp add: example_params_def initial_params_def Let_def time_units)
    with nb_update_ok [OF none_s, of "m_activeRouteTimeout (par s)" a] par
    obtain u where u: "nb_update ?E a (m_activeRouteTimeout (par s)) s = Some u" "none_lost ?E u" by auto
    moreover have "par u = example_params"
      using presD [OF config.I_nb_update [OF same_config_refl] u(1)] par by (simp add: same_config_def)
    moreover from this pos nb_update_ok [OF u(2), of "m_activeRouteTimeout (par u)" b]
    obtain v where "nb_update ?E b (m_activeRouteTimeout (par u)) u = Some v" by auto
    ultimately show ?thesis by simp
  qed
  have par: "par (touch E a s) = par s" for E a s
    using config.I_touch [OF same_config_refl, of s E a] by (simp add: same_config_def)
  show ?thesis
    unfolding Forwarding_def Let_def split_beta
    by (subst if_P, simp add: lookup_eq into_def example_header_def example_rte_def RoutingTableEntry_new_def purged_def)
      (rule ok; simp add: none none' par lookup_eq)
qed

theorem forwarding_decision_witness:
  "\<exists>s' es. Forwarding (example_env 5) example_packet_out (example_header 3) 1 2 example_node = Some (True, s')
     \<and> log s' = log example_node @ es
         @ [Forward 1 (m_ipv4Route (example_rte 3 5 10)) example_packet_out (example_header 3)]"
proof -
  obtain s' where s': "Forwarding (example_env 5) example_packet_out (example_header 3) 1 2 example_node = Some (True, s')"
    using example_forwarding by blast
  have "route_of (purged (example_env 5) example_node) (ih_destination (example_header 3)) = Some (example_rte 3 5 10)"
    by (simp add: example_header_def)
  with s' forwarding_decision [OF s' example_node_inv] show ?thesis by auto
qed

end
