(* ===== verification/Node_Props.thy ===== *)
theory Node_Props
  imports Data_Props
begin

text \<open>
  The node at its edges: a broadcast is delivered once, the sockets that are closed when an interface
  goes down or an address is removed, and error messages that the rate limit does not count.
\<close>

subsection \<open>Broadcasts\<close>

lemma touch_dpd [simp]: "m_dpd (touch E a s) = m_dpd s" and touch_log [simp]: "log (touch E a s) = log s"
  and touch_par [simp]: "par (touch E a s) = par s"
  by (auto simp: touch_def UpdateRouteLifeTime_def lookup_eq update_route_def Let_def split: option.split)

lemma deliver_eq:
  "deliver p h i lcb ecb s =
     emit (case lcb of Some l \<Rightarrow> Deliver l p h i | None \<Rightarrow> Error ecb p h) s"
  by (simp add: deliver_def split: option.split)

lemma broadcast_input_new:
  assumes "Dpd_IsDuplicate (now E) p h (m_dpd s) = (False, d)"
  shows "m_dpd (broadcast_input E p h i ucb lcb ecb s) = d
    \<and> (\<exists>fw. log (broadcast_input E p h i ucb lcb ecb s) =
             log s @ (case lcb of Some l \<Rightarrow> Deliver l p h i | None \<Rightarrow> Error ecb p h) # fw
         \<and> (fw = [] \<or> (\<exists>route. fw = [Forward ucb route p h] \<and> m_enableBroadcast (par s) \<and> 1 < ih_ttl h)))"
  using assms
  by (auto simp: broadcast_input_def deliver_eq lookup_eq emit_def Let_def split: option.split)

text \<open>A record of the duplicate detection stays until it expires, whatever happens to the agent.\<close>

definition remembers :: "time \<Rightarrow> ns3 \<Rightarrow> ipv4 \<times> u32 \<Rightarrow> rp \<Rightarrow> bool" where
  "remembers T E k s \<longleftrightarrow> now E \<le> T \<and> (\<exists>u\<in>set (m_idCache (m_dpd s)). uid_key u = k \<and> T \<le> m_expire u)"

lemma remembers_dup: "remembers T E k s \<Longrightarrow> remembers T E k (s\<lparr>m_dpd := snd (IdCache_IsDuplicate (now E) a i (m_dpd s))\<rparr>)"
  unfolding remembers_def by (auto simp: IdCache_dup_records)

interpretation mem: full_client free free free free E "remembers T E k"
  rewrites "\<And>P. (True \<Longrightarrow> P) \<equiv> Trueprop P"
  by unfold_locales
    (auto simp: remembers_dup, auto simp: remembers_def agent_ops delete_routes_from_def DoDispose_def
      emits_def SendTo_def Let_def)

text \<open>Any events up to a time.\<close>

inductive agent_run :: "time \<Rightarrow> rp \<Rightarrow> rp \<Rightarrow> bool" for T s where
  agent_refl: "agent_run T s s"
| agent_next: "agent_run T s u \<Longrightarrow> now E \<le> T \<Longrightarrow> agent_step E ev u v \<Longrightarrow> agent_run T s v"

lemma run_remembers:
  assumes "agent_run T s s'" and "\<exists>u\<in>set (m_idCache (m_dpd s)). uid_key u = k \<and> T \<le> m_expire u"
  shows "\<exists>u\<in>set (m_idCache (m_dpd s')). uid_key u = k \<and> T \<le> m_expire u"
  using assms
proof (induction rule: agent_run.induct)
  case (agent_next u E ev v)
  then have "remembers T E k u" by (simp add: remembers_def)
  moreover from this have "remembers T E k (AckTimerExpire a d u)" "remembers T E k (SetMaxQueueLen n u)" for a d n
    by (simp_all add: remembers_def AckTimerExpire_def SetMaxQueueLen_def)
  ultimately have "remembers T E k v" using mem.J_agent_step [OF agent_next(3), of T k] by simp
  then show ?case by (simp add: remembers_def)
qed

text \<open>C24: a broadcast is delivered once. The first copy is delivered, or reported when there is nobody to
  deliver it to, and forwarded at most once, only when broadcasts are enabled and the TTL allows it.
  Then let anything happen to the agent, other broadcasts and further copies among it: any copy with the
  same source and uid that arrives within the lifetime of the duplicate detection has no effect but to
  drop what has expired there.\<close>

theorem broadcast_once:
  assumes "\<not> fst (Dpd_IsDuplicate (now E) p h (m_dpd s))"
    and "agent_run (now E') (broadcast_input E p h i ucb lcb ecb s) s'"
    and "now E' \<le> now E + m_lifetime (m_dpd s)"
    and "pk_uid p' = pk_uid p" and "ih_source h' = ih_source h"
  shows "(\<exists>fw. log (broadcast_input E p h i ucb lcb ecb s) =
             log s @ (case lcb of Some l \<Rightarrow> Deliver l p h i | None \<Rightarrow> Error ecb p h) # fw
         \<and> (fw = [] \<or> (\<exists>route. fw = [Forward ucb route p h] \<and> m_enableBroadcast (par s) \<and> 1 < ih_ttl h)))
       \<and> broadcast_input E' p' h' i' ucb' lcb' ecb' s' = s'\<lparr>m_dpd := IdCache_Purge (now E') (m_dpd s')\<rparr>"
proof -
  obtain d where d: "Dpd_IsDuplicate (now E) p h (m_dpd s) = (False, d)"
    using assms(1) by (cases "Dpd_IsDuplicate (now E) p h (m_dpd s)") auto
  note first = broadcast_input_new [OF d, of i ucb lcb ecb]
  let ?a = "ih_source h" and ?u = "ucast (pk_uid p) :: u32"
  have "\<lparr>m_context = ?a, m_id = ?u, m_expire = m_lifetime (m_dpd s) + now E\<rparr> \<in> set (m_idCache d)"
    using d IdCache_dup_records [of "now E" ?a ?u "m_dpd s"] by (simp add: Dpd_IsDuplicate_def)
  then have "\<exists>u\<in>set (m_idCache (m_dpd s')). uid_key u = (?a, ?u) \<and> now E' \<le> m_expire u"
    using first assms(3) by (intro run_remembers [OF assms(2)]) (force simp: uid_key_def)
  then have "fst (IdCache_IsDuplicate (now E') ?a ?u (m_dpd s'))"
    by (simp add: IdCache_dup_iff)
  then have "Dpd_IsDuplicate (now E') p' h' (m_dpd s') = (True, IdCache_Purge (now E') (m_dpd s'))"
    using assms(4,5) by (auto simp: Dpd_IsDuplicate_def IdCache_IsDuplicate_def Let_def split: if_splits)
  with first show ?thesis by (simp add: broadcast_input_def)
qed

theorem broadcast_once_witness:
  "\<exists>s1 s2 fw. s1 = broadcast_input (example_env 5) example_packet_out (example_header 3) 1 1 (Some 7) 2 example_node
     \<and> agent_step (example_env 5) (EvSetMaxQueueLen 9) s1 s2
     \<and> log s2 = log example_node @ Deliver 7 example_packet_out (example_header 3) 1 # fw
     \<and> log (broadcast_input (example_env 6) example_packet_out (example_header 3) 1 1 (Some 7) 2 s2) = log s2"
proof -
  let ?s1 = "broadcast_input (example_env 5) example_packet_out (example_header 3) 1 1 (Some 7) 2 example_node"
  let ?s2 = "SetMaxQueueLen 9 ?s1"
  have step: "agent_step (example_env 5) (EvSetMaxQueueLen 9) ?s1 ?s2" by (simp add: agent_step_iff)
  then have run: "agent_run (now (example_env 6)) ?s1 ?s2" by (intro agent_next [OF agent_refl]) auto
  have dpd: "m_dpd example_node = IdCache_new (MicroSeconds 5600000)"
    by (simp add: example_node_def) (simp add: run_defs Let_def)
  then have "\<not> fst (Dpd_IsDuplicate (now (example_env 5)) example_packet_out (example_header 3) (m_dpd example_node))"
    by (simp add: IdCache_new_def Dpd_IsDuplicate_def IdCache_IsDuplicate_def IdCache_Purge_def Let_def)
  from broadcast_once [OF this run, of example_packet_out "example_header 3" 1 1 "Some 7" 2] step
  show ?thesis by (auto simp: dpd IdCache_new_def time_units SetMaxQueueLen_def)
qed

subsection \<open>Closing sockets\<close>

lemma FindSubnetBroadcastSocket_map_of:
  "smap_inv (m_socketSubnetBroadcastAddresses s) \<Longrightarrow>
   FindSubnetBroadcastSocketWithInterfaceAddress a s = Some b \<Longrightarrow>
   map_of (m_socketSubnetBroadcastAddresses s) b = Some a"
  by (auto simp: FindSubnetBroadcastSocketWithInterfaceAddress_def find_Some_iff intro!: map_of_is_SomeI
      smap_inv_distinct) (metis nth_mem prod.collapse snd_conv fst_conv)

lemma open_interface_keeps:
  "map_of (m_socketSubnetBroadcastAddresses s) b = Some a \<Longrightarrow>
   map_of (m_socketSubnetBroadcastAddresses (open_interface E i r s)) b = Some a"
  "set (log s) \<subseteq> set (log (open_interface E i r s))"
  by (auto simp: open_interface_def open_socket_def add_route_def emit_def map_of_insert Let_def)

text \<open>C40: both sockets of an interface are closed when it goes down, and neither stays in its table. But
  when an address is removed the table of the broadcast sockets keeps the broadcast socket that was
  just closed, under the removed address.\<close>

theorem closed_sockets_forgotten:
  assumes "smap_inv (m_socketSubnetBroadcastAddresses s)"
    and "FindSocketWithInterfaceAddress a s = Some k"
    and "FindSubnetBroadcastSocketWithInterfaceAddress a s = Some b"
  shows "(ip_address (stack E) i = a \<longrightarrow> NotifyInterfaceDown E i s = Some s1 \<longrightarrow>
            {SockClose k, SockClose b} \<subseteq> set (log s1) \<and>
            map_of (m_socketAddresses s1) k = None \<and> map_of (m_socketSubnetBroadcastAddresses s1) b = None)
       \<and> (NotifyRemoveAddress E j a s = Some s2 \<longrightarrow>
            {SockClose k, SockClose b} \<subseteq> set (log s2) \<and>
            map_of (m_socketSubnetBroadcastAddresses s2) b = Some a)"
proof (intro conjI impI)
  assume "ip_address (stack E) i = a" "NotifyInterfaceDown E i s = Some s1"
  moreover have "FindSocketWithInterfaceAddress a (s'\<lparr>log := l\<rparr>) = FindSocketWithInterfaceAddress a s'"
    "FindSubnetBroadcastSocketWithInterfaceAddress a (s'\<lparr>log := l\<rparr>) =
       FindSubnetBroadcastSocketWithInterfaceAddress a s'"
    "FindSocketWithInterfaceAddress a (s'\<lparr>rp_nb := nb\<rparr>) = FindSocketWithInterfaceAddress a s'"
    "FindSubnetBroadcastSocketWithInterfaceAddress a (s'\<lparr>rp_nb := nb\<rparr>) =
       FindSubnetBroadcastSocketWithInterfaceAddress a s'"
    "FindSubnetBroadcastSocketWithInterfaceAddress a (s'\<lparr>m_socketAddresses := m\<rparr>) =
       FindSubnetBroadcastSocketWithInterfaceAddress a s'" for s' l nb m
    by (simp_all add: FindSocketWithInterfaceAddress_def FindSubnetBroadcastSocketWithInterfaceAddress_def)
  ultimately show "{SockClose k, SockClose b} \<subseteq> set (log s1)" "map_of (m_socketAddresses s1) k = None"
    "map_of (m_socketSubnetBroadcastAddresses s1) b = None"
    using assms(2,3)
    by (auto simp: NotifyInterfaceDown_def Let_def emit_def no_interfaces_def delete_routes_from_def
        map_of_erase split: if_splits)
next
  assume *: "NotifyRemoveAddress E j a s = Some s2"
  have found: "map_of (m_socketSubnetBroadcastAddresses s) b = Some a"
    using assms FindSubnetBroadcastSocket_map_of by blast
  define c where "c = (emit (SockClose b) ((emit (SockClose k) (delete_routes_from a s))\<lparr>m_socketAddresses :=
      smap_erase k (m_socketAddresses s)\<rparr>))\<lparr>m_socketAddresses := smap_erase b (smap_erase k (m_socketAddresses s))\<rparr>"
  have c: "map_of (m_socketSubnetBroadcastAddresses c) b = Some a" "{SockClose k, SockClose b} \<subseteq> set (log c)"
    using found by (simp_all add: c_def emit_def delete_routes_from_def)
  define u where "u = (if ip_n_addresses (stack E) j \<noteq> 0 then open_interface E j True c else c)"
  have u: "map_of (m_socketSubnetBroadcastAddresses u) b = Some a" "{SockClose k, SockClose b} \<subseteq> set (log u)"
    using c open_interface_keeps(1) [OF c(1)] by (auto simp: u_def intro: subsetD [OF open_interface_keeps(2)])
  have "s2 = (if m_socketAddresses u = [] then no_interfaces u else u)"
    using * assms(2,3)
    by (auto simp: NotifyRemoveAddress_def c_def u_def Let_def emit_def delete_routes_from_def
        FindSubnetBroadcastSocketWithInterfaceAddress_def split: if_splits)
  with u show "{SockClose k, SockClose b} \<subseteq> set (log s2)" "map_of (m_socketSubnetBroadcastAddresses s2) b = Some a"
    by (simp_all add: no_interfaces_def)
qed

theorem closed_sockets_forgotten_witness:
  "\<exists>s1 s2. NotifyInterfaceDown (example_env 5) 1 example_node = Some s1
     \<and> m_socketSubnetBroadcastAddresses s1 = []
     \<and> NotifyRemoveAddress (example_env 5) 1 example_iface example_node = Some s2
     \<and> SockClose 1 \<in> set (log s2) \<and> map_of (m_socketSubnetBroadcastAddresses s2) 1 = Some example_iface"
proof -
  have f: "FindSocketWithInterfaceAddress example_iface example_node = Some 0"
    "FindSubnetBroadcastSocketWithInterfaceAddress example_iface example_node = Some 1"
    by (simp_all add: FindSocketWithInterfaceAddress_def FindSubnetBroadcastSocketWithInterfaceAddress_def)
  obtain s1 where 1: "NotifyInterfaceDown (example_env 5) 1 example_node = Some s1"
    "m_socketSubnetBroadcastAddresses s1 = []"
    using f
    by (auto simp: NotifyInterfaceDown_def Let_def emit_def FindSocketWithInterfaceAddress_def
        FindSubnetBroadcastSocketWithInterfaceAddress_def smap_erase_def no_interfaces_def example_env_def
        example_stack_def)
  obtain s2 where 2: "NotifyRemoveAddress (example_env 5) 1 example_iface example_node = Some s2"
    using f by (auto simp: NotifyRemoveAddress_def Let_def emit_def delete_routes_from_def
        FindSubnetBroadcastSocketWithInterfaceAddress_def)
  show ?thesis
    using closed_sockets_forgotten [of example_node example_iface 0 1 "example_env 5" 1 s1 1 s2] f 1 2
    by (simp add: example_env_def example_stack_def)
qed

subsection \<open>Errors for data packets\<close>

lemma send_all_log:
  "log (fold (\<lambda>i s. emit (SockSend (fst i) p (f (snd i))) s) l s) = log s @ map (\<lambda>i. SockSend (fst i) p (f (snd i))) l
   \<and> m_rerrCount (fold (\<lambda>i s. emit (SockSend (fst i) p (f (snd i))) s) l s) = m_rerrCount s
   \<and> m_socketAddresses (fold (\<lambda>i s. emit (SockSend (fst i) p (f (snd i))) s) l s) = m_socketAddresses s
   \<and> par (fold (\<lambda>i s. emit (SockSend (fst i) p (f (snd i))) s) l s) = par s
   \<and> m_routingTable (fold (\<lambda>i s. emit (SockSend (fst i) p (f (snd i))) s) l s) = m_routingTable s"
  by (induction l arbitrary: s) (simp_all add: emit_def)

lemma no_route_error_effect:
  assumes "SendRerrWhenNoRouteToForward E dst n origin s = Some s'"
    and "m_rerrCount s \<noteq> m_rerrRateLimit (par s)" and "m_socketAddresses s \<noteq> []"
  shows "length (log s) < length (log s') \<and> m_rerrCount s' = m_rerrCount s
       \<and> m_socketAddresses s' = m_socketAddresses s \<and> par s' = par s"
  using assms
  by (auto simp: SendRerrWhenNoRouteToForward_def lookup_valid_eq lookup_eq emit_def send_all_log Let_def
      split: if_splits option.splits prod.splits bool.splits Option.bind_splits)

text \<open>The error messages a node originates for data packets it cannot forward are not counted. A node
  whose counter is below the limit sends one for every such packet, however many there are, and its
  counter stays where it was.\<close>

lemma no_route_errors_not_counted:
  assumes "foldM (\<lambda>(E, dst, n, origin). SendRerrWhenNoRouteToForward E dst n origin) calls s = Some s'"
    and "m_rerrCount s \<noteq> m_rerrRateLimit (par s)" and "m_socketAddresses s \<noteq> []"
  shows "length (log s) + length calls \<le> length (log s') \<and> m_rerrCount s' = m_rerrCount s"
  using assms
proof (induction calls arbitrary: s)
  case (Cons c calls)
  obtain E dst n origin where c: "c = (E, dst, n, origin)" by (cases c) auto
  with Cons.prems(1) obtain u where u: "SendRerrWhenNoRouteToForward E dst n origin s = Some u"
    "foldM (\<lambda>(E, dst, n, origin). SendRerrWhenNoRouteToForward E dst n origin) calls u = Some s'"
    by (auto split: Option.bind_splits)
  with Cons.prems(2,3) Cons.IH [OF u(2)] no_route_error_effect [OF u(1)] show ?case by auto
qed simp

end
