(* ===== verification/Reply_Props.thy ===== *)
theory Reply_Props
  imports Message_Props
begin

text \<open>
  What a reply does to the route it is about, through the whole of \<open>RecvReply\<close>: the installation, the
  acknowledgement, and either the release of the queue or the bookkeeping of the precursors and the
  forwarding. After the installation every step leaves the essentials of that route alone.
\<close>

subsection \<open>The route that is held\<close>

text \<open>What matters of a route: validity and value of the sequence number, hops, next hop, interface and
  flag.\<close>

definition route_core :: "rte \<Rightarrow> bool \<times> u32 \<times> u16 \<times> ipv4 \<times> iface \<times> RouteFlags" where
  "route_core e = (m_validSeqNo e, m_seqNo e, m_hops e, GetNextHop e, m_iface e, m_flag e)"

definition live :: "ns3 \<Rightarrow> rte \<Rightarrow> bool" where
  "live E e \<longleftrightarrow> 0 \<le> GetLifeTime (now E) e \<or> m_flag e = IN_SEARCH"

definition keyed :: "ipv4 \<Rightarrow> rte \<Rightarrow> bool" where
  "keyed k e \<longleftrightarrow> GetDestination e = k"

interpretation keyed: entry_invariant keyed
  by unfold_locales (simp add: keyed_def)

definition holds :: "ns3 \<Rightarrow> ipv4 \<Rightarrow> (bool \<times> u32 \<times> u16 \<times> ipv4 \<times> iface \<times> RouteFlags) \<Rightarrow> rp \<Rightarrow> bool" where
  "holds E k c s \<longleftrightarrow>
     entries_all keyed (m_routingTable s) \<and>
     (\<exists>e. route_of (m_routingTable s) k = Some e \<and> route_core e = c \<and> live E e)"

lemma purge_entry_live: "live E e \<Longrightarrow> purge_entry (now E) bad e = Some e"
  by (auto simp: live_def purge_entry_def)

lemma purge_entry_is_live:
  "0 \<le> bad \<Longrightarrow> purge_entry (now E) bad e = Some e' \<Longrightarrow> live E e'"
  by (auto simp: live_def purge_entry_def Invalidate_def GetLifeTime_def split: if_splits RouteFlags.splits)

lemma live_settled [simp]: "live E (settled e) = live E e" and core_settled [simp]: "route_core (settled e) = route_core e"
  by (simp_all add: live_def settled_def GetLifeTime_def route_core_def)

lemma InsertPrecursor_frame [simp]:
  "route_core (snd (InsertPrecursor a e)) = route_core e" "live E (snd (InsertPrecursor a e)) = live E e"
  "GetDestination (snd (InsertPrecursor a e)) = GetDestination e"
  "m_flag (snd (InsertPrecursor a e)) = m_flag e" "m_ipv4Route (snd (InsertPrecursor a e)) = m_ipv4Route e"
  by (simp_all add: InsertPrecursor_def route_core_def live_def GetLifeTime_def)

lemma route_of_purged:
  "entries_all P (m_routingTable s) \<Longrightarrow> route_of (purged E s) k =
     (case route_of (m_routingTable s) k of None \<Rightarrow> None
      | Some e \<Rightarrow> purge_entry (now E) (m_badLinkLifetime (m_routingTable s)) e)"
  by (simp add: purged_def route_of_Purge entries_all_def)

lemma holds_purged: "holds E k c s \<Longrightarrow> holds E k c (s\<lparr>m_routingTable := purged E s\<rparr>)"
  by (auto simp: holds_def route_of_purged purge_entry_live) (simp add: purged_def keyed.inv_Purge)

text \<open>A looked-up entry leads to the address asked for; the one at \<open>k\<close> is the route held.\<close>

lemma holds_entry:
  assumes "holds E k c s" and "route_of (purged E s) i = Some e"
  shows "GetDestination e = i \<and> (i = k \<longrightarrow> route_core e = c \<and> live E e)"
proof -
  have "entries_all keyed (purged E s)"
    using assms(1) by (simp add: holds_def purged_def keyed.inv_Purge)
  with assms have "GetDestination e = i" by (auto simp: entries_all_def keyed_def)
  moreover have "i = k \<Longrightarrow> route_core e = c \<and> live E e"
    using assms by (auto simp: holds_def route_of_purged purge_entry_live)
  ultimately show ?thesis by simp
qed

lemma holds_update:
  assumes "holds E k c s" and "GetDestination rt = k \<Longrightarrow> route_core rt = c \<and> live E rt"
  shows "holds E k c (update_route rt s)"
  using assms keyed.inv_Update [of "m_routingTable s" rt]
  by (auto simp: holds_def update_route_def route_of_Update keyed_def)

lemma holds_emit [simp]: "holds E k c (emit e s) = holds E k c s"
  by (simp add: holds_def emit_def)

text \<open>A second lookup at the same time finds the table purged.\<close>

lemma holds_lookup:
  "holds E k c s \<Longrightarrow> lookup E i s = (r, s') \<Longrightarrow>
   holds E k c s' \<and> (\<forall>e. r = Some e \<longrightarrow> GetDestination e = i \<and> (i = k \<longrightarrow> route_core e = c \<and> live E e))"
  using holds_purged [of E k c s] holds_entry [of E k c s i] by (auto simp: lookup_eq)

subsection \<open>The steps after the installation\<close>

lemma holds_insert_precursor_at:
  assumes "holds E k c s" and "k \<noteq> any_addr E"
  shows "holds E k c (insert_precursor_at E a i s)"
proof -
  obtain r s' where l: "lookup E a s = (r, s')" by fastforce
  from holds_lookup [OF assms(1) l] show ?thesis
    unfolding insert_precursor_at_def l Let_def prod.case
    using assms(2)
    by (intro holds_update) (auto simp: into_def RoutingTableEntry_default_def RoutingTableEntry_new_def
        split: option.splits)
qed

lemma holds_update_precursors:
  assumes "holds E k c s" and "k \<noteq> any_addr E" and "route_core toDst = c" "live E toDst"
    and "GetDestination toOrigin \<noteq> k"
  shows "holds E k c (update_precursors E toDst toOrigin s)"
  unfolding update_precursors_def Let_def
  using assms by (intro holds_insert_precursor_at holds_update) auto

lemma holds_ack:
  assumes "holds E k c s" and "SendReplyAck E a s = Some s'"
  shows "holds E k c s'"
proof -
  obtain r u where l: "lookup E a s = (r, u)" by fastforce
  with holds_lookup [OF assms(1) l] assms(2) show ?thesis
    by (auto simp: SendReplyAck_def split: Option.bind_splits)
qed

lemma dequeue_table: "m_routingTable (snd (dequeue E dst s)) = m_routingTable s"
  by (simp add: dequeue_def emits_def split: prod.split)

lemma release_table: "m_routingTable (SendPacketFromQueue E dst route s) = m_routingTable s"
proof (induction "length (m_queue (rp_queue s))" arbitrary: s rule: less_induct)
  case less
  obtain e u where d: "dequeue E dst s = (e, u)" by fastforce
  note t = dequeue_table [of E dst s, unfolded d snd_conv]
  show ?case
  proof (cases e)
    case None
    with d t show ?thesis by (subst SendPacketFromQueue.simps) simp
  next
    case (Some q)
    from dequeue_shorter [OF d [unfolded Some]] less [of "emit (release route q) u"] t
    show ?thesis by (subst SendPacketFromQueue.simps) (simp add: d Some emit_def)
  qed
qed

lemma holds_forward_reply:
  assumes "holds E (rp_dst h) c s" and "rp_dst h \<noteq> any_addr E" and "rp_dst h \<noteq> rp_origin h"
    and "forward_reply E p h s = Some s'"
  shows "holds E (rp_dst h) c s'"
proof -
  obtain r u where l: "lookup E (rp_origin h) s = (r, u)" by fastforce
  note u = holds_lookup [OF assms(1) l]
  show ?thesis
  proof (cases "\<exists>e. r = Some e \<and> m_flag e \<noteq> IN_SEARCH")
    case False
    with assms(4) l u show ?thesis by (auto simp: forward_reply_def split: option.splits)
  next
    case True
    then obtain e where e: "r = Some e" "m_flag e \<noteq> IN_SEARCH" by blast
    define toOrigin where "toOrigin = SetLifeTime (now E)
        (max (m_activeRouteTimeout (par u)) (GetLifeTime (now E) e)) e"
    have o: "GetDestination toOrigin \<noteq> rp_dst h"
      using u e(1) assms(3) by (auto simp: toOrigin_def SetLifeTime_def)
    define v where "v = update_route toOrigin u"
    have v: "holds E (rp_dst h) c v" using u o by (simp add: v_def holds_update)
    obtain q w where lv: "lookup E (rp_dst h) v = (q, w)" by fastforce
    note w = holds_lookup [OF v lv]
    define x where "x = (case q of None \<Rightarrow> w | Some toDst \<Rightarrow>
        if m_flag toDst = VALID then update_precursors E toDst toOrigin w else w)"
    have x: "holds E (rp_dst h) c x"
      using w o assms(2) by (auto simp: x_def intro: holds_update_precursors split: option.split)
    have "s' = x \<or> (\<exists>f. s' = emit f x)"
      using assms(4) e
      unfolding forward_reply_def l Let_def toOrigin_def [symmetric] v_def [symmetric]
      by (auto simp: lookup_valid_eq lv x_def toOrigin_def [symmetric] v_def [symmetric]
          split: option.splits if_splits Option.bind_splits)
    with x show ?thesis by auto
  qed
qed

lemma holds_replace:
  assumes "holds E k c s" and "GetDestination rt = k" and "live E rt"
  shows "holds E k (route_core rt) (update_route rt s)"
  using assms keyed.inv_Update [of "m_routingTable s" rt]
  by (auto simp: holds_def update_route_def route_of_Update keyed_def)

lemma holds_table: "holds E k c s \<Longrightarrow> m_routingTable s' = m_routingTable s \<Longrightarrow> holds E k c s'"
  by (simp add: holds_def)

lemma holds_finish:
  assumes "holds E dst c s" and "GetDestination rt = dst" and "live E rt"
  shows "holds E dst (if m_flag toDst = IN_SEARCH then route_core rt else c) (finish_discovery E dst rt toDst s)"
proof -
  define u where "u = (if m_flag toDst = IN_SEARCH
      then (update_route rt s)\<lparr>m_addressReqTimer := smap_erase dst (m_addressReqTimer s)\<rparr> else s)"
  have u: "holds E dst (if m_flag toDst = IN_SEARCH then route_core rt else c) u"
    using assms holds_replace [OF assms] by (auto simp: u_def intro: holds_table)
  obtain r v where l: "lookup E dst u = (r, v)" by fastforce
  have "m_addressReqTimer (update_route rt s) = m_addressReqTimer s" by (simp add: update_route_def)
  then have "finish_discovery E dst rt toDst s = SendPacketFromQueue E dst (m_ipv4Route (into r toDst)) v"
    by (simp add: finish_discovery_def u_def [symmetric] l)
  with holds_lookup [OF u l] show ?thesis by (auto intro: holds_table simp: release_table)
qed

text \<open>The installation itself, on a table just purged.\<close>

lemma install_holds:
  assumes "rp_inv s" and "u = s\<lparr>m_routingTable := purged E s\<rparr>" and "r = route_of (purged E s) k"
    and "GetDestination new = k" and "live E new"
    and "install_reply E h hop new r u = Some v"
  shows "holds E k (case r of None \<Rightarrow> route_core new
      | Some e \<Rightarrow> if accept_reply h hop e = Some True then route_core new else route_core e) v"
proof -
  have s: "entries_all rte_ok (m_routingTable s)" "0 \<le> m_badLinkLifetime (m_routingTable s)"
    using assms(1) by (simp_all add: rp_inv_def)
  then have "entries_all keyed (m_routingTable s)"
    by (auto simp: entries_all_def rte_ok_def keyed_def)
  then have keyed: "entries_all keyed (purged E s)" by (simp add: purged_def keyed.inv_Purge)
  have idem: "purged E u = purged E s"
    using purge_idem [OF s] by (simp add: assms(2) purged_def)
  show ?thesis
  proof (cases r)
    case None
    then have v: "v = add_route E new u" using assms(6) by (simp add: install_reply_def)
    have "entries_all keyed (m_routingTable v)"
      using keyed keyed.inv_AddRoute [of "purged E s" new "now E"] by (simp add: v add_route_def assms(2) keyed_def)
    moreover have "route_of (m_routingTable v) k = Some (settled new)"
      using None assms(3,4) idem by (simp add: v add_route_def route_of_AddRoute purged_def)
    ultimately show ?thesis using None assms(5) by (simp add: holds_def)
  next
    case (Some e)
    with assms(3) have e: "route_of (purged E s) k = Some e" by simp
    then have "live E e"
      using s purge_entry_is_live
      by (auto simp: route_of_purged [OF s(1)] split: option.splits)
    with e keyed have u: "holds E k (route_core e) u" by (simp add: holds_def assms(2))
    from assms(6) Some obtain b where b: "accept_reply h hop e = Some b"
      "v = (if b then update_route new u else u)"
      by (auto simp: install_reply_def split: Option.bind_splits)
    with Some u holds_replace [OF u assms(4,5)] show ?thesis by auto
  qed
qed

subsection \<open>The whole handler\<close>

text \<open>A reply is accepted when the known sequence number is invalid, or the reply's is greater as a
  signed number, or they are equal and the known route is not valid or longer.\<close>

definition fresher :: "RrepHeader \<Rightarrow> rte \<Rightarrow> bool" where
  "fresher h e \<longleftrightarrow>
     \<not> m_validSeqNo e \<or> sint (m_seqNo e) < sint (rp_dstSeqNo h)
     \<or> (rp_dstSeqNo h = m_seqNo e \<and> (m_flag e \<noteq> VALID \<or> unat (rp_hopCount h + 1) < unat (m_hops e)))"

lemma accept_fresher:
  assumes "accept_reply (h\<lparr>rp_hopCount := rp_hopCount h + 1\<rparr>) (rp_hopCount h + 1) e = Some b"
  shows "b \<longleftrightarrow> fresher h e"
proof -
  have "unat (ucast (rp_hopCount h + 1) :: u16) = unat (rp_hopCount h + 1)"
    by (simp add: unsigned_ucast_eq take_bit_nat_eq_self_iff order_less_le_trans [OF unsigned_less])
  with assms show ?thesis
    by (auto simp: accept_reply_eq fresher_def s32_sub_def word_less_nat_alt Let_def split: if_splits)
qed

lemma RecvReply_installs:
  assumes "rp_inv s" and "codec_ok (wire E)" and "pk_bytes p = RrepHeader_Serialize (wire E) h @ rest"
    and "rp_dst h \<noteq> rp_origin h" and "rp_dst h \<noteq> any_addr E"
    and "RecvReply E p receiver sender s = Some s'"
  shows "\<exists>e'. route_of (m_routingTable s') (rp_dst h) = Some e' \<and>
     route_core e' =
       (let new = (True, rp_dstSeqNo h, ucast (rp_hopCount h + 1), sender, recv_iface E receiver, VALID) in
        case route_of (purged E s) (rp_dst h) of
          None \<Rightarrow> new
        | Some e \<Rightarrow>
            if fresher h e \<or> (m_flag e = IN_SEARCH \<and> IsMyOwnAddress (rp_origin h) s) then new
            else route_core e)"
proof -
  let ?k = "rp_dst h" and ?hop = "rp_hopCount h + 1"
  define g where "g = h\<lparr>rp_hopCount := rp_hopCount h + 1\<rparr>"
  define new where "new = RoutingTableEntry_new (now E) (Some (recv_dev E receiver)) ?k True
      (rp_dstSeqNo h) (recv_iface E receiver) (ucast ?hop) sender (RrepHeader_GetLifeTime h)"
  define r where "r = route_of (purged E s) ?k"
  define u where "u = s\<lparr>m_routingTable := purged E s\<rparr>"
  have new: "GetDestination new = ?k" "live E new"
    "route_core new = (True, rp_dstSeqNo h, ucast ?hop, sender, recv_iface E receiver, VALID)"
    by (simp_all add: new_def RoutingTableEntry_new_def route_core_def live_def GetLifeTime_def
        RrepHeader_GetLifeTime_def MilliSeconds_def)
  have parse: "RrepHeader_Deserialize (wire E) (pk_bytes p) = Some (h, rest)"
    unfolding assms(3) by (rule byte_order.rrep_des_ser [OF byte_orderI [OF assms(2)]])
  have g: "rp_dst g = ?k" "rp_origin g = rp_origin h" "RrepHeader_GetLifeTime g = RrepHeader_GetLifeTime h"
    "rp_dstSeqNo g = rp_dstSeqNo h" "rp_hopCount g = ?hop"
    by (simp_all add: g_def RrepHeader_GetLifeTime_def)
  have l: "lookup E ?k s = (r, u)" by (simp add: lookup_eq r_def u_def)
  let ?rest = "\<lambda>(f, w). if IsMyOwnAddress (rp_origin f) w
      then Some (finish_discovery E ?k new (into r (RoutingTableEntry_default E)) w)
      else forward_reply E (p\<lparr>pk_bytes := rest\<rparr>) f w"
  let ?ack = "\<lambda>v. if RrepHeader_GetAckRequired g
      then Option.bind (SendReplyAck E sender v) (\<lambda>s. Some (RrepHeader_SetAckRequired False g, s))
      else Some (g, v)"
  have "Option.bind (install_reply E g ?hop new r u) (\<lambda>v. Option.bind (?ack v) ?rest) = Some s'"
    using assms(6)
    unfolding RecvReply_def parse Option.bind_lunit Let_def split_beta fst_conv snd_conv
      g_def [symmetric] g l new_def [symmetric]
    by (simp add: assms(4))
  then obtain v fw where v: "install_reply E g ?hop new r u = Some v" and ack: "?ack v = Some fw"
    and s': "?rest fw = Some s'"
    by (auto simp only: bind_eq_Some_conv)
  obtain f w where fw: "fw = (f, w)" by fastforce
  have f: "rp_dst f = ?k" "rp_origin f = rp_origin h" and w: "w = v \<or> SendReplyAck E sender v = Some w"
    using ack g unfolding fw by (auto simp: RrepHeader_SetAckRequired_def bind_eq_Some_conv split: if_splits)
  define c where "c = (case r of None \<Rightarrow> route_core new
      | Some e \<Rightarrow> if accept_reply g ?hop e = Some True then route_core new else route_core e)"
  have "holds E ?k c v"
    unfolding c_def by (rule install_holds [OF assms(1) u_def r_def new(1,2) v])
  then have w_holds: "holds E ?k c w" using w holds_ack by blast
  have c: "c = (case r of None \<Rightarrow> route_core new | Some e \<Rightarrow> if fresher h e then route_core new else route_core e)"
    using v by (auto simp: c_def g_def install_reply_def dest: accept_fresher split: option.splits Option.bind_splits)
  have "same_config s u" by (simp add: same_config_def u_def purged_def RoutingTable_Purge_def)
  then have "same_config s v" using v presD [OF config.I_install_reply] by blast
  then have "same_config s w" using w presD [OF config.I_SendReplyAck] by blast
  then have own: "IsMyOwnAddress a w = IsMyOwnAddress a s" for a
    by (simp add: IsMyOwnAddress_def same_config_def)
  show ?thesis
  proof (cases "IsMyOwnAddress (rp_origin h) s")
    case True
    with s' [unfolded fw] own f holds_finish [OF w_holds new(1,2), of "into r (RoutingTableEntry_default E)"]
    show ?thesis
      by (auto simp: holds_def c r_def into_def RoutingTableEntry_default_def RoutingTableEntry_new_def new(3)
          Let_def split: option.splits if_splits)
  next
    case False
    with s' [unfolded fw] own f assms(4,5) holds_forward_reply [of E f c w] w_holds
    have "holds E ?k c s'" by simp
    with False show ?thesis
      by (auto simp: holds_def c r_def new(3) Let_def split: option.splits)
  qed
qed

text \<open>C17: what a reply does to the route to its destination. A route is created when there was none. A
  known one is replaced, by a valid route over the sender with the reply's sequence number and one more
  hop, exactly when the reply is fresher or when the route was in search and this node had asked for
  it; otherwise its sequence number, hops, next hop, interface and flag stay, whatever else the handler
  does. (Not hellos; and a null address is not a destination.)\<close>

theorem reply_installs_fresher_route:
  assumes "rp_inv s" and "codec_ok (wire E)" and "pk_bytes p = RrepHeader_Serialize (wire E) h @ rest"
    and "rp_dst h \<noteq> rp_origin h" and "rp_dst h \<noteq> any_addr E"
    and "RecvReply E p receiver sender s = Some s'"
  shows "\<exists>e'. route_of (m_routingTable s') (rp_dst h) = Some e' \<and>
     route_core e' =
       (let new = (True, rp_dstSeqNo h, ucast (rp_hopCount h + 1), sender, recv_iface E receiver, VALID) in
        case route_of (purged E s) (rp_dst h) of
          None \<Rightarrow> new
        | Some e \<Rightarrow>
            if fresher h e \<or> (m_flag e = IN_SEARCH \<and> IsMyOwnAddress (rp_origin h) s) then new
            else route_core e)"
  using assms by (rule RecvReply_installs)

definition example_reply :: RrepHeader where
  "example_reply = \<lparr>rp_flags = 0, rp_prefixSize = 0, rp_hopCount = 0, rp_dst = 3, rp_dstSeqNo = 9,
     rp_origin = ip4 10 1 1 1, rp_lifeTime = 100\<rparr>"

definition example_reply_packet :: packet where
  "example_reply_packet = \<lparr>pk_uid = 1, pk_bytes = RrepHeader_Serialize be_codec example_reply,
     pk_ttl_tag = Some 5, pk_oif_tag = None\<rparr>"

lemma example_reply_received:
  "\<exists>s'. RecvReply (example_env 5) example_reply_packet (ip4 10 1 1 1) 8 example_node = Some s'"
proof -
  have parse: "RrepHeader_Deserialize be_codec (RrepHeader_Serialize be_codec example_reply) = Some (example_reply, [])"
    using byte_order.rrep_des_ser [OF byte_orderI [OF be_codec_ok], of example_reply "[]"] by simp
  have three: "3 \<noteq> ip4 10 1 1 1" by (simp add: ip4_def)
  have sub: "s32_sub 9 7 = Some 2" by (simp add: s32_sub_def)
  have own: "IsMyOwnAddress (ip4 10 1 1 1) (example_node\<lparr>m_routingTable := T\<rparr>)" for T
    by (simp add: IsMyOwnAddress_def example_iface_def)
  show ?thesis
    unfolding RecvReply_def
    by (simp add: example_reply_packet_def parse)
      (simp add: example_reply_def Let_def lookup_eq install_reply_def accept_reply_def sub own
        example_rte_def RoutingTableEntry_new_def RrepHeader_GetAckRequired_def get_flag_def
        update_route_def three del: One_nat_def)
qed

theorem reply_installs_fresher_route_witness:
  "\<exists>s'. RecvReply (example_env 5) example_reply_packet (ip4 10 1 1 1) 8 example_node = Some s'
     \<and> map_option route_core (route_of (m_routingTable s') 3) = Some (True, 9, 1, 8, example_iface, VALID)
     \<and> map_option m_hops (route_of (purged (example_env 5) example_node) 3) = Some 2"
proof -
  obtain s' where s': "RecvReply (example_env 5) example_reply_packet (ip4 10 1 1 1) 8 example_node = Some s'"
    using example_reply_received by blast
  have "recv_iface (example_env 5) (ip4 10 1 1 1) = example_iface"
    by (simp add: recv_iface_def example_stack_def ip4_def)
  with s' reply_installs_fresher_route [OF example_node_inv _ _ _ _ s', of example_reply "[]"]
  show ?thesis
    by (auto simp: example_reply_packet_def be_codec_ok example_reply_def fresher_def ip4_def Let_def
        example_rte_def RoutingTableEntry_new_def)
qed

end
