(* ===== verification/Request_Props.thy ===== *)
theory Request_Props
  imports Reply_Props
begin

text \<open>
  What becomes of a route request that is new to the agent, through the whole of \<open>RecvRequest\<close>: the
  reverse route, the entry of the neighbour, the neighbour list with the error messages it may cause,
  and then the answer of the destination or the request passed on.
\<close>

subsection \<open>The preparation\<close>

text \<open>What \<open>RecvRequest\<close> does to the state before it decides on an answer.\<close>

definition request_prepared ::
  "ns3 \<Rightarrow> RreqHeader \<Rightarrow> ipv4 \<Rightarrow> ipv4 \<Rightarrow> rp \<Rightarrow> (rte \<times> rp) option" where
  "request_prepared E h receiver src s = do {
     (toOrigin, s) \<leftarrow> reverse_route E h (rq_hopCount h) receiver src s;
     let s = neighbor_route E h receiver src s;
     s \<leftarrow> nb_update E src (hello_lifetime (par s)) s;
     Some (toOrigin, s)
   }"

text \<open>The request as it is passed on.\<close>

definition next_hop :: "RreqHeader \<Rightarrow> RreqHeader" where
  "next_hop h = h\<lparr>rq_hopCount := rq_hopCount h + 1\<rparr>"

text \<open>A request that the agent goes through: from a neighbour that is not blacklisted, and not in the
  cache.\<close>

definition taken_up :: "ns3 \<Rightarrow> RreqHeader \<Rightarrow> ipv4 \<Rightarrow> rp \<Rightarrow> bool" where
  "taken_up E h src s \<longleftrightarrow>
     (\<forall>e. route_of (purged E s) src = Some e \<longrightarrow> \<not> m_blackListState e) \<and>
     IdCache_seen (now E) (m_rreqIdCache s) (rq_origin h, rq_requestID h) = None"

lemma RecvRequest_taken_up:
  assumes "RreqHeader_Deserialize (wire E) (pk_bytes p) = Some (h, rest)" and "taken_up E h src s"
  shows "\<exists>c. (IdCache_inv (m_rreqIdCache s) \<longrightarrow> IdCache_inv c) \<and> RecvRequest E p receiver src s = do {
      (toOrigin, s) \<leftarrow> request_prepared E (next_hop h) receiver src
        (s\<lparr>m_routingTable := purged E s, m_rreqIdCache := c\<rparr>);
      (if IsMyOwnAddress (rq_dst h) s
       then (case lookup E (rq_origin h) s of
               (r, s) \<Rightarrow> SendReply E (next_hop h) (into r toOrigin) s)
       else answer_or_forward E (p\<lparr>pk_bytes := rest\<rparr>) (next_hop h) toOrigin src s)
    }"
proof -
  obtain c where c: "IdCache_IsDuplicate (now E) (rq_origin h) (rq_requestID h) (m_rreqIdCache s) = (False, c)"
    using assms(2) IdCache_dup_iff [of "now E" "rq_origin h" "rq_requestID h" "m_rreqIdCache s"]
    by (cases "IdCache_IsDuplicate (now E) (rq_origin h) (rq_requestID h) (m_rreqIdCache s)")
      (auto simp: taken_up_def IdCache_seen_None)
  have "\<not> (case route_of (purged E s) src of None \<Rightarrow> False | Some toPrev \<Rightarrow> m_blackListState toPrev)"
    using assms(2) by (auto simp: taken_up_def split: option.split)
  then have "RecvRequest E p receiver src s = do {
      (toOrigin, s) \<leftarrow> request_prepared E (next_hop h) receiver src
        (s\<lparr>m_routingTable := purged E s, m_rreqIdCache := c\<rparr>);
      (if IsMyOwnAddress (rq_dst h) s
       then (case lookup E (rq_origin h) s of
               (r, s) \<Rightarrow> SendReply E (next_hop h) (into r toOrigin) s)
       else answer_or_forward E (p\<lparr>pk_bytes := rest\<rparr>) (next_hop h) toOrigin src s)
    }"
    unfolding next_hop_def request_prepared_def RecvRequest_def
    by (simp add: assms(1) lookup_eq c Let_def case_prod_unfold cong: if_cong)
  moreover have "IdCache_inv (m_rreqIdCache s) \<longrightarrow> IdCache_inv c"
    using IdCache_inv_dup [of "m_rreqIdCache s" "now E" "rq_origin h" "rq_requestID h"] c by simp
  ultimately show ?thesis by blast
qed

lemma taken_up_runs:
  assumes "RreqHeader_Deserialize (wire E) (pk_bytes p) = Some (h, rest)" and "taken_up E h src s"
    and "RecvRequest E p receiver src s = Some s'"
  obtains c toOrigin s1 where
    "request_prepared E (next_hop h) receiver src
       (s\<lparr>m_routingTable := purged E s, m_rreqIdCache := c\<rparr>) = Some (toOrigin, s1)"
    "(if IsMyOwnAddress (rq_dst h) s1
      then (case lookup E (rq_origin h) s1 of
              (r, s) \<Rightarrow> SendReply E (next_hop h) (into r toOrigin) s)
      else answer_or_forward E (p\<lparr>pk_bytes := rest\<rparr>) (next_hop h) toOrigin src s1) = Some s'"
proof -
  obtain c where c: "RecvRequest E p receiver src s = do {
      (toOrigin, s) \<leftarrow> request_prepared E (next_hop h) receiver src
        (s\<lparr>m_routingTable := purged E s, m_rreqIdCache := c\<rparr>);
      (if IsMyOwnAddress (rq_dst h) s
       then (case lookup E (rq_origin h) s of
               (r, s) \<Rightarrow> SendReply E (next_hop h) (into r toOrigin) s)
       else answer_or_forward E (p\<lparr>pk_bytes := rest\<rparr>) (next_hop h) toOrigin src s)
    }"
    using RecvRequest_taken_up [OF assms(1,2), of receiver] by blast
  from assms(3) [unfolded c] obtain x where x: "request_prepared E (next_hop h) receiver src
      (s\<lparr>m_routingTable := purged E s, m_rreqIdCache := c\<rparr>) = Some x"
    "(case x of (toOrigin, s) \<Rightarrow>
      (if IsMyOwnAddress (rq_dst h) s
       then (case lookup E (rq_origin h) s of
               (r, s) \<Rightarrow> SendReply E (next_hop h) (into r toOrigin) s)
       else answer_or_forward E (p\<lparr>pk_bytes := rest\<rparr>) (next_hop h) toOrigin src s)) = Some s'"
    unfolding bind_eq_Some_conv by blast
  obtain toOrigin s1 where "x = (toOrigin, s1)" by fastforce
  from x [unfolded this prod.case] show ?thesis by (rule that)
qed

subsection \<open>What the preparation leaves alone\<close>

text \<open>Since \<open>s0\<close> only error messages were sent, and nothing else changed that the answers use.\<close>

definition reported :: "codec \<Rightarrow> rp \<Rightarrow> rp \<Rightarrow> bool" where
  "reported C s0 s \<longleftrightarrow>
     par s = par s0 \<and> m_socketAddresses s = m_socketAddresses s0 \<and> rp_seqNo s = rp_seqNo s0 \<and>
     (\<exists>es. log s = log s0 @ es \<and> (\<forall>x\<in>set es. error_report C x))"

lemma reported_refl [simp]: "reported C s s"
  by (simp add: reported_def)

lemma reported_emit: "reported C s0 s \<Longrightarrow> error_report C x \<Longrightarrow> reported C s0 (emit x s)"
  by (auto simp: reported_def emit_def)

interpretation rpt: link_client free free free free E "reported (wire E) s0"
proof unfold_locales
  fix s x
  assume "reported (wire E) s0 s" "error_report (wire E) x"
  then show "reported (wire E) s0 (emit x s)" by (rule reported_emit)
qed (auto simp: reported_def lookup_eq list_via_state invalidate_routes_def)

text \<open>A route to \<open>k\<close> that lasts, with its next hop, interface and hops.\<close>

definition reaches :: "ns3 \<Rightarrow> ipv4 \<Rightarrow> ipv4 \<times> iface \<times> u16 \<Rightarrow> rp \<Rightarrow> bool" where
  "reaches E k c s \<longleftrightarrow>
     entries_all keyed (m_routingTable s) \<and> 0 \<le> m_badLinkLifetime (m_routingTable s) \<and>
     (\<exists>e. route_of (m_routingTable s) k = Some e \<and> (GetNextHop e, m_iface e, m_hops e) = c \<and> live E e)"

lemma reaches_purged: "reaches E k c s \<Longrightarrow> reaches E k c (s\<lparr>m_routingTable := purged E s\<rparr>)"
  by (auto simp: reaches_def route_of_purged purge_entry_live) (simp_all add: purged_def keyed.inv_Purge)

lemma reaches_invalidate:
  assumes "reaches E k c s"
  shows "reaches E k c (invalidate_routes E un s)"
proof -
  from reaches_purged [OF assms] obtain e where
    "route_of (purged E s) k = Some e" "(GetNextHop e, m_iface e, m_hops e) = c" "live E e"
    by (auto simp: reaches_def)
  with assms show ?thesis
    by (auto simp: reaches_def invalidate_routes_def route_of_InvalidateRoutesWithDst keyed.inv_InvalidateRoutesWithDst
        purged_def Invalidate_def live_def GetLifeTime_def)
qed

lemma reaches_table: "reaches E k c s \<Longrightarrow> m_routingTable s' = m_routingTable s \<Longrightarrow> reaches E k c s'"
  by (simp add: reaches_def)

interpretation rch: link_client free free free free E "reaches E k c"
proof unfold_locales
  fix s i
  assume "reaches E k c s"
  then show "reaches E k c (snd (list_via E i s))"
    using reaches_purged by (simp add: list_via_eq)
next
  fix s un
  assume "reaches E k c s"
  then show "reaches E k c (invalidate_routes E un s)" by (rule reaches_invalidate)
qed (auto simp: lookup_eq reaches_purged, auto intro: reaches_table simp: emit_def)

text \<open>No entry for \<open>k\<close>.\<close>

definition unknown :: "ipv4 \<Rightarrow> rp \<Rightarrow> bool" where
  "unknown k s \<longleftrightarrow> entries_all keyed (m_routingTable s) \<and> route_of (m_routingTable s) k = None"

lemma unknown_purged: "unknown k s \<Longrightarrow> unknown k (s\<lparr>m_routingTable := purged E s\<rparr>)"
  by (auto simp: unknown_def route_of_purged) (simp add: purged_def keyed.inv_Purge)

interpretation unk: link_client free free free free E "unknown k"
proof unfold_locales
  fix s un
  assume "unknown k s"
  with unknown_purged [OF this, of E] show "unknown k (invalidate_routes E un s)"
    by (auto simp: unknown_def invalidate_routes_def route_of_InvalidateRoutesWithDst
        keyed.inv_InvalidateRoutesWithDst purged_def)
qed (auto simp: lookup_eq list_via_eq unknown_purged, auto simp: unknown_def emit_def)

subsection \<open>The reverse route\<close>

lemma keyed_table: "rp_inv s \<Longrightarrow> entries_all keyed (m_routingTable s)"
  by (auto simp: rp_inv_def entries_all_def rte_ok_def keyed_def)

lemma settled_shape [simp]:
  "m_ipv4Route (settled e) = m_ipv4Route e" "m_iface (settled e) = m_iface e" "m_hops (settled e) = m_hops e"
  by (simp_all add: settled_def)

lemma keyed_stored [simp]:
  "entries_all keyed T \<Longrightarrow> entries_all keyed (snd (RoutingTable_AddRoute t e T))"
  "entries_all keyed T \<Longrightarrow> entries_all keyed (snd (RoutingTable_Update e T))"
  by (auto intro!: keyed.inv_AddRoute keyed.inv_Update simp: keyed_def)

lemma keyed_purged: "entries_all keyed (m_routingTable s) \<Longrightarrow> entries_all keyed (purged E s)"
  by (simp add: purged_def keyed.inv_Purge)

lemma purged_none_again:
  "entries_all keyed (m_routingTable s) \<Longrightarrow> route_of (purged E s) k = None \<Longrightarrow>
   route_of (RoutingTable_Purge (now E) (purged E s)) k = None"
  using keyed_purged [of s E] by (simp add: route_of_Purge entries_all_def)

text \<open>Storing a live entry, by either operation of the table.\<close>

lemma reaches_stored:
  assumes "entries_all keyed (m_routingTable s)" "0 \<le> m_badLinkLifetime (m_routingTable s)" "live E e"
    and "route_of (RoutingTable_Purge (now E) (m_routingTable s)) (GetDestination e) = None \<and> s' = add_route E e s
         \<or> route_of (m_routingTable s) (GetDestination e) \<noteq> None \<and> s' = update_route e s"
  shows "reaches E (GetDestination e) (GetNextHop e, m_iface e, m_hops e) s'"
  using assms
  by (auto simp: reaches_def add_route_def update_route_def route_of_AddRoute route_of_Update)

lemma new_entry_shape [simp]:
  "GetNextHop (RoutingTableEntry_new t d a v n i h nh l) = nh"
  "m_iface (RoutingTableEntry_new t d a v n i h nh l) = i"
  "m_hops (RoutingTableEntry_new t d a v n i h nh l) = h"
  by (simp_all add: RoutingTableEntry_new_def)

lemma live_new [simp]: "live E (RoutingTableEntry_new (now E) d a v n i h nh l) \<longleftrightarrow> 0 \<le> l"
  by (simp add: live_def GetLifeTime_def RoutingTableEntry_new_def)

text \<open>After the reverse route is stored, the originator is reached over the sender.\<close>

lemma reverse_route_reaches:
  assumes "entries_all keyed (m_routingTable s)" "0 \<le> m_badLinkLifetime (m_routingTable s)"
    and "0 \<le> reverse_lifetime (par s) hop" and "reverse_route E h hop receiver src s = Some (toOrigin, s')"
  shows "reaches E (rq_origin h) (src, recv_iface E receiver, ucast hop) s'"
proof (cases "route_of (purged E s) (rq_origin h)")
  case None
  let ?new = "RoutingTableEntry_new (now E) (Some (recv_dev E receiver)) (rq_origin h) True
      (rq_originSeqNo h) (recv_iface E receiver) (ucast hop) src (reverse_lifetime (par s) hop)"
  from None assms(4) have "s' = add_route E ?new (s\<lparr>m_routingTable := purged E s\<rparr>)"
    by (simp add: reverse_route_def lookup_eq)
  then show ?thesis
    using reaches_stored [of "s\<lparr>m_routingTable := purged E s\<rparr>" E ?new s'] assms(1-3) None
    by (simp add: keyed_purged purged_none_again)
next
  case (Some e0)
  with keyed_purged [OF assms(1), of E] have "GetDestination e0 = rq_origin h"
    by (auto simp: entries_all_def keyed_def)
  with Some assms(3,4) have "s' = update_route toOrigin (s\<lparr>m_routingTable := purged E s\<rparr>)
      \<and> GetDestination toOrigin = rq_origin h \<and> GetNextHop toOrigin = src
      \<and> m_iface toOrigin = recv_iface E receiver \<and> m_hops toOrigin = ucast hop \<and> live E toOrigin"
    by (auto simp: reverse_route_def lookup_eq Let_def bind_eq_Some_conv entry_edits GetLifeTime_def
        live_def split: if_splits)
  with reaches_stored [of "s\<lparr>m_routingTable := purged E s\<rparr>" E toOrigin s'] assms(1,2) Some show ?thesis
    by (simp add: keyed_purged)
qed

text \<open>The neighbour's entry changes that only when the neighbour is the originator itself.\<close>

lemma neighbor_route_reaches:
  assumes "reaches E k (src, recv_iface E receiver, n) s" and "0 \<le> m_activeRouteTimeout (par s)"
  shows "reaches E k (src, recv_iface E receiver, if k = src then 1 else n) (neighbor_route E h receiver src s)"
proof -
  let ?u = "s\<lparr>m_routingTable := purged E s\<rparr>"
  have u: "reaches E k (src, recv_iface E receiver, n) ?u" using assms(1) by (rule reaches_purged)
  then have k: "entries_all keyed (purged E s)" "0 \<le> m_badLinkLifetime (m_routingTable ?u)"
    by (simp_all add: reaches_def)
  show ?thesis
  proof (cases "route_of (purged E s) src")
    case None
    let ?new = "RoutingTableEntry_new (now E) (Some (recv_dev E receiver)) src False
        (rq_originSeqNo h) (recv_iface E receiver) 1 src (m_activeRouteTimeout (par s))"
    have "neighbor_route E h receiver src s = add_route E ?new ?u"
      using None by (simp add: neighbor_route_def lookup_eq)
    moreover have "k \<noteq> src" using u None by (auto simp: reaches_def)
    moreover have "reaches E k c (add_route E ?new ?u)" if "reaches E k c ?u" "k \<noteq> src" for c
      using reaches_purged [OF that(1)] that(2)
      using keyed_purged [of s E] u
      by (auto simp: reaches_def add_route_def route_of_AddRoute purged_def)
    ultimately show ?thesis using u by simp
  next
    case (Some e0)
    with k(1) have "GetDestination e0 = src" by (auto simp: entries_all_def keyed_def)
    let ?n = "SetLifeTime (now E) (m_activeRouteTimeout (par s)) e0"
    let ?e = "SetNextHop src ((SetOutputDevice (Some (recv_dev E receiver))
        (?n\<lparr>m_validSeqNo := False, m_seqNo := rq_originSeqNo h, m_flag := VALID\<rparr>))
        \<lparr>m_iface := recv_iface E receiver, m_hops := 1\<rparr>)"
    have s': "neighbor_route E h receiver src s = update_route ?e ?u"
      using Some by (simp add: neighbor_route_def lookup_eq Let_def)
    define e where "e = ?e"
    have e: "GetDestination e = src" "GetNextHop e = src" "m_iface e = recv_iface E receiver"
        "m_hops e = 1" "live E e"
      using \<open>GetDestination e0 = src\<close> assms(2) by (simp_all add: e_def entry_edits live_def GetLifeTime_def)
    note s' = s' [folded e_def]
    show ?thesis
    proof (cases "k = src")
      case True
      with reaches_stored [of ?u E e "update_route e ?u"] k e Some show ?thesis by (simp add: s')
    next
      case False
      with u e(1) show ?thesis
        by (auto simp: s' reaches_def update_route_def route_of_Update)
    qed
  qed
qed

lemma reverse_route_frame:
  "reverse_route E h hop receiver src s = Some (toOrigin, s') \<Longrightarrow> \<exists>T. s' = s\<lparr>m_routingTable := T\<rparr>"
  by (auto simp: reverse_route_def lookup_eq bind_eq_Some_conv Let_def add_route_def update_route_def
      split: option.splits)

text \<open>A route to the originator that is known keeps its flag: it does not become valid.\<close>

lemma reverse_route_keeps_flag:
  assumes "reverse_route E h hop receiver src s = Some (toOrigin, s')"
    and "route_of (purged E s) (rq_origin h) = Some e"
  shows "m_flag toOrigin = m_flag e \<and> m_hops toOrigin = ucast hop"
  using assms by (auto simp: reverse_route_def lookup_eq Let_def bind_eq_Some_conv entry_edits split: if_splits)

lemma neighbor_route_frame: "\<exists>T. neighbor_route E h receiver src s = s\<lparr>m_routingTable := T\<rparr>"
  by (auto simp: neighbor_route_def lookup_eq Let_def add_route_def update_route_def split: option.split)

text \<open>The interface of what is known of a destination \<open>k\<close> that is neither the originator nor the
  neighbour: it survives a purge and entries stored for others.\<close>

locale bystander =
  fixes E :: ns3 and k :: ipv4 and I :: "rp \<Rightarrow> bool"
  assumes I_keyed: "I s \<Longrightarrow> entries_all keyed (m_routingTable s)"
    and I_purged: "I s \<Longrightarrow> I (s\<lparr>m_routingTable := purged E s\<rparr>)"
    and I_add: "I s \<Longrightarrow> GetDestination e \<noteq> k \<Longrightarrow> I (add_route E e s)"
    and I_update: "I s \<Longrightarrow> GetDestination e \<noteq> k \<Longrightarrow> I (update_route e s)"
begin

lemma entry: "I s \<Longrightarrow> route_of (purged E s) i = Some e \<Longrightarrow> GetDestination e = i"
  using keyed_purged [OF I_keyed, of s E] by (auto simp: entries_all_def keyed_def)

lemma I_reverse_route:
  assumes "I s" and "k \<noteq> rq_origin h"
    and "reverse_route E h hop receiver src s = Some (toOrigin, s')"
  shows "I s'"
proof (cases "route_of (purged E s) (rq_origin h)")
  case None
  with assms I_purged [OF assms(1)] show ?thesis
    by (auto simp: reverse_route_def lookup_eq intro!: I_add)
next
  case (Some e)
  with assms(2,3) entry [OF assms(1) Some] I_purged [OF assms(1)] show ?thesis
    by (auto simp: reverse_route_def lookup_eq Let_def bind_eq_Some_conv entry_edits split: if_splits
        intro!: I_update)
qed

lemma I_neighbor_route:
  assumes "I s" and "k \<noteq> src"
  shows "I (neighbor_route E h receiver src s)"
  using assms I_purged [OF assms(1)] entry [OF assms(1), of src]
  by (auto simp: neighbor_route_def lookup_eq Let_def entry_edits split: option.split
      intro!: I_add I_update)

end

interpretation unkb: bystander E k "unknown k"
proof unfold_locales
  fix s e
  assume "unknown k s" "GetDestination e \<noteq> k"
  then show "unknown k (add_route E e s)" "unknown k (update_route e s)"
    by (auto simp: unknown_def add_route_def update_route_def route_of_Update route_of_AddRoute
        route_of_Purge entries_all_def [of keyed "m_routingTable s"])
qed (simp_all add: unknown_purged, simp add: unknown_def)

text \<open>An entry \<open>e\<close> for \<open>k\<close> that lasts.\<close>

definition stands :: "ns3 \<Rightarrow> ipv4 \<Rightarrow> rte \<Rightarrow> rp \<Rightarrow> bool" where
  "stands E k e s \<longleftrightarrow> entries_all keyed (m_routingTable s) \<and> route_of (m_routingTable s) k = Some e \<and> live E e"

lemma stands_purged: "stands E k e s \<Longrightarrow> stands E k e (s\<lparr>m_routingTable := purged E s\<rparr>)"
  by (auto simp: stands_def route_of_purged purge_entry_live keyed_purged)

interpretation stn: bystander E k "stands E k e"
proof unfold_locales
  fix s x
  assume s: "stands E k e s" "GetDestination x \<noteq> k"
  with stands_purged [OF s(1)] show "stands E k e (add_route E x s)"
    by (auto simp: stands_def add_route_def route_of_AddRoute purged_def)
  from s show "stands E k e (update_route x s)"
    by (auto simp: stands_def update_route_def route_of_Update)
qed (simp_all add: stands_purged, simp add: stands_def)

text \<open>The preparation as a whole.\<close>

lemma prepared_parts:
  assumes "request_prepared E h receiver src s = Some (toOrigin, s')"
  obtains s1 where "reverse_route E h (rq_hopCount h) receiver src s = Some (toOrigin, s1)"
    "nb_update E src (hello_lifetime (par (neighbor_route E h receiver src s1)))
       (neighbor_route E h receiver src s1) = Some s'"
  using assms by (auto simp: request_prepared_def Let_def bind_eq_Some_conv)

lemma prepared_reported:
  assumes "request_prepared E h receiver src s = Some (toOrigin, s')"
  shows "reported (wire E) s s'"
proof -
  from assms obtain s1 where 1: "reverse_route E h (rq_hopCount h) receiver src s = Some (toOrigin, s1)"
    and 2: "nb_update E src (hello_lifetime (par (neighbor_route E h receiver src s1)))
       (neighbor_route E h receiver src s1) = Some s'"
    by (rule prepared_parts)
  obtain T T' where "s1 = s\<lparr>m_routingTable := T\<rparr>" "neighbor_route E h receiver src s1 = s1\<lparr>m_routingTable := T'\<rparr>"
    using reverse_route_frame [OF 1] neighbor_route_frame by blast
  then have "reported (wire E) s (neighbor_route E h receiver src s1)" by (simp add: reported_def)
  from presD [OF rpt.I_nb_update [OF this] 2] show ?thesis .
qed

lemma prepared_reaches:
  assumes "entries_all keyed (m_routingTable s)" "0 \<le> m_badLinkLifetime (m_routingTable s)"
    and "0 \<le> reverse_lifetime (par s) (rq_hopCount h)" "0 \<le> m_activeRouteTimeout (par s)"
    and "request_prepared E h receiver src s = Some (toOrigin, s')"
  shows "reaches E (rq_origin h)
    (src, recv_iface E receiver, if rq_origin h = src then 1 else ucast (rq_hopCount h)) s'"
proof -
  from assms(5) obtain s1 where 1: "reverse_route E h (rq_hopCount h) receiver src s = Some (toOrigin, s1)"
    and 2: "nb_update E src (hello_lifetime (par (neighbor_route E h receiver src s1)))
       (neighbor_route E h receiver src s1) = Some s'"
    by (rule prepared_parts)
  have "par s1 = par s" using reverse_route_frame [OF 1] by auto
  with reverse_route_reaches [OF assms(1-3) 1] assms(4)
  have "reaches E (rq_origin h) (src, recv_iface E receiver,
      if rq_origin h = src then 1 else ucast (rq_hopCount h)) (neighbor_route E h receiver src s1)"
    by (intro neighbor_route_reaches) simp_all
  from presD [OF rch.I_nb_update [OF this] 2] show ?thesis .
qed

lemma prepared_unknown:
  assumes "unknown k s" and "k \<noteq> rq_origin h" "k \<noteq> src"
    and "request_prepared E h receiver src s = Some (toOrigin, s')"
  shows "unknown k s'"
proof -
  from assms(4) obtain s1 where 1: "reverse_route E h (rq_hopCount h) receiver src s = Some (toOrigin, s1)"
    and 2: "nb_update E src (hello_lifetime (par (neighbor_route E h receiver src s1)))
       (neighbor_route E h receiver src s1) = Some s'"
    by (rule prepared_parts)
  from unkb.I_neighbor_route [OF unkb.I_reverse_route [OF assms(1,2) 1] assms(3)]
  have "unknown k (neighbor_route E h receiver src s1)" .
  from presD [OF unk.I_nb_update [OF this] 2] show ?thesis .
qed

text \<open>While no neighbour is lost the list calls nobody, and the preparation does not stop the program.\<close>

lemma nb_update_quiet:
  assumes "lost (now E) (rp_nb s) = []" and "0 \<le> x"
  shows "\<exists>nb. nb_update E a x s = Some (s\<lparr>rp_nb := nb\<rparr>)"
proof (cases "refresh E (rp_nb s) a x (m_nb (rp_nb s))")
  case None
  then show ?thesis
    using assms
    by (auto simp: nb_update_def Neighbors_Update_def Neighbors_Purge_eq lost_def call_failure_def
        CloseNeighbor_def split: option.split)
next
  case (Some l)
  then show ?thesis by (auto simp: nb_update_def Neighbors_Update_def)
qed

lemma prepared_total:
  assumes "\<And>e. route_of (purged E s) (rq_origin h) = Some e \<Longrightarrow> m_validSeqNo e \<Longrightarrow>
      s32_sub (rq_originSeqNo h) (m_seqNo e) \<noteq> None"
    and "lost (now E) (rp_nb s) = []" and "0 \<le> hello_lifetime (par s)"
  shows "\<exists>toOrigin s'. request_prepared E h receiver src s = Some (toOrigin, s')"
proof -
  have "\<exists>x. reverse_route E h (rq_hopCount h) receiver src s = Some x"
    using assms(1) by (auto simp: reverse_route_def lookup_eq Let_def split: option.split)
  then obtain toOrigin s1 where 1: "reverse_route E h (rq_hopCount h) receiver src s = Some (toOrigin, s1)"
    by auto
  obtain T T' where "s1 = s\<lparr>m_routingTable := T\<rparr>" "neighbor_route E h receiver src s1 = s1\<lparr>m_routingTable := T'\<rparr>"
    using reverse_route_frame [OF 1] neighbor_route_frame by blast
  then show ?thesis
    using 1 assms(2,3) nb_update_quiet [of E "neighbor_route E h receiver src s1" "hello_lifetime (par s)" src]
    by (auto simp: request_prepared_def)
qed

subsection \<open>The answers\<close>

lemma SendReply_sends:
  assumes "SendReply E h e s = Some s'"
  shows "\<exists>k. FindSocketWithInterfaceAddress (m_iface e) s = Some k
     \<and> rp_seqNo s' = (if \<not> RreqHeader_GetUnknownSeqno h \<and> rq_dstSeqNo h = rp_seqNo s + 1
                      then rp_seqNo s + 1 else rp_seqNo s)
     \<and> log s' = log s @ [SockSend k (rrep_packet E (m_hops e)
         (RrepHeader_new E 0 0 (rq_dst h) (rp_seqNo s') (GetDestination e) (m_myRouteTimeout (par s))))
         (GetNextHop e)]"
  using assms
  by (auto simp: SendReply_def Let_def bind_eq_Some_conv emit_def FindSocketWithInterfaceAddress_def
      split: if_splits)

lemma unknown_seqno_next_hop [simp]:
  "RreqHeader_GetUnknownSeqno (next_hop h) = RreqHeader_GetUnknownSeqno h"
  "rq_dst (next_hop h) = rq_dst h" "rq_origin (next_hop h) = rq_origin h"
  "rq_dstSeqNo (next_hop h) = rq_dstSeqNo h" "rq_hopCount (next_hop h) = rq_hopCount h + 1"
  by (simp_all add: next_hop_def RreqHeader_GetUnknownSeqno_def)

text \<open>The entry the answer uses.\<close>

lemma prepared_origin:
  assumes "rp_inv s" and "0 \<le> reverse_lifetime (par s) (rq_hopCount h + 1)" and "0 \<le> m_activeRouteTimeout (par s)"
    and prep: "request_prepared E (next_hop h) receiver src
        (s\<lparr>m_routingTable := purged E s, m_rreqIdCache := c\<rparr>) = Some (toOrigin, s1)"
  obtains e where "lookup E (rq_origin h) s1 = (Some e, s1\<lparr>m_routingTable := purged E s1\<rparr>)"
    "GetNextHop e = src" "m_iface e = recv_iface E receiver"
    "m_hops e = (if rq_origin h = src then 1 else ucast (rq_hopCount h + 1))" "GetDestination e = rq_origin h" "live E e"
proof -
  let ?s = "s\<lparr>m_routingTable := purged E s, m_rreqIdCache := c\<rparr>"
  have "entries_all keyed (m_routingTable ?s)" "0 \<le> m_badLinkLifetime (m_routingTable ?s)"
    using assms(1) keyed_purged [OF keyed_table [OF assms(1)], of E] by (simp_all add: rp_inv_def)
  from prepared_reaches [OF this _ _ prep] assms(2,3)
  have "reaches E (rq_origin h) (src, recv_iface E receiver,
      if rq_origin h = src then 1 else ucast (rq_hopCount h + 1)) s1"
    by (simp cong: if_cong)
  from reaches_purged [OF this] that show ?thesis
    by (auto simp: reaches_def entries_all_def keyed_def lookup_eq)
qed

lemma RecvRequest_answers:
  assumes "rp_inv s" and "codec_ok (wire E)" and "pk_bytes p = RreqHeader_Serialize (wire E) h @ rest"
    and "taken_up E h src s" and "IsMyOwnAddress (rq_dst h) s"
    and "0 \<le> reverse_lifetime (par s) (rq_hopCount h + 1)" and "0 \<le> m_activeRouteTimeout (par s)"
    and "RecvRequest E p receiver src s = Some s'"
  shows "let q = (if \<not> RreqHeader_GetUnknownSeqno h \<and> rq_dstSeqNo h = rp_seqNo s + 1
                  then rp_seqNo s + 1 else rp_seqNo s);
             hops = (if rq_origin h = src then 1 else ucast (rq_hopCount h + 1)) in
     rp_seqNo s' = q \<and>
     (\<exists>es k. FindSocketWithInterfaceAddress (recv_iface E receiver) s = Some k
        \<and> (\<forall>x\<in>set es. error_report (wire E) x)
        \<and> log s' = log s @ es @ [SockSend k (rrep_packet E hops
             (RrepHeader_new E 0 0 (rq_dst h) q (rq_origin h) (m_myRouteTimeout (par s)))) src])"
proof -
  have parse: "RreqHeader_Deserialize (wire E) (pk_bytes p) = Some (h, rest)"
    unfolding assms(3) by (rule byte_order.rreq_des_ser [OF byte_orderI [OF assms(2)]])
  from taken_up_runs [OF parse assms(4,8)] obtain c toOrigin s1 where
    prep: "request_prepared E (next_hop h) receiver src
        (s\<lparr>m_routingTable := purged E s, m_rreqIdCache := c\<rparr>) = Some (toOrigin, s1)"
    and ans: "(if IsMyOwnAddress (rq_dst h) s1
       then (case lookup E (rq_origin h) s1 of
               (r, s) \<Rightarrow> SendReply E (next_hop h) (into r toOrigin) s)
       else answer_or_forward E (p\<lparr>pk_bytes := rest\<rparr>) (next_hop h) toOrigin src s1) = Some s'"
    by metis
  obtain e where e: "lookup E (rq_origin h) s1 = (Some e, s1\<lparr>m_routingTable := purged E s1\<rparr>)"
    "GetNextHop e = src" "m_iface e = recv_iface E receiver"
    "m_hops e = (if rq_origin h = src then 1 else ucast (rq_hopCount h + 1))" "GetDestination e = rq_origin h" "live E e"
    by (rule prepared_origin [OF assms(1,6,7) prep])
  from prepared_reported [OF prep] have r: "par s1 = par s" "m_socketAddresses s1 = m_socketAddresses s"
    "rp_seqNo s1 = rp_seqNo s" "\<exists>es. log s1 = log s @ es \<and> (\<forall>x\<in>set es. error_report (wire E) x)"
    by (auto simp: reported_def)
  then have own: "IsMyOwnAddress (rq_dst h) s1" using assms(5) by (simp add: IsMyOwnAddress_def)
  with ans e(1) have "SendReply E (next_hop h) e (s1\<lparr>m_routingTable := purged E s1\<rparr>) = Some s'"
    by (simp add: into_def)
  from SendReply_sends [OF this] r e(2-5) show ?thesis
    by (auto simp: Let_def FindSocketWithInterfaceAddress_def)
qed

text \<open>C8: a request that arrives at its destination is answered. When it is not a duplicate and does not
  come from a blacklisted neighbour, one reply goes to the node it came from, over the interface it
  came in on, and nothing else is sent but error messages for links found broken on the way. The reply
  names the destination and the originator, counts no hop, has a TTL as large as the request's way,
  promises the route for \<open>MyRouteTimeout\<close>, and carries this node's sequence number, which is stepped
  exactly when the request knows the next one already.\<close>

theorem request_answered:
  assumes "rp_inv s" and "codec_ok (wire E)" and "pk_bytes p = RreqHeader_Serialize (wire E) h @ rest"
    and "taken_up E h src s" and "IsMyOwnAddress (rq_dst h) s"
    and "0 \<le> reverse_lifetime (par s) (rq_hopCount h + 1)" and "0 \<le> m_activeRouteTimeout (par s)"
    and "RecvRequest E p receiver src s = Some s'"
  shows "let q = (if \<not> RreqHeader_GetUnknownSeqno h \<and> rq_dstSeqNo h = rp_seqNo s + 1
                  then rp_seqNo s + 1 else rp_seqNo s);
             hops = (if rq_origin h = src then 1 else ucast (rq_hopCount h + 1)) in
     rp_seqNo s' = q \<and>
     (\<exists>es k. FindSocketWithInterfaceAddress (recv_iface E receiver) s = Some k
        \<and> (\<forall>x\<in>set es. error_report (wire E) x)
        \<and> log s' = log s @ es @ [SockSend k (rrep_packet E hops
             (RrepHeader_new E 0 0 (rq_dst h) q (rq_origin h) (m_myRouteTimeout (par s)))) src])"
  using assms by (rule RecvRequest_answers)

text \<open>The handler does not stop the program: no neighbour is lost, the sequence numbers can be
  subtracted, and there is a socket for the interface the request came in on.\<close>

lemma request_does_not_stop:
  assumes "rp_inv s" and "RreqHeader_Deserialize (wire E) (pk_bytes p) = Some (h, rest)" and "taken_up E h src s"
    and "0 \<le> reverse_lifetime (par s) (rq_hopCount h + 1)" and "0 \<le> m_activeRouteTimeout (par s)"
    and "\<And>e. route_of (purged E s) (rq_origin h) = Some e \<Longrightarrow> m_validSeqNo e \<Longrightarrow>
      s32_sub (rq_originSeqNo h) (m_seqNo e) \<noteq> None"
    and "lost (now E) (rp_nb s) = []" and "0 \<le> hello_lifetime (par s)"
    and "if IsMyOwnAddress (rq_dst h) s
         then FindSocketWithInterfaceAddress (recv_iface E receiver) s \<noteq> None
         else route_of (purged E s) (rq_dst h) = None \<and> rq_dst h \<noteq> rq_origin h \<and> rq_dst h \<noteq> src"
  shows "\<exists>s'. RecvRequest E p receiver src s = Some s'"
proof -
  obtain c where c: "RecvRequest E p receiver src s = do {
      (toOrigin, s) \<leftarrow> request_prepared E (next_hop h) receiver src
        (s\<lparr>m_routingTable := purged E s, m_rreqIdCache := c\<rparr>);
      (if IsMyOwnAddress (rq_dst h) s
       then (case lookup E (rq_origin h) s of
               (r, s) \<Rightarrow> SendReply E (next_hop h) (into r toOrigin) s)
       else answer_or_forward E (p\<lparr>pk_bytes := rest\<rparr>) (next_hop h) toOrigin src s)
    }"
    using RecvRequest_taken_up [OF assms(2,3), of receiver] by blast
  let ?s = "s\<lparr>m_routingTable := purged E s, m_rreqIdCache := c\<rparr>"
  have "purged E ?s = purged E s" using purged_idem [OF assms(1), of E] by (simp add: purged_def)
  with prepared_total [of E ?s "next_hop h" receiver src] assms(6-8) obtain toOrigin s1 where
    prep: "request_prepared E (next_hop h) receiver src ?s = Some (toOrigin, s1)"
    by (auto simp: next_hop_def)
  from prepared_reported [OF prep] have r: "m_socketAddresses s1 = m_socketAddresses s" by (simp add: reported_def)
  show ?thesis
  proof (cases "IsMyOwnAddress (rq_dst h) s")
    case True
    obtain e where e: "lookup E (rq_origin h) s1 = (Some e, s1\<lparr>m_routingTable := purged E s1\<rparr>)"
      "m_iface e = recv_iface E receiver"
      by (rule prepared_origin [OF assms(1,4,5) prep])
    from True assms(9) r have "IsMyOwnAddress (rq_dst h) s1"
      "FindSocketWithInterfaceAddress (recv_iface E receiver) s1 \<noteq> None"
      by (simp_all add: IsMyOwnAddress_def FindSocketWithInterfaceAddress_def)
    with e show ?thesis
      by (auto simp: c prep into_def SendReply_def Let_def FindSocketWithInterfaceAddress_def)
  next
    case False
    have "unknown (rq_dst h) ?s"
      using False assms(9) keyed_purged [OF keyed_table [OF assms(1)], of E] by (simp add: unknown_def)
    from prepared_unknown [OF this _ _ prep] False assms(9) have "unknown (rq_dst h) s1" by simp
    from unknown_purged [OF this] have "route_of (purged E s1) (rq_dst h) = None" by (simp add: unknown_def)
    with False r show ?thesis
      by (simp add: c prep answer_or_forward_def lookup_eq IsMyOwnAddress_def)
  qed
qed

lemma ttl_of_bytes [simp]: "ttl_of E (p\<lparr>pk_bytes := bs\<rparr>) = ttl_of E p"
  by (simp add: ttl_of_def)

text \<open>The copies of a request that go out over the interfaces, from the \<open>d\<close>th random number on.\<close>

definition rreq_copies :: "ns3 \<Rightarrow> RreqHeader \<Rightarrow> u8 \<Rightarrow> nat \<Rightarrow> (sock \<times> iface) list \<Rightarrow> effect list" where
  "rreq_copies E h ttl d js =
     map (\<lambda>(n, j). SchedSend (MilliSeconds (uniform E (d + n) 0 10)) (fst j)
            (control_packet ttl MADAODVTYPE_RREQ (RreqHeader_Serialize (wire E) h))
            (broadcast_destination E (snd j))) (enumerate 0 js)"

lemma rreq_copies_Cons:
  "rreq_copies E h ttl d (j # js) =
     SchedSend (MilliSeconds (uniform E d 0 10)) (fst j)
       (control_packet ttl MADAODVTYPE_RREQ (RreqHeader_Serialize (wire E) h))
       (broadcast_destination E (snd j))
     # rreq_copies E h ttl (Suc d) js"
proof -
  have "enumerate (Suc 0) js = map (\<lambda>(n, j). (Suc n, j)) (enumerate 0 js)"
    by (simp add: enumerate_eq_zip zip_map1 [symmetric] map_Suc_upt)
  then show ?thesis by (simp add: rreq_copies_def split_beta comp_def)
qed

lemma forward_rreq_on_frame:
  "draws (forward_rreq_on E h ttl j s) = Suc (draws s)"
  "rp_seqNo (forward_rreq_on E h ttl j s) = rp_seqNo s"
  "log (forward_rreq_on E h ttl j s) = log s @ rreq_copies E h (ttl - 1) (draws s) [j]"
  by (simp_all add: forward_rreq_on_def schedule_send_def jitter_def draw_def emit_def Let_def
      rreq_copies_def split_beta)

lemma fold_forward_rreq:
  "rp_seqNo (fold (forward_rreq_on E h ttl) js s) = rp_seqNo s"
  "log (fold (forward_rreq_on E h ttl) js s) = log s @ rreq_copies E h (ttl - 1) (draws s) js"
proof (induction js arbitrary: s)
  case Nil
  {
    case 1
    show ?case by simp
  next
    case 2
    show ?case by (simp add: rreq_copies_def)
  }
next
  case (Cons j js)
  {
    case 1
    show ?case by (simp add: Cons.IH forward_rreq_on_frame)
  next
    case 2
    have "rreq_copies E h (ttl - 1) (draws s) (j # js) =
        rreq_copies E h (ttl - 1) (draws s) [j] @ rreq_copies E h (ttl - 1) (Suc (draws s)) js"
      by (simp add: rreq_copies_Cons) (simp add: rreq_copies_def)
    then show ?case by (simp add: Cons.IH forward_rreq_on_frame)
  }
qed

lemma RecvRequest_passes_on:
  assumes "rp_inv s" and "codec_ok (wire E)" and "pk_bytes p = RreqHeader_Serialize (wire E) h @ rest"
    and "taken_up E h src s" and "\<not> IsMyOwnAddress (rq_dst h) s"
    and "route_of (purged E s) (rq_dst h) = None" and "rq_dst h \<noteq> rq_origin h" and "rq_dst h \<noteq> src"
    and "RecvRequest E p receiver src s = Some s'"
  shows "rp_seqNo s' = rp_seqNo s \<and>
     (\<exists>es d. (\<forall>x\<in>set es. error_report (wire E) x)
        \<and> log s' = log s @ es @ (if ttl_of E p < 2 then []
             else rreq_copies E (h\<lparr>rq_hopCount := rq_hopCount h + 1\<rparr>) (ttl_of E p - 1) d (m_socketAddresses s)))"
proof -
  have parse: "RreqHeader_Deserialize (wire E) (pk_bytes p) = Some (h, rest)"
    unfolding assms(3) by (rule byte_order.rreq_des_ser [OF byte_orderI [OF assms(2)]])
  from taken_up_runs [OF parse assms(4,9)] obtain c toOrigin s1 where
    prep: "request_prepared E (next_hop h) receiver src
        (s\<lparr>m_routingTable := purged E s, m_rreqIdCache := c\<rparr>) = Some (toOrigin, s1)"
    and ans: "(if IsMyOwnAddress (rq_dst h) s1
       then (case lookup E (rq_origin h) s1 of
               (r, s) \<Rightarrow> SendReply E (next_hop h) (into r toOrigin) s)
       else answer_or_forward E (p\<lparr>pk_bytes := rest\<rparr>) (next_hop h) toOrigin src s1) = Some s'"
    by metis
  let ?s = "s\<lparr>m_routingTable := purged E s, m_rreqIdCache := c\<rparr>"
  have "unknown (rq_dst h) ?s"
    using assms(6) keyed_purged [OF keyed_table [OF assms(1)], of E] by (simp add: unknown_def)
  from prepared_unknown [OF this _ _ prep] assms(7,8) have "unknown (rq_dst h) s1" by simp
  from unknown_purged [OF this] have none: "route_of (purged E s1) (rq_dst h) = None"
    by (simp add: unknown_def)
  from prepared_reported [OF prep] have r: "m_socketAddresses s1 = m_socketAddresses s"
    "rp_seqNo s1 = rp_seqNo s" "\<exists>es. log s1 = log s @ es \<and> (\<forall>x\<in>set es. error_report (wire E) x)"
    by (auto simp: reported_def)
  then have "\<not> IsMyOwnAddress (rq_dst h) s1" using assms(5) by (simp add: IsMyOwnAddress_def)
  with ans none have s': "s' = forward_rreq E (p\<lparr>pk_bytes := rest\<rparr>) (next_hop h) (s1\<lparr>m_routingTable := purged E s1\<rparr>)"
    by (simp add: answer_or_forward_def lookup_eq)
  obtain es where es: "log s1 = log s @ es" "\<forall>x\<in>set es. error_report (wire E) x" using r(3) by blast
  show ?thesis
    using es r(1,2)
    by (auto simp: s' forward_rreq_def fold_forward_rreq next_hop_def intro!: exI [of _ es] exI [of _ "draws s1"])
qed

text \<open>C9: a request for somebody the agent knows nothing about is passed on. When it is not a duplicate,
  it goes out once over every interface, to its broadcast address, unchanged but for one more hop and
  a TTL one less; with a TTL below two it goes nowhere. Nothing else is sent but error messages for
  links found broken, and this node's sequence number stays.\<close>

theorem request_passed_on:
  assumes "rp_inv s" and "codec_ok (wire E)" and "pk_bytes p = RreqHeader_Serialize (wire E) h @ rest"
    and "taken_up E h src s" and "\<not> IsMyOwnAddress (rq_dst h) s"
    and "route_of (purged E s) (rq_dst h) = None" and "rq_dst h \<noteq> rq_origin h" and "rq_dst h \<noteq> src"
    and "RecvRequest E p receiver src s = Some s'"
  shows "rp_seqNo s' = rp_seqNo s \<and>
     (\<exists>es d. (\<forall>x\<in>set es. error_report (wire E) x)
        \<and> log s' = log s @ es @ (if ttl_of E p < 2 then []
             else rreq_copies E (h\<lparr>rq_hopCount := rq_hopCount h + 1\<rparr>) (ttl_of E p - 1) d (m_socketAddresses s)))"
  using assms by (rule RecvRequest_passes_on)

text \<open>The node of the witnesses gets the request for an address nobody knows, and one for itself.\<close>

lemma example_timeouts:
  "0 \<le> reverse_lifetime example_params (rq_hopCount example_rreq + 1)"
  "0 \<le> m_activeRouteTimeout example_params" "0 \<le> hello_lifetime example_params"
  by (simp_all add: reverse_lifetime_def hello_lifetime_def example_rreq_def example_params_def
      initial_params_def Let_def time_units)

lemma example_nb: "m_nb (rp_nb example_node) = []"
  by (simp add: example_node_def) (simp add: run_defs Let_def)

lemma example_taken_up: "taken_up (example_env 6) h 3 example_node"
  by (simp add: taken_up_def example_cache IdCache_seen_def example_rte_def RoutingTableEntry_new_def)

lemma example_recv_iface [simp]: "recv_iface (example_env 6) (ip4 10 1 1 1) = example_iface"
  by (simp add: recv_iface_def example_stack_def ip4_def)

definition example_rreq_here :: RreqHeader where
  "example_rreq_here = example_rreq\<lparr>rq_dst := ip4 10 1 1 1\<rparr>"

lemma example_node_address:
  "IsMyOwnAddress a example_node \<longleftrightarrow> a = ip4 10 1 1 1"
  "FindSocketWithInterfaceAddress example_iface example_node = Some 0"
  by (auto simp: IsMyOwnAddress_def FindSocketWithInterfaceAddress_def example_iface_def)

lemma example_unknown: "k \<noteq> 3 \<Longrightarrow> k \<noteq> 4 \<Longrightarrow> route_of (purged (example_env 6) example_node) k = None"
  by simp

lemma example_addresses:
  "ip4 10 1 2 3 \<noteq> ip4 10 1 1 1" "ip4 10 1 2 3 \<noteq> ip4 10 1 2 9" "ip4 10 1 2 3 \<noteq> 3" "ip4 10 1 2 3 \<noteq> 4"
  "ip4 10 1 2 9 \<noteq> 3" "ip4 10 1 2 9 \<noteq> 4"
  by (simp_all add: ip4_def)

lemma example_request_received:
  assumes "h = example_rreq \<or> h = example_rreq_here" and "pk_bytes p = RreqHeader_Serialize be_codec h"
  shows "\<exists>s'. RecvRequest (example_env 6) p (ip4 10 1 1 1) 3 example_node = Some s'"
proof (rule request_does_not_stop [OF example_node_inv _ example_taken_up])
  show "RreqHeader_Deserialize (wire (example_env 6)) (pk_bytes p) = Some (h, [])"
    using be.rreq_des_ser [of h "[]"] assms(2) by simp
  have h: "rq_origin h = ip4 10 1 2 9" "rq_dst h = ip4 10 1 2 3 \<or> rq_dst h = ip4 10 1 1 1"
    "rq_hopCount h = rq_hopCount example_rreq"
    using assms(1) by (auto simp: example_rreq_here_def example_rreq_def)
  then show "0 \<le> reverse_lifetime (par example_node) (rq_hopCount h + 1)"
    using example_timeouts(1) by simp
  show "s32_sub (rq_originSeqNo h) (m_seqNo e) \<noteq> None"
    if "route_of (purged (example_env 6) example_node) (rq_origin h) = Some e" for e
    using that h(1) example_unknown [of "rq_origin h"] example_addresses by simp
  show "if IsMyOwnAddress (rq_dst h) example_node
    then FindSocketWithInterfaceAddress (recv_iface (example_env 6) (ip4 10 1 1 1)) example_node \<noteq> None
    else route_of (purged (example_env 6) example_node) (rq_dst h) = None \<and> rq_dst h \<noteq> rq_origin h \<and> rq_dst h \<noteq> 3"
    unfolding example_recv_iface
    using h example_addresses by (auto simp: example_node_address simp del: One_nat_def)
qed (use example_timeouts in \<open>simp_all add: lost_def example_nb\<close>)

lemma example_seqno: "rp_seqNo example_node = 0"
  by (simp add: example_node_def) (simp add: run_defs Let_def)

theorem request_answered_witness:
  "\<exists>s' es. RecvRequest (example_env 6)
       (example_rreq_packet\<lparr>pk_bytes := RreqHeader_Serialize be_codec example_rreq_here\<rparr>)
       (ip4 10 1 1 1) 3 example_node = Some s'
     \<and> log s' = log example_node @ es @ [SockSend 0 (rrep_packet (example_env 6) 4
          (RrepHeader_new (example_env 6) 0 0 (ip4 10 1 1 1) 0 (ip4 10 1 2 9) (m_myRouteTimeout example_params))) 3]"
proof -
  let ?p = "example_rreq_packet\<lparr>pk_bytes := RreqHeader_Serialize be_codec example_rreq_here\<rparr>"
  obtain s' where s': "RecvRequest (example_env 6) ?p (ip4 10 1 1 1) 3 example_node = Some s'"
    using example_request_received [of example_rreq_here ?p] by auto
  have h: "rq_origin example_rreq_here = ip4 10 1 2 9" "rq_dst example_rreq_here = ip4 10 1 1 1"
    "rq_hopCount example_rreq_here = 3" "rq_hopCount example_rreq = 3" "rq_dstSeqNo example_rreq_here = 41"
    by (simp_all add: example_rreq_here_def example_rreq_def)
  show ?thesis
    using s' request_answered [OF example_node_inv _ _ example_taken_up _ _ _ s', of example_rreq_here "[]"]
      example_timeouts(1,2) example_addresses
    by (auto simp: be_codec_ok example_node_address h Let_def example_seqno simp del: One_nat_def)
qed

theorem request_passed_on_witness:
  "\<exists>s' es d. RecvRequest (example_env 6) example_rreq_packet (ip4 10 1 1 1) 3 example_node = Some s'
     \<and> log s' = log example_node @ es
         @ [SchedSend (MilliSeconds 0) 0
              (control_packet 4 MADAODVTYPE_RREQ (RreqHeader_Serialize be_codec (example_rreq\<lparr>rq_hopCount := 4\<rparr>))) d]"
proof -
  obtain s' where s': "RecvRequest (example_env 6) example_rreq_packet (ip4 10 1 1 1) 3 example_node = Some s'"
    using example_request_received [of example_rreq example_rreq_packet] by (auto simp: example_rreq_packet_def)
  have h: "rq_origin example_rreq = ip4 10 1 2 9" "rq_dst example_rreq = ip4 10 1 2 3"
    "rq_hopCount example_rreq = 3" "ttl_of (example_env 6) example_rreq_packet = 5"
    "pk_bytes example_rreq_packet = RreqHeader_Serialize be_codec example_rreq @ []"
    by (simp_all add: example_rreq_def ttl_of_def example_rreq_packet_def)
  show ?thesis
    using s' request_passed_on [OF example_node_inv _ _ example_taken_up _ _ _ _ s', of example_rreq "[]"]
      example_addresses
    by (auto simp: be_codec_ok example_node_address h rreq_copies_def)
qed

end
