(* ===== verification/Stations.thy ===== *)
theory Stations
  imports Request_Props
begin

text \<open>
  Concrete agents for the witnesses that need several: a node with one wireless interface of a given
  address, whose agent has been given its IPv4 stack and its interface.
\<close>

definition station_iface :: "ipv4 \<Rightarrow> iface" where
  "station_iface a = \<lparr>ia_local = a, ia_mask = ip4 255 255 255 0, ia_broadcast = ip4 10 1 1 255, ia_other = 0\<rparr>"

definition station_env :: "ipv4 \<Rightarrow> ns3" where
  "station_env a = (example_env 0)\<lparr>stack := example_stack
     \<lparr>ip_if_for_addr := (\<lambda>x. if x = ip4 127 0 0 1 then 0 else if x = a then 1 else - 1),
      ip_address := (\<lambda>i. if i = 0 then ip_address example_stack 0 else station_iface a),
      ip_is_destination := (\<lambda>x i. x = a)\<rparr>\<rparr>"

definition station_start :: "params \<Rightarrow> ipv4 \<Rightarrow> rp" where
  "station_start p a = the (SetIpv4 (station_env a) (configured True p))"

definition station :: "params \<Rightarrow> ipv4 \<Rightarrow> rp" where
  "station p a = the (NotifyInterfaceUp (station_env a) 1 (station_start p a))"

lemmas station_defs = station_env_def station_start_def station_def station_iface_def

lemma station_env_simps [simp]:
  "now (station_env a) = 0" "wire (station_env a) = be_codec" "any_addr (station_env a) = 0"
  by (simp_all add: station_env_def)

lemma station_fields:
  assumes "a \<noteq> ip4 127 0 0 1"
  shows "m_socketAddresses (station p a) = [(0, station_iface a)]" "par (station p a) = p"
    "m_idCache (m_rreqIdCache (station p a)) = []" "m_nb (rp_nb (station p a)) = []"
    "map fst (m_ipv4AddressEntry (m_routingTable (station p a))) = [ip4 10 1 1 255, ip4 127 0 0 1]"
    "m_rreqCount (station p a) = 0" "m_queue (rp_queue (station p a)) = []"
  using assms by (simp_all add: station_defs run_defs Let_def)

lemma station_reachable: "reachable be_codec True p 0 (station p a)"
proof -
  have 1: "agent_step (station_env a) EvSetIpv4 (configured True p) (station_start p a)"
    by (simp add: agent_step_iff station_defs SetIpv4_def configured_def attribute_defaults_def Let_def
        SetMaxQueueLen_def SetMaxQueueTime_def SetGratuitousReplyFlag_def SetDestinationOnlyFlag_def
        SetHelloEnable_def SetBroadcastEnable_def RoutingProtocol_new_def example_stack_def)
  have "m_ipv4 (station_start p a)" by (simp add: station_defs run_defs Let_def)
  then have 2: "agent_step (station_env a) (EvInterfaceUp 1) (station_start p a) (station p a)"
    by (simp add: agent_step_iff station_def NotifyInterfaceUp_def Let_def)
  have "reachable be_codec True p (now (station_env a)) (station p a)"
    by (rule reachable_step [OF reachable_step [OF reachable_init _ _ 1] _ _ 2]) simp_all
  then show ?thesis by simp
qed

lemma station_unknown:
  assumes "a \<noteq> ip4 127 0 0 1" and "k \<noteq> ip4 10 1 1 255" "k \<noteq> ip4 127 0 0 1"
  shows "route_of (purged E (station p a)) k = None"
proof -
  have "map_of (m_ipv4AddressEntry (m_routingTable (station p a))) k = None"
    using station_fields(5) [OF assms(1), of p] assms(2,3) by (auto simp: map_of_eq_None_iff simp flip: set_map)
  then show ?thesis
    using route_of_purged [OF keyed_table [OF reachable_inv [OF station_reachable]], of E p a k] by simp
qed

lemma station_addresses:
  assumes "a \<noteq> ip4 127 0 0 1"
  shows "IsMyOwnAddress k (station p a) \<longleftrightarrow> k = a"
    "FindSocketWithInterfaceAddress (station_iface a) (station p a) = Some 0"
    "recv_iface (station_env a) a = station_iface a" "receiver_of 0 (station p a) = Some a"
  using assms
  by (auto simp: IsMyOwnAddress_def FindSocketWithInterfaceAddress_def receiver_of_def recv_iface_def station_fields)
    (simp_all add: station_iface_def station_env_def)

end
