(* ===== verification/Socket_Routes.thy ===== *)
theory Socket_Routes
  imports Node_Props Stations
begin

text \<open>
  Every route leads over an interface the agent has a socket on. The handlers that forward a message
  look the socket up by the interface of the route and dereference what they find. The interfaces of
  routes come from two sources, the IPv4 stack's answer for the address a message was received at and
  the interfaces the agent opened itself; the configuration removes a socket together with the
  routes over it.
\<close>

subsection \<open>Entries and interfaces\<close>

abbreviation own_ifaces :: "rp \<Rightarrow> iface set" where
  "own_ifaces s \<equiv> snd ` set (m_socketAddresses s)"

text \<open>Exempt are the loopback route, which has the loopback interface, the default entry, whose
  destination \<open>u\<close> is the default address, and a search for a destination that was not known before.\<close>

definition over_socket :: "iface set \<Rightarrow> ipv4 \<Rightarrow> rte \<Rightarrow> bool" where
  "over_socket S u e \<longleftrightarrow>
     m_iface e \<in> S \<or> GetDestination e \<in> {ip4 127 0 0 1, u} \<or> (m_flag e = IN_SEARCH \<and> \<not> m_validSeqNo e)"

definition keyed_over :: "iface set \<Rightarrow> ipv4 \<Rightarrow> ipv4 \<Rightarrow> rte \<Rightarrow> bool" where
  "keyed_over S u k e \<longleftrightarrow> GetDestination e = k \<and> over_socket S u e"

text \<open>An interface that is written is one with a socket; nothing else that is written matters here.\<close>

definition over_open :: "iface set \<Rightarrow> written \<Rightarrow> bool" where
  "over_open S w \<longleftrightarrow> (\<forall>i. w = Over i \<longrightarrow> i \<in> S)"

lemma over_open_simps [simp]:
  "over_open S (Over i) = (i \<in> S)" "over_open S (Seq n)" "over_open S (Key a)" "over_open S (Hop a)"
  by (simp_all add: over_open_def)

lemma over_open_messages [simp]: "request_ok (over_open S) h" "reply_ok (over_open S) g" "datagram_ok (over_open S) C bs"
  by (simp_all add: request_ok_def reply_ok_def datagram_ok_def pres_True case_prod_unfold)

definition settled_entry :: "rte \<Rightarrow> bool" where
  "settled_entry e \<longleftrightarrow> m_flag e \<noteq> IN_SEARCH \<or> m_validSeqNo e"

interpretation os: entry_invariant "keyed_over S u"
  by unfold_locales (auto simp: keyed_over_def over_socket_def Invalidate_def)

interpretation se: entry_invariant "\<lambda>_. settled_entry"
  by unfold_locales (auto simp: settled_entry_def Invalidate_def)

lemma over_socket_edits:
  "over_socket S u e \<Longrightarrow> same_core (over_open S) e e' \<Longrightarrow> over_socket S u e'"
  "over_socket S u e \<Longrightarrow> over_socket S u (snd (InsertPrecursor a e))"
  "over_socket S u e \<Longrightarrow> same_links e e' \<Longrightarrow> m_iface e' = m_iface e \<Longrightarrow> m_validSeqNo e' = m_validSeqNo e \<Longrightarrow>
     m_flag e' = IN_SEARCH \<Longrightarrow> over_socket S u e'"
  "over_socket S u e \<Longrightarrow> settled_entry e \<Longrightarrow> over_socket S u (e\<lparr>m_ackTimer := t, m_flag := VALID\<rparr>)"
  "m_iface e \<in> S \<Longrightarrow> over_socket S u e"
  "m_flag e = IN_SEARCH \<Longrightarrow> \<not> m_validSeqNo e \<Longrightarrow> over_socket S u e"
  "over_socket S (any_addr E) (RoutingTableEntry_default E)"
  by (auto simp: over_socket_def same_core_simps InsertPrecursor_def settled_entry_def)

lemma keyed_over_settled: "over_socket S u e \<Longrightarrow> keyed_over S u (GetDestination e) (settled e)"
  by (auto simp: keyed_over_def over_socket_def settled_def)

lemma keyed_over_mono: "keyed_over S u k e \<Longrightarrow> S \<subseteq> S' \<Longrightarrow> keyed_over S' u k e"
  by (auto simp: keyed_over_def over_socket_def)

lemma entries_all_mono: "entries_all P T \<Longrightarrow> (\<And>k e. P k e \<Longrightarrow> P' k e) \<Longrightarrow> entries_all P' T"
  by (auto simp: entries_all_def)

text \<open>What is known of a sender's entry after \<open>UpdateRouteToNeighbor\<close>.\<close>

lemma neighbor_settled:
  assumes inv: "smap_inv (m_ipv4AddressEntry (m_routingTable s))"
    and l: "lookup E a (UpdateRouteToNeighbor E a b s) = (Some e, s')"
  shows "settled_entry e"
proof -
  let ?u = "UpdateRouteToNeighbor E a b s"
  have p: "smap_inv (m_ipv4AddressEntry (purged E s))"
    using inv by (simp add: purged_def RoutingTable_Purge_def)
  have u: "smap_inv (m_ipv4AddressEntry (m_routingTable ?u))"
    using p by (auto simp: UpdateRouteToNeighbor_def lookup_eq Let_def add_route_def update_route_def
        RoutingTable_AddRoute_def RoutingTable_Update_def RoutingTable_Purge_def split: option.split)
  have "settled_entry e0" if "route_of (m_routingTable ?u) a = Some e0" for e0
    using that
    by (auto simp: UpdateRouteToNeighbor_def lookup_eq Let_def add_route_def update_route_def
        route_of_AddRoute route_of_Update route_of_Purge [OF p] settled_entry_def settled_def
        split: option.splits if_splits)
  moreover from l have "route_of (purged E ?u) a = Some e" by (simp add: lookup_eq)
  ultimately show ?thesis
    using se.P_purge_entry by (auto simp: purged_def route_of_Purge [OF u] split: option.splits)
qed

subsection \<open>The handlers of messages and data\<close>

definition routed :: "ns3 \<Rightarrow> (sock, iface) smap \<Rightarrow> (sock, iface) smap \<Rightarrow> rp \<Rightarrow> bool" where
  "routed E S B s \<longleftrightarrow> m_socketAddresses s = S \<and> m_socketSubnetBroadcastAddresses s = B \<and>
     entries_all (keyed_over (snd ` set S) (any_addr E)) (m_routingTable s)"

interpretation routed: search_client "over_socket (snd ` set S) (any_addr E)"
  "over_open (snd ` set S)" settled_entry "\<lambda>b. recv_iface E b \<in> snd ` set S" E "routed E S B"
proof unfold_locales
  fix s i r s'
  assume r: "routed E S B s" and l: "lookup E i s = (r, s')"
  have T: "entries_all (keyed_over (snd ` set S) (any_addr E)) (purged E s)"
    using r os.inv_Purge by (simp add: routed_def purged_def)
  then have "\<forall>e. r = Some e \<longrightarrow> over_socket (snd ` set S) (any_addr E) e"
    and "s' = s\<lparr>m_routingTable := purged E s\<rparr>"
    using l by (auto simp: lookup_eq entries_all_def keyed_over_def)
  with r T show "routed E S B s' \<and> (\<forall>e. r = Some e \<longrightarrow> over_socket (snd ` set S) (any_addr E) e)"
    by (simp add: routed_def)
next
  fix s b a rt s'
  assume "routed E S B s" "lookup E a (UpdateRouteToNeighbor E a b s) = (Some rt, s')"
  then show "settled_entry rt" by (auto simp: routed_def entries_all_def intro: neighbor_settled)
qed (auto simp: routed_def emit_def list_via_state invalidate_routes_def update_route_def add_route_def
    delete_route_def os.inv_GetList os.inv_InvalidateRoutesWithDst os.inv_Update os.inv_AddRoute
    os.inv_DeleteRoute keyed_over_settled over_socket_edits(7) intro: over_socket_edits(1-6))

subsection \<open>The configuration\<close>

text \<open>A socket is in one of the two tables. A socket the agent creates is none it still holds.\<close>

definition sockets_apart :: "rp \<Rightarrow> bool" where
  "sockets_apart s \<longleftrightarrow> fst ` set (m_socketAddresses s) \<inter> fst ` set (m_socketSubnetBroadcastAddresses s) = {}"

definition fresh_sockets :: "ns3 \<Rightarrow> rp \<Rightarrow> bool" where
  "fresh_sockets E s \<longleftrightarrow>
     (let held = fst ` set (m_socketAddresses s) \<union> fst ` set (m_socketSubnetBroadcastAddresses s);
          a = new_socket E (created s); b = new_socket E (Suc (created s)) in
      a \<notin> held \<and> b \<notin> held \<and> a \<noteq> b)"

definition routes_ok :: "ipv4 \<Rightarrow> rp \<Rightarrow> bool" where
  "routes_ok u s \<longleftrightarrow> sockets_apart s \<and> entries_all (keyed_over (own_ifaces s) u) (m_routingTable s)"

lemma set_smap_insert: "k \<notin> fst ` set m \<Longrightarrow> set (smap_insert k v m) = insert (k, v) (set m)"
proof -
  have "k \<notin> fst ` set m \<Longrightarrow> set (smap_put k v m) = insert (k, v) (set m)"
    by (induction k v m rule: smap_put.induct) auto
  then show "k \<notin> fst ` set m \<Longrightarrow> set (smap_insert k v m) = insert (k, v) (set m)"
    by (simp add: smap_insert_def map_of_notin_None)
qed

lemma open_interface_tables:
  assumes "fresh_sockets E s"
  shows "set (m_socketAddresses (open_interface E i r s)) =
      insert (new_socket E (created s), ip_address (stack E) i) (set (m_socketAddresses s))"
    "set (m_socketSubnetBroadcastAddresses (open_interface E i r s)) =
      insert (new_socket E (Suc (created s)), ip_address (stack E) i) (set (m_socketSubnetBroadcastAddresses s))"
  using assms
  by (simp_all add: open_interface_def open_socket_def add_route_def emit_def Let_def set_smap_insert fresh_sockets_def)

lemma routes_ok_open_interface:
  assumes "routes_ok u s" "fresh_sockets E s"
  shows "routes_ok u (open_interface E i r s)"
proof -
  have "m_routingTable (open_interface E i r s) = snd (RoutingTable_AddRoute (now E)
      (RoutingTableEntry_new (now E) (Some (ip_net_device (stack E) (ip_if_for_addr (stack E)
        (ia_local (ip_address (stack E) i))))) (ia_broadcast (ip_address (stack E) i)) True 0
        (ip_address (stack E) i) 1 (ia_broadcast (ip_address (stack E) i)) (max_time E)) (m_routingTable s))"
    by (simp add: open_interface_def open_socket_def add_route_def emit_def Let_def)
  moreover have "entries_all (keyed_over (own_ifaces (open_interface E i r s)) u) (m_routingTable s)"
    using assms(1) by (auto simp: routes_ok_def open_interface_tables [OF assms(2)]
        elim!: entries_all_mono keyed_over_mono)
  ultimately have "entries_all (keyed_over (own_ifaces (open_interface E i r s)) u)
      (m_routingTable (open_interface E i r s))"
    by (auto intro!: os.inv_AddRoute keyed_over_settled over_socket_edits(5)
        simp: open_interface_tables [OF assms(2)])
  moreover have "sockets_apart (open_interface E i r s)"
    using assms by (auto simp: routes_ok_def sockets_apart_def fresh_sockets_def
        open_interface_tables [OF assms(2)] Let_def)
  ultimately show ?thesis by (simp add: routes_ok_def)
qed

text \<open>A socket and the routes over its interface go together.\<close>

lemma delete_routes_effect:
  "entries_all P T \<Longrightarrow>
   entries_all (\<lambda>k e. P k e \<and> m_iface e \<noteq> i) (RoutingTable_DeleteAllRoutesFromInterface i T)"
  by (auto simp: RoutingTable_DeleteAllRoutesFromInterface_def entries_all_def map_of_filter_val
      smap_inv_distinct split: option.splits if_splits)

lemma keyed_over_erase:
  assumes "smap_inv m" and "(k, i) \<in> set m" and "entries_all (keyed_over (snd ` set m) u) T"
  shows "entries_all (keyed_over (snd ` set (smap_erase k m)) u) (RoutingTable_DeleteAllRoutesFromInterface i T)"
proof -
  have other: "j \<in> snd ` set (smap_erase k m)" if "(k', j) \<in> set m" "j \<noteq> i" for k' j
  proof -
    have "k' \<noteq> k"
      using eq_key_imp_eq_value [OF smap_inv_distinct [OF assms(1)] assms(2)] that by blast
    with that(1) show ?thesis by (force simp: smap_erase_def)
  qed
  show ?thesis
    by (rule entries_all_mono [OF delete_routes_effect [OF assms(3), of i]])
      (auto simp: keyed_over_def over_socket_def dest: other)
qed

lemma found_socket_bound:
  "FindSocketWithInterfaceAddress i s = Some k \<Longrightarrow> (k, i) \<in> set (m_socketAddresses s)"
  "FindSubnetBroadcastSocketWithInterfaceAddress i s = Some k \<Longrightarrow> (k, i) \<in> set (m_socketSubnetBroadcastAddresses s)"
  by (auto simp: FindSocketWithInterfaceAddress_def FindSubnetBroadcastSocketWithInterfaceAddress_def
      dest!: find_SomeD) 

lemma routes_ok_clear: "routes_ok u s \<Longrightarrow> routes_ok u (no_interfaces s)"
  by (simp add: routes_ok_def sockets_apart_def no_interfaces_def os.inv_Clear)

lemma routes_ok_other [simp]:
  "routes_ok u (emit e s) = routes_ok u s" "routes_ok u (s\<lparr>rp_nb := nb\<rparr>) = routes_ok u s"
  "routes_ok u (s\<lparr>m_htimer := tm\<rparr>) = routes_ok u s" "routes_ok u (s\<lparr>m_lo := d\<rparr>) = routes_ok u s"
  "routes_ok u (s\<lparr>m_ipv4 := b\<rparr>) = routes_ok u s"
  by (simp_all add: routes_ok_def sockets_apart_def emit_def)

lemma routes_ok_up: "routes_ok u s \<Longrightarrow> fresh_sockets E s \<Longrightarrow> pred_option (routes_ok u) (NotifyInterfaceUp E i s)"
  by (simp add: NotifyInterfaceUp_def Let_def routes_ok_open_interface split: option.split)

lemma routes_ok_add: "routes_ok u s \<Longrightarrow> fresh_sockets E s \<Longrightarrow> pred_option (routes_ok u) (NotifyAddAddress E i a s)"
  by (simp add: NotifyAddAddress_def Let_def routes_ok_open_interface split: option.split)

lemma routes_ok_ipv4: "routes_ok u s \<Longrightarrow> pred_option (routes_ok u) (SetIpv4 E s)"
  by (auto simp: SetIpv4_def Let_def) (auto simp: routes_ok_def sockets_apart_def add_route_def
      over_socket_def
      intro!: os.inv_AddRoute keyed_over_settled)

lemma routes_ok_closed:
  assumes "routes_ok u s" "smap_inv (m_socketAddresses s)" "FindSocketWithInterfaceAddress a s = Some k"
    and "m_socketAddresses s' = smap_erase k (m_socketAddresses s)"
    and "set (m_socketSubnetBroadcastAddresses s') \<subseteq> set (m_socketSubnetBroadcastAddresses s)"
    and "m_routingTable s' = RoutingTable_DeleteAllRoutesFromInterface a (m_routingTable s) \<or>
      m_routingTable s' = RoutingTable_Clear (m_routingTable s)"
  shows "routes_ok u s'"
proof -
  have "sockets_apart s'"
    using assms(1,4,5) by (auto simp: routes_ok_def sockets_apart_def smap_erase_def)
  moreover have "entries_all (keyed_over (own_ifaces s') u) (m_routingTable s')"
    using assms keyed_over_erase [OF assms(2) found_socket_bound(1) [OF assms(3)], of u "m_routingTable s"]
    by (auto simp: routes_ok_def os.inv_Clear)
  ultimately show ?thesis by (simp add: routes_ok_def)
qed

lemma find_socket_other [simp]:
  "FindSocketWithInterfaceAddress a (emit e s) = FindSocketWithInterfaceAddress a s"
  "FindSocketWithInterfaceAddress a (s\<lparr>rp_nb := nb\<rparr>) = FindSocketWithInterfaceAddress a s"
  "FindSubnetBroadcastSocketWithInterfaceAddress a (emit e s) = FindSubnetBroadcastSocketWithInterfaceAddress a s"
  "FindSubnetBroadcastSocketWithInterfaceAddress a (s\<lparr>rp_nb := nb\<rparr>) =
     FindSubnetBroadcastSocketWithInterfaceAddress a s"
  "FindSubnetBroadcastSocketWithInterfaceAddress a (s\<lparr>m_socketAddresses := m\<rparr>) =
     FindSubnetBroadcastSocketWithInterfaceAddress a s"
  by (simp_all add: FindSocketWithInterfaceAddress_def FindSubnetBroadcastSocketWithInterfaceAddress_def emit_def)

lemma interface_down_tables:
  assumes "NotifyInterfaceDown E i s = Some s'"
  obtains k where "FindSocketWithInterfaceAddress (ip_address (stack E) i) s = Some k"
    "m_socketAddresses s' = smap_erase k (m_socketAddresses s)"
    "set (m_socketSubnetBroadcastAddresses s') \<subseteq> set (m_socketSubnetBroadcastAddresses s)"
    "m_routingTable s' = RoutingTable_DeleteAllRoutesFromInterface (ip_address (stack E) i) (m_routingTable s) \<or>
      m_routingTable s' = RoutingTable_Clear (m_routingTable s)"
proof -
  note [simp] = emit_def no_interfaces_def delete_routes_from_def smap_erase_def
  from assms show thesis
    unfolding NotifyInterfaceDown_def Let_def
    by (auto split: if_splits Option.bind_splits intro!: that
        simp: find_socket_other [unfolded emit_def])
qed

lemma routes_ok_down:
  assumes "routes_ok u s" "smap_inv (m_socketAddresses s)"
  shows "pred_option (routes_ok u) (NotifyInterfaceDown E i s)"
  using assms by (auto intro!: presI elim!: interface_down_tables intro: routes_ok_closed)

lemma routes_ok_removed:
  assumes "routes_ok u s" "smap_inv (m_socketAddresses s)" "fresh_sockets E s"
  shows "pred_option (routes_ok u) (NotifyRemoveAddress E i a s)"
proof (cases "FindSocketWithInterfaceAddress a s")
  case None
  with assms(1) show ?thesis by (simp add: NotifyRemoveAddress_def)
next
  case (Some k)
  define c1 where "c1 = (emit (SockClose k) (delete_routes_from a s))\<lparr>m_socketAddresses :=
      smap_erase k (m_socketAddresses (emit (SockClose k) (delete_routes_from a s)))\<rparr>"
  define c where "c = (case FindSubnetBroadcastSocketWithInterfaceAddress a c1 of
      Some b \<Rightarrow> (emit (SockClose b) c1)\<lparr>m_socketAddresses := smap_erase b (m_socketAddresses c1)\<rparr> | None \<Rightarrow> c1)"
  have "smap_erase b (smap_erase k (m_socketAddresses s)) = smap_erase k (m_socketAddresses s)"
    if "FindSubnetBroadcastSocketWithInterfaceAddress a s = Some b" for b
  proof -
    have "b \<in> fst ` set (m_socketSubnetBroadcastAddresses s)"
      using found_socket_bound(2) [OF that] by (metis fst_conv imageI)
    then have "b \<notin> fst ` set (m_socketAddresses s)"
      using assms(1) by (auto simp: routes_ok_def sockets_apart_def)
    then have "\<forall>p\<in>set (smap_erase k (m_socketAddresses s)). fst p \<noteq> b" by (auto simp: smap_erase_def image_iff)
    then show ?thesis unfolding smap_erase_def [of b] filter_id_conv .
  qed
  then have c: "m_socketAddresses c = smap_erase k (m_socketAddresses s)"
    "m_socketSubnetBroadcastAddresses c = m_socketSubnetBroadcastAddresses s" "created c = created s"
    "m_routingTable c = RoutingTable_DeleteAllRoutesFromInterface a (m_routingTable s)"
    by (simp_all add: c_def c1_def emit_def delete_routes_from_def FindSubnetBroadcastSocketWithInterfaceAddress_def
        split: option.split)
  then have "routes_ok u c" using routes_ok_closed [OF assms(1,2) Some, of c] by simp
  moreover have "fresh_sockets E c" using assms(3) c by (auto simp: fresh_sockets_def smap_erase_def Let_def)
  ultimately have "routes_ok u (if ip_n_addresses (stack E) i \<noteq> 0 then open_interface E i True c else c)"
    by (simp add: routes_ok_open_interface)
  then show ?thesis
    unfolding NotifyRemoveAddress_def Some Let_def
    by (simp only: option.case c1_def [symmetric] c_def [symmetric])
      (simp add: routes_ok_clear)
qed

subsection \<open>A run of a live agent\<close>

text \<open>The events with no effect on routes and sockets.\<close>

fun idle_event :: "event \<Rightarrow> bool" where
  "idle_event EvStart = True"
| "idle_event EvInitialize = True"
| "idle_event EvHelloTimer = True"
| "idle_event EvRreqLimitTimer = True"
| "idle_event EvRerrLimitTimer = True"
| "idle_event (EvAssignStreams n) = True"
| "idle_event (EvSetGratuitousReply f) = True"
| "idle_event (EvSetDestinationOnly f) = True"
| "idle_event (EvSetHello f) = True"
| "idle_event (EvSetBroadcast f) = True"
| "idle_event (EvSetMaxQueueLen n) = True"
| "idle_event (EvSetMaxQueueTime t) = True"
| "idle_event _ = False"

lemma idle_step:
  assumes "idle_event ev" and "routed E S B s"
  shows "pred_option (routed E S B) (handle E ev (expire ev s))"
proof -
  have "routed E S B (SendHello E s')" if "routed E S B s'" for s'
    using that by (rule routed.I_SendHello)
  with assms show ?thesis
    by (cases ev) (auto simp: routed_def Start_def DoInitialize_def HelloTimerExpire_def emit_def draw_def
        RreqRateLimitTimerExpire_def RerrRateLimitTimerExpire_def AssignStreams_def
        SetGratuitousReplyFlag_def SetDestinationOnlyFlag_def SetHelloEnable_def SetBroadcastEnable_def
        SetMaxQueueLen_def SetMaxQueueTime_def Let_def)
qed

text \<open>A message is taken up only if the IPv4 stack places the address it was received at on an interface
  with an open socket.\<close>

definition heard_on_socket :: "ns3 \<Rightarrow> event \<Rightarrow> rp \<Rightarrow> bool" where
  "heard_on_socket E ev s \<longleftrightarrow>
     (\<forall>k p a b. ev = EvRecv k p a \<longrightarrow> receiver_of k s = Some b \<longrightarrow> recv_iface E b \<in> own_ifaces s)"

lemma traffic_step:
  assumes ev: "traffic_event ev" and I: "routed E (m_socketAddresses s) B s" and "heard_on_socket E ev s"
  shows "pred_option (routed E (m_socketAddresses s) B) (handle E ev (expire ev s))"
proof -
  have ran: "routed E S B (emit x s1) = routed E S B s1" "routed E S B (s1\<lparr>m_addressReqTimer := m\<rparr>) = routed E S B s1"
    for x S m s1 by (simp_all add: routed_def emit_def)
  have recv: "pred_option (routed E (m_socketAddresses s) B) (RecvMadaodv E k p a s)" if "ev = EvRecv k p a" for k p a
    using assms(3) that by (intro routed.J_RecvMadaodv I) (auto simp: heard_on_socket_def)
  note handlers = routed.I_RouteOutput routed.J_RouteInput routed.I_SendRequest routed.I_RouteRequestTimerExpire
    routed.I_nb_purge routed.I_NotifyTxError
  show ?thesis
    using ev I recv
    by (cases ev) (simp_all add: handlers option.pred_map comp_def ran SendTo_def split: option.split)
qed

inductive served :: "codec \<Rightarrow> bool \<Rightarrow> params \<Rightarrow> ipv4 \<Rightarrow> time \<Rightarrow> rp \<Rightarrow> bool" for C b p u where
  served_init: "served C b p u 0 (configured b p)"
| served_step: "served C b p u t s \<Longrightarrow> t \<le> now E \<Longrightarrow> wire E = C \<Longrightarrow> any_addr E = u \<Longrightarrow>
    fresh_sockets E s \<Longrightarrow> heard_on_socket E ev s \<Longrightarrow> ev \<noteq> EvDispose \<Longrightarrow> agent_step E ev s s' \<Longrightarrow>
    served C b p u (now E) s'"

lemma served_reachable: "served C b p u t s \<Longrightarrow> reachable C b p t s"
  by (induction rule: served.induct) (auto intro: reachable_init reachable_step)

lemma routes_ok_configured: "routes_ok u (configured b p)"
  by (simp add: routes_ok_def sockets_apart_def construction Let_def os.inv_new)

lemma routes_ok_step:
  assumes "agent_step E ev s s'" and ok: "routes_ok (any_addr E) s" and "smap_inv (m_socketAddresses s)"
    and "no_blacklist s" and "fresh_sockets E s" "heard_on_socket E ev s" "ev \<noteq> EvDispose"
  shows "routes_ok (any_addr E) s'"
proof -
  let ?S = "m_socketAddresses s" and ?B = "m_socketSubnetBroadcastAddresses s"
  have I: "routed E ?S ?B s" using ok by (simp add: routed_def routes_ok_def)
  have ok': "routes_ok (any_addr E) x" if "routed E ?S ?B x" for x
    using that ok by (simp add: routed_def routes_ok_def sockets_apart_def)
  from assms(1) have step: "handle E ev (expire ev s) = Some s'" and en: "enabled ev s" by (auto elim: agent_stepE)
  consider "traffic_event ev" | "idle_event ev" | "ev = EvSetIpv4" | i where "ev = EvInterfaceUp i"
    | i where "ev = EvInterfaceDown i" | i a where "ev = EvAddAddress i a" | i a where "ev = EvRemoveAddress i a"
    using assms(7) en no_ack_enabled [OF assms(4)] by (cases ev) auto
  then show ?thesis
  proof cases
    case 1
    then show ?thesis using presD [OF traffic_step [OF _ I assms(6)] step] ok' by blast
  next
    case 2
    then show ?thesis using presD [OF idle_step [OF _ I] step] ok' by blast
  qed (use step assms(3,5) ok in \<open>auto dest: presD [OF routes_ok_ipv4] presD [OF routes_ok_up]
      presD [OF routes_ok_down] presD [OF routes_ok_add] presD [OF routes_ok_removed]\<close>)
qed

lemma served_routes_ok: "served C b p u t s \<Longrightarrow> routes_ok u s"
proof (induction rule: served.induct)
  case served_init
  show ?case by (rule routes_ok_configured)
next
  case (served_step t s E ev s')
  have r: "reachable C b p t s" using served_step(1) by (rule served_reachable)
  then have "smap_inv (m_socketAddresses s)" using reachable_inv [OF r] by (simp add: rp_inv_def)
  moreover have "no_blacklist s" using r by (rule reachable_no_blacklist)
  ultimately show ?case using served_step routes_ok_step by blast
qed

lemma socket_of_iface: "i \<in> own_ifaces s \<Longrightarrow> \<exists>k. FindSocketWithInterfaceAddress i s = Some k"
  by (cases "FindSocketWithInterfaceAddress i s")
    (auto simp: FindSocketWithInterfaceAddress_def find_None_iff)

text \<open>The report as one choice: the valid route to the origin, or a broadcast.\<close>

lemma report_eq:
  "SendRerrWhenNoRouteToForward E dst n origin s =
     (if m_rerrCount s = m_rerrRateLimit (par s)
      then (if tm_started (m_rerrRateLimitTimer s) then Some s else None)
      else
        let q = rerr_packet E (RerrHeader_new\<lparr>re_unreachable := [(dst, n)]\<rparr>);
            s' = s\<lparr>m_routingTable := purged E s\<rparr> in
        if \<exists>e. route_of (purged E s) origin = Some e \<and> m_flag e = VALID
        then let e = the (route_of (purged E s) origin) in
          map_option (\<lambda>k. emit (SockSend k q (GetNextHop e)) s') (FindSocketWithInterfaceAddress (m_iface e) s)
        else Some (fold (\<lambda>i s. emit (SockSend (fst i) q (broadcast_destination E (snd i))) s)
          (m_socketAddresses s) s'))"
proof -
  have "RerrHeader_AddUnDestination dst n RerrHeader_new = Some (True, RerrHeader_new\<lparr>re_unreachable := [(dst, n)]\<rparr>)"
    by (simp add: RerrHeader_AddUnDestination_def RerrHeader_new_def RerrHeader_GetDestCount_def smap_insert_def)
  then show ?thesis
    by (auto simp: SendRerrWhenNoRouteToForward_def lookup_valid_eq lookup_eq Let_def
        FindSocketWithInterfaceAddress_def map_conv_bind_option split: option.split bool.split)
qed

subsection \<open>An agent that has heard of a neighbour\<close>

lemma station_served:
  assumes "a \<noteq> ip4 127 0 0 1"
  shows "served be_codec True p 0 0 (station p a)"
proof -
  have 1: "agent_step (station_env a) EvSetIpv4 (configured True p) (station_start p a)"
    by (simp add: agent_step_iff station_start_def station_env_def SetIpv4_def construction Let_def example_stack_def)
  have m: "m_ipv4 (station_start p a)" "m_socketAddresses (station_start p a) = []"
    "m_socketSubnetBroadcastAddresses (station_start p a) = []"
    by (simp_all add: station_defs run_defs Let_def)
  then have 2: "agent_step (station_env a) (EvInterfaceUp 1) (station_start p a) (station p a)"
    by (simp add: agent_step_iff station_def NotifyInterfaceUp_def Let_def)
  have f: "fresh_sockets (station_env a) (configured True p)" "fresh_sockets (station_env a) (station_start p a)"
    using m by (simp_all add: fresh_sockets_def station_env_def construction Let_def)
  have "served be_codec True p 0 (now (station_env a)) (station p a)"
    by (rule served_step [OF served_step [OF served_init _ _ _ f(1) _ _ 1] _ _ _ f(2) _ _ 2])
      (simp_all add: heard_on_socket_def)
  then show ?thesis by simp
qed

lemma station_tables:
  assumes "a \<noteq> ip4 127 0 0 1"
  shows "m_socketAddresses (station p a) = [(0, station_iface a)]"
    "m_socketSubnetBroadcastAddresses (station p a) = [(1, station_iface a)]" "created (station p a) = 2"
  using assms by (simp_all add: station_defs run_defs Let_def)

text \<open>The datagram is no message of the protocol, but its sender becomes known.\<close>

definition heard_station :: rp where
  "heard_station = UpdateRouteToNeighbor (station_env 9) 8 9 (station example_params 9)"

lemma heard_station_served: "served be_codec True example_params 0 0 heard_station"
proof -
  let ?E = "station_env 9" and ?s = "station example_params 9"
  have r: "receiver_of 0 ?s = Some 9" "recv_iface ?E 9 = station_iface 9"
    using station_addresses [of 9] by (simp_all add: ip4_def)
  then have "agent_step ?E (EvRecv 0 (example_packet\<lparr>pk_bytes := [0]\<rparr>) 8) ?s heard_station"
    by (simp add: agent_step_iff heard_station_def RecvMadaodv_def TypeHeader_Deserialize_def
        TypeHeader_GetSerializedSize_def Let_def)
  moreover have "fresh_sockets ?E ?s" "heard_on_socket ?E (EvRecv 0 p 8) ?s" for p
    using r station_tables [of 9] by (simp_all add: fresh_sockets_def heard_on_socket_def station_env_def ip4_def)
  ultimately have "served be_codec True example_params 0 (now ?E) heard_station"
    by (intro served_step [OF station_served]) (simp_all add: ip4_def)
  then show ?thesis by simp
qed

lemma heard_neighbor:
  "\<exists>e. route_of (m_routingTable heard_station) 8 = Some e \<and> GetNextHop e = 8 \<and> m_flag e = VALID
     \<and> 0 \<le> m_lifeTime e"
proof -
  have "0 \<le> m_activeRouteTimeout (par (station example_params 9))"
    by (simp add: station_defs run_defs Let_def)
  moreover have "route_of (purged (station_env 9) (station example_params 9)) 8 = None"
    by (rule station_unknown) (simp_all add: ip4_def)
  ultimately show ?thesis
    using purged_idem [OF reachable_inv [OF station_reachable], of "station_env 9" example_params 9]
    by (simp add: heard_station_def UpdateRouteToNeighbor_def lookup_eq add_route_def route_of_AddRoute Let_def
        RoutingTableEntry_new_def settled_def)
qed

lemma heard_purged:
  assumes "route_of (m_routingTable heard_station) 8 = Some e" "m_flag e = VALID" "0 \<le> m_lifeTime e"
  shows "route_of (purged (station_env 9) heard_station) 8 = Some e"
  using route_of_purged [OF keyed_table [OF reachable_inv [OF served_reachable [OF heard_station_served]]], of "station_env 9" 8]
    assms by (simp add: purge_entry_def GetLifeTime_def)

lemma heard_over_socket:
  assumes "route_of (m_routingTable heard_station) 8 = Some e" "m_flag e = VALID"
  shows "\<exists>k. FindSocketWithInterfaceAddress (m_iface e) heard_station = Some k"
proof -
  have "keyed_over (own_ifaces heard_station) 0 8 e"
    using served_routes_ok [OF heard_station_served] assms(1) by (simp add: routes_ok_def entries_all_def)
  with assms(2) show ?thesis by (intro socket_of_iface) (auto simp: keyed_over_def over_socket_def ip4_def)
qed

lemma station_loopback:
  "a \<noteq> ip4 127 0 0 1 \<Longrightarrow> \<exists>e. route_of (purged (station_env a) (station p a)) (ip4 127 0 0 1) = Some e
     \<and> m_flag e = VALID \<and> m_iface e \<notin> own_ifaces (station p a)"
  by (simp add: purged_def station_defs run_defs Let_def)

text \<open>A report to an origin whose valid route has an interface without a socket stops the program.\<close>

lemma report_without_socket:
  assumes "m_rerrCount s \<noteq> m_rerrRateLimit (par s)" and "route_of (purged E s) origin = Some e"
    and "m_flag e = VALID" and "m_iface e \<notin> own_ifaces s"
  shows "SendRerrWhenNoRouteToForward E dst n origin s = None"
  using assms found_socket_bound(1) [of "m_iface e" s]
  by (cases "FindSocketWithInterfaceAddress (m_iface e) s") (force simp: report_eq Let_def)+

lemma station_stops:
  assumes "a \<noteq> ip4 127 0 0 1" and "m_rerrRateLimit p \<noteq> 0"
  shows "SendRerrWhenNoRouteToForward (station_env a) dst n (ip4 127 0 0 1) (station p a) = None"
proof -
  have "m_rerrCount (station p a) \<noteq> m_rerrRateLimit (par (station p a))"
    using assms(2) by (simp add: station_defs run_defs Let_def)
  moreover obtain e where "route_of (purged (station_env a) (station p a)) (ip4 127 0 0 1) = Some e"
    "m_flag e = VALID" "m_iface e \<notin> own_ifaces (station p a)"
    using station_loopback [OF assms(1)] by blast
  ultimately show ?thesis by (rule report_without_socket)
qed

subsection \<open>Properties\<close>

text \<open>C6: every route leads over an interface the agent has a socket on. Take any run in which the stack
  places the addresses messages are received at on interfaces with a socket, new sockets are not ones
  the agent still holds, and the agent is not disposed of. Interfaces may come and go, addresses be added
  and removed. In all its states the entry of an address other than loopback and the default address,
  unless it is a first search, has an interface for which \<open>FindSocketWithInterfaceAddress\<close> finds a
  socket, which is none of the broadcast sockets.\<close>

theorem routes_lead_over_sockets:
  assumes "served C b p u t s" and "route_of (m_routingTable s) dst = Some e"
    and "dst \<notin> {ip4 127 0 0 1, u}" and "m_flag e \<noteq> IN_SEARCH \<or> m_validSeqNo e"
  shows "GetDestination e = dst \<and> (\<exists>k. FindSocketWithInterfaceAddress (m_iface e) s = Some k
      \<and> (k, m_iface e) \<in> set (m_socketAddresses s) \<and> k \<notin> fst ` set (m_socketSubnetBroadcastAddresses s))"
proof -
  have ok: "routes_ok u s" using assms(1) by (rule served_routes_ok)
  then have "keyed_over (own_ifaces s) u dst e" using assms(2) by (simp add: routes_ok_def entries_all_def)
  then have e: "GetDestination e = dst" "m_iface e \<in> own_ifaces s"
    using assms(3,4) by (auto simp: keyed_over_def over_socket_def)
  then obtain k where k: "FindSocketWithInterfaceAddress (m_iface e) s = Some k"
    using socket_of_iface by blast
  have "k \<notin> fst ` set (m_socketSubnetBroadcastAddresses s)"
    using found_socket_bound(1) [OF k] ok by (force simp: routes_ok_def sockets_apart_def)
  with e k found_socket_bound(1) [OF k] show ?thesis by blast
qed

theorem routes_lead_over_sockets_witness:
  "\<exists>e k. route_of (m_routingTable heard_station) 8 = Some e \<and> GetNextHop e = 8
     \<and> FindSocketWithInterfaceAddress (m_iface e) heard_station = Some k"
proof -
  obtain e where e: "route_of (m_routingTable heard_station) 8 = Some e" "GetNextHop e = 8" "m_flag e = VALID"
    using heard_neighbor by blast
  with routes_lead_over_sockets [OF heard_station_served, of 8 e] show ?thesis by (auto simp: ip4_def)
qed

text \<open>C16: the report of a packet that cannot be forwarded does not stop for want of a socket. In a run
  where messages are received on interfaces with a socket, when the limit is not reached or its timer runs, the handler
  returns for every origin but loopback and the default address, and all it does is send on sockets of the
  agent's own table. Loopback is a true exception: a packet that claims to come from there and cannot be
  forwarded stops every agent that has just been given IPv4 and one interface, whatever its address and its
  attributes, unless these forbid reports: the loopback route is valid, its interface has no socket, and
  the assertion on the socket fails.\<close>

theorem no_route_report_never_stops:
  assumes "served C b p u t s" and "any_addr E = u"
    and "m_rerrCount s = m_rerrRateLimit (par s) \<longrightarrow> tm_started (m_rerrRateLimitTimer s)"
    and "origin \<notin> {ip4 127 0 0 1, u}"
  shows "(\<exists>s' sent. SendRerrWhenNoRouteToForward E dst n origin s = Some s' \<and> log s' = log s @ sent
            \<and> (\<forall>x\<in>set sent. \<exists>k q a. x = SockSend k q a \<and> k \<in> fst ` set (m_socketAddresses s)))
       \<and> (a \<noteq> ip4 127 0 0 1 \<longrightarrow> m_rerrRateLimit p' \<noteq> 0 \<longrightarrow> served be_codec True p' 0 0 (station p' a)
            \<and> SendRerrWhenNoRouteToForward (station_env a) dst n (ip4 127 0 0 1) (station p' a) = None)"
proof (intro conjI impI station_served station_stops)
  have "entries_all (keyed_over (own_ifaces s) u) (purged E s)"
    using served_routes_ok [OF assms(1)] os.inv_Purge by (simp add: routes_ok_def purged_def)
  then have "keyed_over (own_ifaces s) u origin e" if "route_of (purged E s) origin = Some e" for e
    using that by (simp add: entries_all_def)
  then have found: "\<exists>k. FindSocketWithInterfaceAddress (m_iface e) s = Some k"
    if "route_of (purged E s) origin = Some e" "m_flag e = VALID" for e
    using assms(4) that by (fastforce intro: socket_of_iface simp: keyed_over_def over_socket_def)
  have open_k: "k \<in> fst ` set (m_socketAddresses s)" if "FindSocketWithInterfaceAddress i s = Some k" for i k
    using found_socket_bound(1) [OF that] by force
  show "\<exists>s' sent. SendRerrWhenNoRouteToForward E dst n origin s = Some s' \<and> log s' = log s @ sent
      \<and> (\<forall>x\<in>set sent. \<exists>k q a. x = SockSend k q a \<and> k \<in> fst ` set (m_socketAddresses s))"
  proof (cases "\<exists>e. route_of (purged E s) origin = Some e \<and> m_flag e = VALID")
    case True
    then obtain e k where "route_of (purged E s) origin = Some e" "m_flag e = VALID"
      "FindSocketWithInterfaceAddress (m_iface e) s = Some k"
      using found by blast
    with open_k assms(3) show ?thesis by (auto simp: report_eq emit_def)
  next
    case False
    with assms(3) show ?thesis by (auto simp: report_eq send_all_log Let_def)
  qed
qed

theorem no_route_report_never_stops_witness:
  "(\<exists>s'. SendRerrWhenNoRouteToForward (station_env 9) 7 0 8 (station example_params 9) = Some s')
   \<and> SendRerrWhenNoRouteToForward (station_env 9) 7 0 (ip4 127 0 0 1) (station example_params 9) = None"
proof -
  have 9: "(9 :: ipv4) \<noteq> ip4 127 0 0 1" "(8 :: ipv4) \<notin> {ip4 127 0 0 1, 0}" by (simp_all add: ip4_def)
  have count: "m_rerrCount (station example_params 9) \<noteq> m_rerrRateLimit (par (station example_params 9))"
    "m_rerrRateLimit example_params \<noteq> 0" "any_addr (station_env 9) = 0"
    by (simp_all add: station_defs run_defs Let_def)
  then show ?thesis
    using no_route_report_never_stops [OF station_served [OF 9(1)] count(3) _ 9(2), of example_params 7 0 9 example_params] 9(1)
    by auto
qed

end
