(* ===== verification/Tame_Runs.thy ===== *)
theory Tame_Runs
  imports Socket_Routes
begin

text \<open>
  What keeps the contents of the routing table harmless. In a run whose events name no odd address and
  no sequence number of the upper half, all sequence numbers stay in the lower half, only the loopback
  route leads to loopback, loopback is nobody's precursor, and the default address \<open>u\<close>, which the code
  uses for want of an entry, has no entry. The invariant is an interpretation of the interface of all
  events, so it holds whatever else happens.
\<close>

declare One_nat_def [simp del]

subsection \<open>Sequence numbers in the lower half\<close>

definition low :: "u32 \<Rightarrow> bool" where
  "low n \<longleftrightarrow> 0 \<le> sint n"

lemma low_sub: "low a \<Longrightarrow> low b \<Longrightarrow> s32_sub a b = Some (sint a - sint b)"
  using sint_range_size [of a] sint_range_size [of b]
  by (simp add: low_def s32_sub_def word_size Let_def)

lemma low_0 [simp]: "low 0"
  by (simp add: low_def)

subsection \<open>Entries\<close>

definition harmless :: "ipv4 \<Rightarrow> written \<Rightarrow> bool" where
  "harmless u w =
     (case w of Over i \<Rightarrow> True | Seq n \<Rightarrow> low n | Key a \<Rightarrow> a \<noteq> u | Hop a \<Rightarrow> a \<noteq> ip4 127 0 0 1)"

lemma harmless_simps [simp]:
  "harmless u (Over i)" "harmless u (Seq n) = low n" "harmless u (Key a) = (a \<noteq> u)"
  "harmless u (Hop a) = (a \<noteq> ip4 127 0 0 1)"
  by (simp_all add: harmless_def)

definition tame :: "rte \<Rightarrow> bool" where
  "tame e \<longleftrightarrow> low (m_seqNo e) \<and> (GetDestination e = ip4 127 0 0 1 \<or> GetNextHop e \<noteq> ip4 127 0 0 1) \<and>
     ip4 127 0 0 1 \<notin> set (m_precursorList e)"

definition tame_at :: "ipv4 \<Rightarrow> ipv4 \<Rightarrow> rte \<Rightarrow> bool" where
  "tame_at u k e \<longleftrightarrow> k \<noteq> u \<and> GetDestination e = k \<and> tame e"

interpretation ta: entry_invariant "tame_at u"
  by unfold_locales (auto simp: tame_at_def tame_def Invalidate_def)

lemma settled_members [simp]:
  "m_seqNo (settled e) = m_seqNo e" "m_ipv4Route (settled e) = m_ipv4Route e"
  "m_precursorList (settled e) = m_precursorList e" "m_flag (settled e) = m_flag e"
  "m_iface (settled e) = m_iface e" "m_validSeqNo (settled e) = m_validSeqNo e"
  by (simp_all add: settled_def)

lemma tame_settled [simp]: "tame (settled e) = tame e"
  by (simp add: tame_def)

lemma tame_edits:
  "tame e \<Longrightarrow> same_core (harmless u) e e' \<Longrightarrow> tame e'"
  "tame e \<Longrightarrow> a \<noteq> ip4 127 0 0 1 \<Longrightarrow> tame (snd (InsertPrecursor a e))"
  "tame e \<Longrightarrow> tame (e\<lparr>m_ackTimer := t, m_flag := f\<rparr>)"
  "tame e \<Longrightarrow> same_links e e' \<Longrightarrow> m_seqNo e' = m_seqNo e \<Longrightarrow> GetNextHop e' = GetNextHop e \<Longrightarrow> tame e'"
  "m_precursorList e = [] \<Longrightarrow> low (m_seqNo e) \<Longrightarrow>
     GetNextHop e \<noteq> ip4 127 0 0 1 \<or> GetNextHop e = GetDestination e \<Longrightarrow> tame e"
  "tame (RoutingTableEntry_default E)"
  by (auto simp: tame_def same_core_simps InsertPrecursor_def)

lemma tame_store:
  "entries_all (tame_at u) T \<Longrightarrow> tame e \<Longrightarrow> entries_all (tame_at u) (snd (RoutingTable_Update e T))"
  "entries_all (tame_at u) T \<Longrightarrow> tame e \<Longrightarrow> GetDestination e \<noteq> u \<Longrightarrow>
     entries_all (tame_at u) (snd (RoutingTable_AddRoute t e T))"
  by (rule ta.inv_Update_known, assumption) (auto simp: tame_at_def intro: ta.inv_AddRoute)

subsection \<open>The agent\<close>

text \<open>Nor is \<open>u\<close> searched for, now or by a call of \<open>SendRequest\<close> that is still to run.\<close>

definition tame_agent :: "ns3 \<Rightarrow> rp \<Rightarrow> bool" where
  "tame_agent E s \<longleftrightarrow> any_addr E \<noteq> ip4 127 0 0 1 \<and> entries_all (tame_at (any_addr E)) (m_routingTable s) \<and>
     (\<forall>tm. (any_addr E, tm) \<notin> set (m_addressReqTimer s)) \<and> (\<forall>d. SchedRequest d (any_addr E) \<notin> set (log s))"

lemma tame_emit: "tame_agent E s \<Longrightarrow> (\<And>d. e \<noteq> SchedRequest d (any_addr E)) \<Longrightarrow> tame_agent E (emit e s)"
  by (auto simp: tame_agent_def emit_def)

interpretation tame: full_client tame "harmless (any_addr E)" free free E "tame_agent E"
proof unfold_locales
  fix s i r s'
  assume s: "tame_agent E s" and l: "lookup E i s = (r, s')"
  then have T: "entries_all (tame_at (any_addr E)) (purged E s)"
    by (simp add: tame_agent_def purged_def ta.inv_Purge)
  then have "tame e" if "r = Some e" for e
    using l that unfolding entries_all_def tame_at_def by (simp add: lookup_eq) blast
  with s T l show "tame_agent E s' \<and> (\<forall>e. r = Some e \<longrightarrow> tame e)"
    by (auto simp: tame_agent_def lookup_eq)
next
  fix s i e s'
  assume "tame_agent E s" "lookup E i s = (Some e, s')" and i: "harmless (any_addr E) (Hop i)"
  then have "tame_at (any_addr E) i e"
    using ta.inv_Purge [of "any_addr E" "m_routingTable s" "now E"]
    by (auto simp: tame_agent_def lookup_eq entries_all_def purged_def)
  with i show "harmless (any_addr E) (Hop (GetNextHop e))" by (auto simp: tame_at_def tame_def)
qed (auto simp: tame_agent_def emit_def list_via_state invalidate_routes_def update_route_def add_route_def
    delete_route_def delete_routes_from_def DoDispose_def emits_def SendTo_def Let_def tame_edits(6)
    dest: due_mem
    intro: tame_edits(1-5) tame_store ta.inv_GetList ta.inv_InvalidateRoutesWithDst ta.inv_DeleteRoute
      ta.inv_Clear ta.inv_DeleteAllRoutesFromInterface)

end
