(* ===== verification/Error_Reports.thy ===== *)
theory Error_Reports
  imports Message_Props
begin

text \<open>
  The error message for a broken link, against a definition of what it should say. The handler grows
  the message and the list of precursors destination by destination, with a table lookup in each turn
  of the loop and a branch for messages that are full; \<open>report_break\<close> says the result at once.
\<close>

definition precursors_of :: "rtable \<Rightarrow> ipv4 \<Rightarrow> ipv4 list" where
  "precursors_of T k = (case route_of T k of None \<Rightarrow> [] | Some e \<Rightarrow> m_precursorList e)"

lemma GetPrecursors_eq [simp]: "GetPrecursors e pre = append_new (m_precursorList e) pre"
  by (simp add: GetPrecursors_def IsPrecursorListEmpty_def)

lemma GetPrecursors_into [simp]:
  "append_new (m_precursorList (into (route_of T k) (RoutingTableEntry_default E))) pre =
     append_new (precursors_of T k) pre"
  by (simp add: into_def precursors_of_def RoutingTableEntry_default_def RoutingTableEntry_new_def
      split: option.split)

lemma append_new_append: "append_new (xs @ ys) pre = append_new ys (append_new xs pre)"
  by (induction xs pre rule: append_new.induct) simp_all

text \<open>A destination is refused exactly when it is the 256th.\<close>

lemma length_fold_insert:
  "smap_inv m \<Longrightarrow> length m \<le> length (fold (\<lambda>p m. smap_insert (fst p) (snd p) m) ps m)"
proof (induction ps arbitrary: m)
  case (Cons p ps)
  have "length m \<le> length (smap_insert (fst p) (snd p) m)"
    using Cons.prems by (simp add: smap_insert_def length_smap_put split: option.split)
  with Cons.IH [of "smap_insert (fst p) (snd p) m"] Cons.prems show ?case by simp
qed simp

lemma AddUnDestination_eq:
  assumes "rerr_good h"
  shows "RerrHeader_AddUnDestination a q h =
     (let m = smap_insert a q (re_unreachable h) in
      if length m < 256 then Some (True, h\<lparr>re_unreachable := m\<rparr>) else None)"
proof -
  from assms have inv: "smap_inv (re_unreachable h)" and len: "length (re_unreachable h) < 256"
    by (simp_all add: rerr_good_def)
  have "RerrHeader_GetDestCount h < 255 \<longleftrightarrow> length (re_unreachable h) < 255"
    using len by (simp add: RerrHeader_GetDestCount_def word_less_nat_alt unat_of_nat)
  then show ?thesis
    using inv len
    by (auto simp: RerrHeader_AddUnDestination_def Let_def smap_insert_def length_smap_put split: option.split)
qed

lemma rerr_loop_eq:
  assumes "m_routingTable s = purged E s" and "rerr_good h"
  shows "rerr_loop E ds h pre s =
     (let m = fold (\<lambda>p m. smap_insert (fst p) (snd p) m) ds (re_unreachable h) in
      if length m < 256
      then Some (h\<lparr>re_unreachable := m\<rparr>,
                 append_new (concat (map (\<lambda>i. precursors_of (purged E s) (fst i)) ds)) pre, s)
      else None)"
  using assms(2)
proof (induction ds arbitrary: h pre)
  case Nil
  then show ?case by (simp add: rerr_good_def Let_def)
next
  case (Cons i ds)
  let ?m = "smap_insert (fst i) (snd i) (re_unreachable h)"
  have look: "lookup E (fst i) s = (route_of (purged E s) (fst i), s)"
    using assms(1) by (simp add: lookup_eq)
  have inv: "smap_inv ?m" using Cons.prems by (simp add: rerr_good_def)
  show ?case
  proof (cases "length ?m < 256")
    case True
    then have "rerr_good (h\<lparr>re_unreachable := ?m\<rparr>)" using inv by (simp add: rerr_good_def)
    from Cons.IH [OF this] True show ?thesis
      using Cons.prems by (simp add: rerr_loop_Cons AddUnDestination_eq Let_def look append_new_append)
  next
    case False
    with length_fold_insert [OF inv, of ds] Cons.prems show ?thesis
      by (simp add: rerr_loop_Cons AddUnDestination_eq Let_def)
  qed
qed

text \<open>What is to be reported: the neighbour and the destinations of the entries over it, with the
  sequence numbers of the entries, to all precursors of these entries.\<close>

definition over_hop :: "ipv4 \<Rightarrow> rtable \<Rightarrow> (ipv4, rte) smap" where
  "over_hop nextHop T = filter (\<lambda>(k, e). GetNextHop e = nextHop) (m_ipv4AddressEntry T)"

definition report_break :: "ns3 \<Rightarrow> ipv4 \<Rightarrow> rp \<Rightarrow> rp option" where
  "report_break E nextHop s =
     (let s = s\<lparr>m_routingTable := purged E s\<rparr> in
      case route_of (m_routingTable s) nextHop of
        None \<Rightarrow> Some s
      | Some e \<Rightarrow>
          let over = over_hop nextHop (m_routingTable s);
              broken = smap_insert nextHop (m_seqNo e) (map (\<lambda>(k, e). (k, m_seqNo e)) over);
              told = append_new (concat (map m_precursorList (e # map snd over))) [] in
          if length broken < 256
          then do {
            s \<leftarrow> SendRerrMessage E (rerr_packet E \<lparr>re_flag = 0, re_reserved = 0, re_unreachable = broken\<rparr>) told s;
            Some (invalidate_routes E broken s)
          }
          else None)"

lemma smap_inv_over: "smap_inv (m_ipv4AddressEntry T) \<Longrightarrow> smap_inv (map (\<lambda>(k, e). (k, m_seqNo e)) (over_hop a T))"
  using smap_inv_map_val [of "\<lambda>_. m_seqNo" "over_hop a T"] by (simp add: over_hop_def)

lemma fold_insert_into:
  assumes "smap_inv m" and "map_of m a = None \<or> map_of m a = Some q"
  shows "fold (\<lambda>p m. smap_insert (fst p) (snd p) m) m [(a, q)] = smap_insert a q m"
proof (rule smap_ext)
  show "smap_inv (fold (\<lambda>p m. smap_insert (fst p) (snd p) m) m [(a, q)])"
    by (rule smap_inv_fold_insert) simp
qed (use assms in \<open>auto simp: map_of_fold_insert map_of_insert split: option.splits\<close>)

lemma precursors_over:
  assumes "smap_inv (m_ipv4AddressEntry T)"
  shows "map (\<lambda>i. precursors_of T (fst i)) (map (\<lambda>(k, e). (k, m_seqNo e)) (over_hop a T)) =
     map m_precursorList (map snd (over_hop a T))"
  using assms by (auto simp: precursors_of_def over_hop_def smap_inv_distinct)

text \<open>The destinations over the neighbour, and what the loop makes of them.\<close>

lemma listed_over:
  assumes "rp_inv s" and "route_of (purged E s) a = Some e"
  shows "fst (RoutingTable_GetListOfDestinationWithNextHop (now E) a (purged E s)) =
      map (\<lambda>(k, e). (k, m_seqNo e)) (over_hop a (purged E s))"
    and "fold (\<lambda>p m. smap_insert (fst p) (snd p) m) (map (\<lambda>(k, e). (k, m_seqNo e)) (over_hop a (purged E s)))
      [(a, m_seqNo e)] = smap_insert a (m_seqNo e) (map (\<lambda>(k, e). (k, m_seqNo e)) (over_hop a (purged E s)))"
    and "concat (map ((\<lambda>i. precursors_of (purged E s) (fst i)) \<circ> (\<lambda>(k, e). (k, m_seqNo e))) (over_hop a (purged E s))) =
      concat (map (m_precursorList \<circ> snd) (over_hop a (purged E s)))"
proof -
  let ?un = "map (\<lambda>(k, e). (k, m_seqNo e)) (over_hop a (purged E s))"
  have inv: "smap_inv (m_ipv4AddressEntry (purged E s))"
    using purged_ok [of s E] assms(1) by (simp add: rp_inv_def entries_all_def)
  show "fst (RoutingTable_GetListOfDestinationWithNextHop (now E) a (purged E s)) = ?un"
    using purged_idem [OF assms(1), of E] smap_of_list_id [OF smap_inv_over [OF inv]]
    by (simp add: RoutingTable_GetListOfDestinationWithNextHop_def Let_def over_hop_def)
  have "map_of ?un a = None \<or> map_of ?un a = Some (m_seqNo e)"
    using assms(2) inv
    by (auto simp: over_hop_def map_of_map_val [of "\<lambda>_. m_seqNo"] map_of_filter_val smap_inv_distinct)
  from fold_insert_into [OF smap_inv_over [OF inv] this]
  show "fold (\<lambda>p m. smap_insert (fst p) (snd p) m) ?un [(a, m_seqNo e)] = smap_insert a (m_seqNo e) ?un" .
  show "concat (map ((\<lambda>i. precursors_of (purged E s) (fst i)) \<circ> (\<lambda>(k, e). (k, m_seqNo e))) (over_hop a (purged E s))) =
      concat (map (m_precursorList \<circ> snd) (over_hop a (purged E s)))"
    using precursors_over [OF inv, of a] by (simp only: list.map_comp)
qed

lemma link_break_eq:
  assumes "rp_inv s"
  shows "SendRerrWhenBreaksLinkToNextHop E nextHop s = report_break E nextHop s"
proof (cases "route_of (purged E s) nextHop")
  case None
  then show ?thesis by (simp add: SendRerrWhenBreaksLinkToNextHop_def report_break_def lookup_eq Let_def)
next
  case (Some e)
  let ?s = "s\<lparr>m_routingTable := purged E s\<rparr>"
  let ?un = "map (\<lambda>(k, e). (k, m_seqNo e)) (over_hop nextHop (purged E s))"
  note listed = listed_over [OF assms Some]
  have p: "purged E ?s = purged E s" using purged_idem [OF assms, of E] by (simp add: purged_def)
  have first: "RerrHeader_AddUnDestination nextHop (m_seqNo e) RerrHeader_new =
      Some (True, RerrHeader_new\<lparr>re_unreachable := [(nextHop, m_seqNo e)]\<rparr>)"
    by (simp add: AddUnDestination_eq Let_def) (simp add: RerrHeader_new_def smap_insert_def)
  have good: "rerr_good (RerrHeader_new\<lparr>re_unreachable := [(nextHop, m_seqNo e)]\<rparr>)"
    by (simp add: rerr_good_def)
  have some: "RerrHeader_GetDestCount \<lparr>re_flag = 0, re_reserved = 0, re_unreachable = m\<rparr> \<noteq> 0"
    if "length m < 256" "m \<noteq> []" for m :: "(ipv4, u32) smap"
    using that by (auto simp: RerrHeader_GetDestCount_def word_of_nat_eq_0_iff dest: nat_dvd_not_less)
  have new: "RerrHeader_new\<lparr>re_unreachable := m\<rparr> = \<lparr>re_flag = 0, re_reserved = 0, re_unreachable = m\<rparr>" for m
    by (simp add: RerrHeader_new_def)
  have "map_of (smap_insert nextHop (m_seqNo e) ?un) nextHop \<noteq> None"
    by (simp add: map_of_insert split: option.split)
  then have "smap_insert nextHop (m_seqNo e) ?un \<noteq> []" by auto
  note some = some [OF _ this]
  show ?thesis
    using Some
    by (simp add: SendRerrWhenBreaksLinkToNextHop_def report_break_def lookup_eq list_via_eq p listed first
       rerr_loop_eq [OF _ good [unfolded new]] Let_def rerr_rest_def append_new_append some new)
qed

text \<open>C19: the handler of a broken link computes \<open>report_break\<close>: one message that lists the neighbour
  and every destination reached over it, each once, sent by one call of \<open>SendRerrMessage\<close> to the
  precursors of all of them without repetition, before the routes are invalidated; it stops the program
  exactly when more than 255 destinations are lost or that call does, and without an entry for the
  neighbour it only purges the table.\<close>

theorem link_break_report:
  assumes "rp_inv s"
  shows "SendRerrWhenBreaksLinkToNextHop E nextHop s = report_break E nextHop s"
  using assms by (rule link_break_eq)

text \<open>A node that loses its neighbour 3, over which it also reaches 7; the precursors 4 and 8.\<close>

definition example_via :: rp where
  "example_via = example_agent\<lparr>m_routingTable := \<lparr>m_ipv4AddressEntry =
     [(3, (example_rte 3 3 90)\<lparr>m_precursorList := [4]\<rparr>), (4, example_rte 4 6 90),
      (7, (example_rte 7 3 90)\<lparr>m_precursorList := [8, 4]\<rparr>)], m_badLinkLifetime = 15\<rparr>\<rparr>"

theorem link_break_report_witness:
  "SendRerrWhenBreaksLinkToNextHop (example_env 5) 3 example_via = do {
     s \<leftarrow> SendRerrMessage (example_env 5)
       (rerr_packet (example_env 5) \<lparr>re_flag = 0, re_reserved = 0, re_unreachable = [(3, 7), (7, 7)]\<rparr>) [4, 8] example_via;
     Some (invalidate_routes (example_env 5) [(3, 7), (7, 7)] s)
   }"
proof -
  have "rp_inv example_via"
    using reachable_inv [OF example_reachable]
    by (auto simp: rp_inv_def example_via_def entries_all_def rte_ok_def example_rte_def
        RoutingTableEntry_new_def)
  from link_break_report [OF this, of "example_env 5" 3] show ?thesis
    by (simp add: report_break_def purged_def RoutingTable_Purge_def over_hop_def GetLifeTime_def smap_insert_def
        example_via_def example_rte_def RoutingTableEntry_new_def Let_def)
qed

end
