(* ===== verification/Link_Failures.thy ===== *)
theory Link_Failures
  imports Tame_Runs Error_Reports
begin

text \<open>
  Errors and lost neighbours never stop an agent that is able to work: one with the invariants of the
  components, routes over open sockets, a tame table that is not too large, and the timer of the error
  limit running. Whatever neighbours are lost, the handler of broken links returns for each of them and
  leaves the agent able.
\<close>

subsection \<open>An able agent\<close>

text \<open>A message lists at most 255 destinations. \<open>n\<close> is how many entries may still be added.\<close>

definition room :: "nat \<Rightarrow> rp \<Rightarrow> bool" where
  "room n s \<longleftrightarrow> length (m_ipv4AddressEntry (m_routingTable s)) + n \<le> 255 \<and> tm_started (m_rerrRateLimitTimer s)"

lemma length_purge_entries: "length (purge_entries t bad m) \<le> length m"
  by (induction t bad m rule: purge_entries.induct) (auto split: if_splits)

lemma length_purged: "length (m_ipv4AddressEntry (purged E s)) \<le> length (m_ipv4AddressEntry (m_routingTable s))"
  by (simp add: purged_def RoutingTable_Purge_def length_purge_entries)

interpretation room: link_client free free free free E "room n"
  rewrites "\<And>P. (True \<Longrightarrow> P) \<equiv> Trueprop P"
proof unfold_locales
  fix s un
  assume "room n s"
  then show "room n (invalidate_routes E un s)"
    using length_purge_entries [of "now E" "m_badLinkLifetime (m_routingTable s)" "m_ipv4AddressEntry (m_routingTable s)"]
    by (simp add: room_def invalidate_routes_def RoutingTable_InvalidateRoutesWithDst_def RoutingTable_Purge_def Let_def)
qed (auto simp: room_def lookup_eq list_via_eq emit_def intro: order_trans [OF add_right_mono [OF length_purged]])

definition able :: "ns3 \<Rightarrow> (sock, iface) smap \<Rightarrow> (sock, iface) smap \<Rightarrow> nat \<Rightarrow> rp \<Rightarrow> bool" where
  "able E S B n s \<longleftrightarrow> rp_inv s \<and> routed E S B s \<and> tame_agent E s \<and> room n s"

lemma able_lookup: "able E S B n s \<Longrightarrow> able E S B n (s\<lparr>m_routingTable := purged E s\<rparr>)"
  using good.I_lookupD [of s E 0] routed.I_lookupD [of E S B s 0] tame.I_lookupD [of E s 0] room.I_lookupD [of n s E 0]
  by (auto simp: able_def lookup_eq)

lemma able_less: "able E S B n s \<Longrightarrow> m \<le> n \<Longrightarrow> able E S B m s"
  by (simp add: able_def room_def)

lemma able_break: "able E S B n s \<Longrightarrow> pred_option (able E S B n) (SendRerrWhenBreaksLinkToNextHop E a s)"
  unfolding able_def by (intro pres_conj good.I_break routed.I_break tame.I_break room.I_break) simp_all

lemma able_nb: "able E S B n s \<Longrightarrow> Neighbors_inv nb \<Longrightarrow> able E S B n (s\<lparr>rp_nb := nb\<rparr>)"
  unfolding able_def by (intro conjI good.I_nb routed.I_nb tame.I_nb room.I_nb) simp_all

lemma able_entry:
  assumes "able E S B n s" and "route_of (purged E s) k = Some e"
  shows "tame_at (any_addr E) k e" "keyed_over (snd ` set S) (any_addr E) k e"
proof -
  have "able E S B n (s\<lparr>m_routingTable := purged E s\<rparr>)" using assms(1) by (rule able_lookup)
  with assms(2) show "tame_at (any_addr E) k e" "keyed_over (snd ` set S) (any_addr E) k e"
    by (auto simp: able_def routed_def tame_agent_def entries_all_def)
qed

lemma able_low: "able E S B n s \<Longrightarrow> route_of (purged E s) k = Some e \<Longrightarrow> low (m_seqNo e)"
  using able_entry(1) [of E S B n s k e] by (simp add: tame_at_def tame_def)

text \<open>A route that is no search and not to loopback has its socket.\<close>

lemma able_iface:
  assumes "able E S B n s" and "route_of (purged E s) k = Some e" and "settled_entry e" and "k \<noteq> ip4 127 0 0 1"
  shows "m_iface e \<in> snd ` set S"
  using able_entry [OF assms(1,2)] assms(3,4)
  by (auto simp: tame_at_def keyed_over_def over_socket_def settled_entry_def)

lemma able_socket: "able E S B n s \<Longrightarrow> i \<in> snd ` set S \<Longrightarrow> \<exists>k. FindSocketWithInterfaceAddress i s = Some k"
  using socket_of_iface [of i s] by (simp add: able_def routed_def)

lemma valid_settled: "m_flag e = VALID \<Longrightarrow> settled_entry e"
  by (simp add: settled_entry_def)

subsection \<open>Errors\<close>

text \<open>A handler returns, and what it returns has a property.\<close>

definition yields :: "('a \<Rightarrow> bool) \<Rightarrow> 'a option \<Rightarrow> bool" where
  "yields P m = (case m of None \<Rightarrow> False | Some x \<Rightarrow> P x)"

lemma yields_simps [simp]: "yields P (Some x) = P x" "\<not> yields P None" "yields (\<lambda>x. P (f x)) m = yields P (map_option f m)"
  by (simp_all add: yields_def option.case_eq_if) (cases m; simp)

lemma yields_iff: "yields P m \<longleftrightarrow> (\<exists>x. m = Some x \<and> P x)"
  by (cases m) simp_all

lemma yields_bind: "yields Q m \<Longrightarrow> (\<And>x. Q x \<Longrightarrow> yields P (f x)) \<Longrightarrow> yields P (Option.bind m f)"
  by (cases m) simp_all

lemma yields_pres: "m \<noteq> None \<Longrightarrow> pred_option P m \<Longrightarrow> yields P m"
  by (cases m) simp_all

lemma yields_mono: "yields P m \<Longrightarrow> (\<And>x. P x \<Longrightarrow> Q x) \<Longrightarrow> yields Q m"
  by (cases m) simp_all

lemma yields_foldM:
  "I s \<Longrightarrow> (\<And>x s. x \<in> set xs \<Longrightarrow> I s \<Longrightarrow> yields I (f x s)) \<Longrightarrow> yields I (foldM f xs s)"
  unfolding yields_iff by (rule foldM_total)

lemma precursor_ifaces_open:
  "able E S B n s \<Longrightarrow> ip4 127 0 0 1 \<notin> set as \<Longrightarrow> set ifs \<subseteq> snd ` set S \<Longrightarrow>
   set (fst (precursor_ifaces E as ifs s)) \<subseteq> snd ` set S"
proof (induction as arbitrary: ifs s)
  case (Cons a as)
  note u = able_lookup [OF Cons.prems(1)]
  show ?case
  proof (cases "route_of (purged E s) a")
    case None
    with Cons u show ?thesis by (simp add: lookup_valid_eq lookup_eq)
  next
    case (Some e)
    have "m_flag e = VALID \<Longrightarrow> m_iface e \<in> snd ` set S"
      using able_iface [OF Cons.prems(1) Some] Cons.prems(2) by (auto simp: valid_settled)
    with Cons.prems(2,3) Some Cons.IH [OF u] show ?thesis by (simp add: lookup_valid_eq lookup_eq)
  qed
qed simp

lemma able_report:
  "able E S B n s \<Longrightarrow> rerr_good h \<Longrightarrow> pred_option (able E S B n) (SendRerrMessage E (rerr_packet E h) as s)"
  unfolding able_def
  by (intro pres_conj good.I_SendRerrMessage routed.I_SendRerrMessage tame.I_SendRerrMessage room.I_SendRerrMessage)
    simp_all

lemma able_rerr_on_iface:
  assumes "able E S B n s" "rerr_good h" "i \<in> snd ` set S"
  shows "yields (able E S B n) (rerr_on_iface E (rerr_packet E h) i s)"
proof (rule yields_pres)
  show "rerr_on_iface E (rerr_packet E h) i s \<noteq> None"
    using able_socket [OF assms(1,3)] by (auto simp: rerr_on_iface_def)
  show "pred_option (able E S B n) (rerr_on_iface E (rerr_packet E h) i s)"
    using assms(1,2) unfolding able_def
    by (intro pres_conj good.I_rerr_on_iface routed.I_rerr_on_iface tame.I_rerr_on_iface room.I_rerr_on_iface) simp_all
qed

lemma able_precursor_ifaces: "able E S B n s \<Longrightarrow> able E S B n (snd (precursor_ifaces E as ifs s))"
  unfolding able_def
  by (intro conjI good.I_precursor_ifaces routed.I_precursor_ifaces tame.I_precursor_ifaces room.I_precursor_ifaces) simp_all

lemma able_SendRerrMessage:
  assumes "able E S B n s" and "rerr_good h" and "ip4 127 0 0 1 \<notin> set as"
  shows "yields (able E S B n) (SendRerrMessage E (rerr_packet E h) as s)"
proof (rule yields_pres [OF _ able_report [OF assms(1,2)]])
  let ?u = "s\<lparr>m_routingTable := purged E s\<rparr>"
  have limit: "tm_started (m_rerrRateLimitTimer s)" using assms(1) by (simp add: able_def room_def)
  have single: "\<exists>k. FindSocketWithInterfaceAddress (m_iface e) ?u = Some k"
    if "a \<in> set as" "route_of (purged E s) a = Some e" "m_flag e = VALID" for a e
    by (rule able_socket [OF able_lookup [OF assms(1)]], rule able_iface [OF assms(1) that(2)])
      (use that assms(3) in \<open>auto simp: valid_settled\<close>)
  obtain ifs v where p: "precursor_ifaces E as [] s = (ifs, v)" by fastforce
  then have v: "set ifs \<subseteq> snd ` set S" "able E S B n v"
    using precursor_ifaces_open [OF assms(1,3), of "[]"] able_precursor_ifaces [OF assms(1), of as "[]"] by simp_all
  have many: "yields (able E S B n) (foldM (rerr_on_iface E (rerr_packet E h)) ifs v)"
    by (rule yields_foldM [where I = "able E S B n", OF v(2)], rule able_rerr_on_iface [OF _ assms(2)])
      (use v(1) in auto)
  show "SendRerrMessage E (rerr_packet E h) as s \<noteq> None"
  proof (cases as)
    case Nil
    then show ?thesis by (simp add: SendRerrMessage_def)
  next
    case (Cons a bs)
    with single [of a] many p limit show ?thesis
      by (auto simp: SendRerrMessage_def lookup_valid_eq lookup_eq Let_def yields_iff split: bool.split option.split)
  qed
qed

text \<open>No precursor is loopback.\<close>

lemma able_precursors: "able E S B n s \<Longrightarrow> ip4 127 0 0 1 \<notin> set (precursors_of (purged E s) k)"
  using able_entry(1) [of E S B n s k] by (auto simp: precursors_of_def tame_at_def tame_def split: option.split)

subsection \<open>Lost neighbours\<close>

text \<open>What is reached over a neighbour, with the neighbour itself, is no more than the table.\<close>

lemma length_keys: "smap_inv m \<Longrightarrow> length m = card (fst ` set m)"
  using distinct_card [OF smap_inv_distinct] by force

lemma length_broken:
  assumes "smap_inv (m_ipv4AddressEntry T)" and "route_of T a = Some e"
  shows "length (smap_insert a q (map (\<lambda>(k, e). (k, m_seqNo e)) (over_hop a T))) \<le> length (m_ipv4AddressEntry T)"
proof -
  let ?m = "smap_insert a q (map (\<lambda>(k, e). (k, m_seqNo e)) (over_hop a T))"
  have inv: "smap_inv ?m" using smap_inv_over [OF assms(1)] by simp
  have "a \<in> fst ` set (m_ipv4AddressEntry T)"
    using map_of_SomeD [OF assms(2)] by force
  moreover have "fst ` set (map (\<lambda>(k, e). (k, m_seqNo e)) (over_hop a T)) \<subseteq> fst ` set (m_ipv4AddressEntry T)"
    by (force simp: over_hop_def)
  ultimately have "fst ` set ?m \<subseteq> fst ` set (m_ipv4AddressEntry T)"
    unfolding smap_insert_def by (simp del: set_map)
  then have "card (fst ` set ?m) \<le> card (fst ` set (m_ipv4AddressEntry T))" by (intro card_mono) simp_all
  then show ?thesis using length_keys [OF inv] length_keys [OF assms(1)] by simp
qed

lemma able_lost:
  assumes s: "able E S B n s"
  shows "yields (able E S B n) (SendRerrWhenBreaksLinkToNextHop E a s)"
proof (rule yields_pres [OF _ able_break [OF s]])
  let ?u = "s\<lparr>m_routingTable := purged E s\<rparr>"
  have inv: "rp_inv s" and u: "able E S B n ?u" using s able_lookup by (simp_all add: able_def)
  show "SendRerrWhenBreaksLinkToNextHop E a s \<noteq> None"
  proof (cases "route_of (purged E s) a")
    case None
    then show ?thesis using link_break_eq [OF inv, of E a] by (simp add: report_break_def Let_def)
  next
    case (Some e)
    let ?over = "over_hop a (purged E s)"
    let ?m = "smap_insert a (m_seqNo e) (map (\<lambda>(k, e). (k, m_seqNo e)) ?over)"
    let ?told = "append_new (concat (map m_precursorList (e # map snd ?over))) []"
    have T: "smap_inv (m_ipv4AddressEntry (purged E s))"
      using u by (simp add: able_def rp_inv_def entries_all_def)
    have len: "length ?m < 256"
      using length_broken [OF T Some, of "m_seqNo e"] u by (simp add: able_def room_def)
    moreover have "smap_inv ?m" using smap_inv_over [OF T] by simp
    ultimately have good: "rerr_good \<lparr>re_flag = 0, re_reserved = 0, re_unreachable = ?m\<rparr>"
      by (simp add: rerr_good_def)
    have "ip4 127 0 0 1 \<notin> set (m_precursorList d)" if "route_of (purged E s) k = Some d" for k d
      using able_entry(1) [OF s that] by (simp add: tame_at_def tame_def)
    then have "ip4 127 0 0 1 \<notin> set ?told"
      using Some T by (fastforce simp: set_append_new over_hop_def smap_inv_distinct)
    from able_SendRerrMessage [OF u good this] len Some show ?thesis
      using link_break_eq [OF inv, of E a] by (auto simp: report_break_def Let_def yields_iff)
  qed
qed

lemma able_purge:
  assumes "able E S B n s"
  shows "Neighbors_Purge t (nb_callback E) nb s \<noteq> None"
proof -
  have "yields (able E S B n) (foldM (SendRerrWhenBreaksLinkToNextHop E) (lost t nb) s)"
    by (rule yields_foldM [where I = "able E S B n", OF assms]) (rule able_lost)
  then show ?thesis by (auto simp: Neighbors_Purge_eq nb_callback_def call_failure_def yields_iff)
qed

lemma able_nb_update:
  assumes "able E S B n s"
  shows "yields (able E S B n) (nb_update E a x s)"
proof (rule yields_pres)
  show "nb_update E a x s \<noteq> None"
    using able_purge [OF assms, of "now E" "(rp_nb s)\<lparr>m_nb := m_nb (rp_nb s) @ [\<lparr>m_neighborAddress = a,
        m_hardwareAddress = Neighbors_LookupMacAddress E (rp_nb s) a, m_expireTime = x + now E, close = False\<rparr>]\<rparr>"]
    by (cases "refresh E (rp_nb s) a x (m_nb (rp_nb s))") (auto simp: nb_update_def Neighbors_Update_def)
  show "pred_option (able E S B n) (nb_update E a x s)"
    using assms unfolding able_def by (intro pres_conj good.I_nb_update routed.I_nb_update tame.I_nb_update room.I_nb_update) simp_all
qed

lemma able_nb_purge:
  assumes "able E S B n s"
  shows "yields (able E S B n) (nb_purge E s)"
proof (rule yields_pres)
  show "nb_purge E s \<noteq> None"
    using able_purge [OF assms] by (auto simp: nb_purge_def Let_def split: bind_splits)
  show "pred_option (able E S B n) (nb_purge E s)"
    using assms unfolding able_def by (intro pres_conj good.I_nb_purge routed.I_nb_purge tame.I_nb_purge room.I_nb_purge) simp_all
qed

lemma able_NotifyTxError:
  assumes "able E S B n s"
  shows "yields (able E S B n) (NotifyTxError E a s)"
proof (rule yields_pres)
  show "NotifyTxError E a s \<noteq> None"
    using able_purge [OF assms] by (auto simp: NotifyTxError_def Neighbors_ProcessTxError_def split: bind_splits)
  show "pred_option (able E S B n) (NotifyTxError E a s)"
    using assms unfolding able_def
    by (intro pres_conj good.I_NotifyTxError routed.I_NotifyTxError tame.I_NotifyTxError room.I_NotifyTxError) simp_all
qed

end
