(* ===== verification/Network_Props.thy ===== *)
theory Network_Props
  imports Stations Data_Props
begin

text \<open>
  From the wire to the handlers: what one agent puts on the wire another receives. A request for the
  receiver itself is answered, and an answer installs its route and empties the queue.
\<close>

subsection \<open>From the wire to the handlers\<close>

lemma RecvMadaodv_dispatch:
  assumes "pk_bytes p = TypeHeader_Serialize (TypeHeader_new t) @ body"
    and "RecvMadaodv E k p sender s = Some s'"
  obtains receiver where "receiver_of k s = Some receiver"
    and "(case t of
        MADAODVTYPE_RREQ \<Rightarrow> RecvRequest E (p\<lparr>pk_bytes := body\<rparr>) receiver sender (UpdateRouteToNeighbor E sender receiver s)
      | MADAODVTYPE_RREP \<Rightarrow> RecvReply E (p\<lparr>pk_bytes := body\<rparr>) receiver sender (UpdateRouteToNeighbor E sender receiver s)
      | MADAODVTYPE_RERR \<Rightarrow> RecvError E (p\<lparr>pk_bytes := body\<rparr>) sender (UpdateRouteToNeighbor E sender receiver s)
      | MADAODVTYPE_RREP_ACK \<Rightarrow> Some (RecvReplyAck E sender (UpdateRouteToNeighbor E sender receiver s))) = Some s'"
  using assms by (auto simp: RecvMadaodv_def type_des_ser TypeHeader_new_def bind_eq_Some_conv Let_def)

lemma neighbor_update_frame: "\<exists>T. UpdateRouteToNeighbor E a r s = s\<lparr>m_routingTable := T\<rparr>"
  by (auto simp: UpdateRouteToNeighbor_def lookup_eq Let_def add_route_def update_route_def
      split: option.split)

text \<open>After the sender's entry was updated, a search is still a search, or its sequence number is
  unknown.\<close>

lemma neighbor_update_route:
  assumes "rp_inv s" and "route_of (m_routingTable (UpdateRouteToNeighbor E a r s)) k = Some e"
  shows "route_of (purged E s) k = Some e \<or> \<not> m_validSeqNo e"
proof -
  have none: "\<not> m_validSeqNo (settled (RoutingTableEntry_new t d x False q i h nh l))" for t d x q i h nh l
    by (simp add: RoutingTableEntry_new_def settled_def)
  show ?thesis
    using assms(2) none purged_idem [OF assms(1), of E]
    by (cases "route_of (purged E s) a")
      (auto simp: UpdateRouteToNeighbor_def lookup_eq Let_def add_route_def update_route_def
        route_of_AddRoute route_of_Update simp del: settled_shape split: if_splits)
qed

lemma neighbor_update_search:
  assumes "rp_inv s" and "\<And>e. route_of (purged E s) k = Some e \<Longrightarrow> m_flag e = IN_SEARCH"
    and "route_of (purged E (UpdateRouteToNeighbor E a r s)) k = Some e"
  shows "m_flag e = IN_SEARCH \<or> \<not> m_validSeqNo e"
proof -
  let ?u = "UpdateRouteToNeighbor E a r s"
  have "entries_all keyed (m_routingTable ?u)"
    by (rule keyed_table [OF good.I_UpdateRouteToNeighbor [OF assms(1)]])
  with assms(3) obtain e0 where e0: "route_of (m_routingTable ?u) k = Some e0"
    and e: "purge_entry (now E) (m_badLinkLifetime (m_routingTable ?u)) e0 = Some e"
    by (auto simp: route_of_purged split: option.splits)
  from neighbor_update_route [OF assms(1) e0] assms(2) have "m_flag e0 = IN_SEARCH \<or> \<not> m_validSeqNo e0"
    by blast
  with e show ?thesis by (auto simp: purge_entry_def Invalidate_def split: if_splits RouteFlags.splits)
qed

text \<open>What \<open>RecvMadaodv\<close> does before the handler concerns the sender's entry alone.\<close>

lemma neighbor_update_other:
  assumes "rp_inv s" and "k \<noteq> a"
  shows "route_of (m_routingTable (UpdateRouteToNeighbor E a r s)) k = route_of (purged E s) k"
proof -
  have keyed: "entries_all keyed (purged E s)" using keyed_purged [OF keyed_table [OF assms(1)]] .
  have idem: "RoutingTable_Purge (now E) (purged E s) = purged E s"
    using purged_idem [OF assms(1), of E] by (simp add: purged_def)
  show ?thesis
    using assms(2) idem keyed
    by (cases "route_of (purged E s) a")
      (auto simp: UpdateRouteToNeighbor_def lookup_eq Let_def add_route_def update_route_def
        route_of_AddRoute route_of_Update)
qed

lemma purged_entry_live: "rp_inv s \<Longrightarrow> route_of (purged E s) k = Some e \<Longrightarrow> live E e"
  using purge_entry_is_live [of "m_badLinkLifetime (m_routingTable s)" E _ e]
  by (auto simp: route_of_purged [OF keyed_table] rp_inv_def split: option.splits)

lemma neighbor_update_purged:
  assumes "rp_inv s" and "k \<noteq> a"
  shows "route_of (purged E (UpdateRouteToNeighbor E a r s)) k = route_of (purged E s) k"
proof -
  let ?u = "UpdateRouteToNeighbor E a r s"
  have "entries_all keyed (m_routingTable ?u)"
    by (rule keyed_table [OF good.I_UpdateRouteToNeighbor [OF assms(1)]])
  with neighbor_update_other [OF assms, of E r] show ?thesis
    using purged_entry_live [OF assms(1), of E k]
    by (auto simp: route_of_purged purge_entry_live split: option.split)
qed

text \<open>A route with a valid sequence number was known before the sender's entry was updated.\<close>

lemma neighbor_update_valid:
  assumes "rp_inv s" and "\<And>e. route_of (purged E s) k = Some e \<Longrightarrow> \<not> m_validSeqNo e"
    and "route_of (purged E (UpdateRouteToNeighbor E a r s)) k = Some e"
  shows "\<not> m_validSeqNo e"
proof -
  let ?u = "UpdateRouteToNeighbor E a r s"
  have "entries_all keyed (m_routingTable ?u)"
    by (rule keyed_table [OF good.I_UpdateRouteToNeighbor [OF assms(1)]])
  with assms(3) obtain e0 where e0: "route_of (m_routingTable ?u) k = Some e0"
    and e: "purge_entry (now E) (m_badLinkLifetime (m_routingTable ?u)) e0 = Some e"
    by (auto simp: route_of_purged split: option.splits)
  from neighbor_update_route [OF assms(1) e0] assms(2) e show ?thesis
    by (auto simp: purge_entry_def Invalidate_def split: if_splits RouteFlags.splits)
qed

subsection \<open>The answer reaches the originator\<close>

lemma install_reply_queue:
  "install_reply E h hop e r s = Some s' \<Longrightarrow>
   rp_queue s' = rp_queue s \<and> m_socketAddresses s' = m_socketAddresses s"
  by (auto simp: install_reply_def add_route_def update_route_def bind_eq_Some_conv split: option.splits)

lemma SendReplyAck_queue:
  "SendReplyAck E a s = Some s' \<Longrightarrow> rp_queue s' = rp_queue s \<and> m_socketAddresses s' = m_socketAddresses s"
  by (auto simp: SendReplyAck_def lookup_eq Let_def bind_eq_Some_conv emit_def)

lemma finish_discovery_releases:
  "\<exists>route v. finish_discovery E dst e toDst s = SendPacketFromQueue E dst route v \<and> rp_queue v = rp_queue s"
  unfolding finish_discovery_def Let_def lookup_eq prod.case
  by (intro exI conjI, rule refl) (simp add: update_route_def)

lemma RecvReply_own:
  assumes "RrepHeader_Deserialize (wire E) (pk_bytes p) = Some (h, rest)"
    and "rp_dst h \<noteq> rp_origin h" and "IsMyOwnAddress (rp_origin h) s"
    and "RecvReply E p receiver sender s = Some s'"
  shows "\<exists>route v. s' = SendPacketFromQueue E (rp_dst h) route v \<and> rp_queue v = rp_queue s"
proof -
  define g where "g = h\<lparr>rp_hopCount := rp_hopCount h + 1\<rparr>"
  define new where "new = RoutingTableEntry_new (now E) (Some (recv_dev E receiver)) (rp_dst h) True
      (rp_dstSeqNo g) (recv_iface E receiver) (ucast (rp_hopCount h + 1)) sender (RrepHeader_GetLifeTime g)"
  define r where "r = route_of (purged E s) (rp_dst h)"
  have g: "rp_dst g = rp_dst h" "rp_origin g = rp_origin h" by (simp_all add: g_def)
  let ?ack = "\<lambda>v. if RrepHeader_GetAckRequired g
      then Option.bind (SendReplyAck E sender v) (\<lambda>s. Some (RrepHeader_SetAckRequired False g, s))
      else Some (g, v)"
  let ?rest = "\<lambda>(f, w). if IsMyOwnAddress (rp_origin f) w
      then Some (finish_discovery E (rp_dst h) new (into r (RoutingTableEntry_default E)) w)
      else forward_reply E (p\<lparr>pk_bytes := rest\<rparr>) f w"
  have "Option.bind (install_reply E g (rp_hopCount h + 1) new r (s\<lparr>m_routingTable := purged E s\<rparr>))
      (\<lambda>v. Option.bind (?ack v) ?rest) = Some s'"
    using assms(4)
    unfolding RecvReply_def assms(1) Option.bind_lunit Let_def split_beta fst_conv snd_conv
      g_def [symmetric] g lookup_eq new_def [symmetric] r_def [symmetric]
    by (simp add: assms(2))
  then obtain v fw where v: "install_reply E g (rp_hopCount h + 1) new r (s\<lparr>m_routingTable := purged E s\<rparr>) = Some v"
    and ack: "?ack v = Some fw" and s': "?rest fw = Some s'"
    by (auto simp only: bind_eq_Some_conv)
  obtain f w where fw: "fw = (f, w)" by fastforce
  have f: "rp_origin f = rp_origin h" and w: "w = v \<or> SendReplyAck E sender v = Some w"
    using ack g unfolding fw by (auto simp: RrepHeader_SetAckRequired_def bind_eq_Some_conv split: if_splits)
  have "rp_queue w = rp_queue s \<and> m_socketAddresses w = m_socketAddresses s"
    using install_reply_queue [OF v] w SendReplyAck_queue by fastforce
  with s' f assms(3) finish_discovery_releases [of E "rp_dst h" new "into r (RoutingTableEntry_default E)" w]
  show ?thesis unfolding fw by (auto simp: IsMyOwnAddress_def)
qed

text \<open>A packet that is bound to no device may go out over any.\<close>

lemma unbound_any_device:
  "pk_oif_tag (qe_packet x) = None \<or> pk_oif_tag (qe_packet x) = Some (- 1) \<Longrightarrow> \<not> wrong_device E x route"
  by (auto simp: wrong_device_def)

lemma reply_completes:
  assumes "rp_inv s" and "codec_ok (wire E)"
    and "pk_bytes p = TypeHeader_Serialize (TypeHeader_new MADAODVTYPE_RREP) @ RrepHeader_Serialize (wire E) h"
    and "RecvMadaodv E k p sender s = Some s'"
    and "rp_dst h \<noteq> rp_origin h" and "rp_dst h \<noteq> any_addr E" and "IsMyOwnAddress (rp_origin h) s"
    and "\<And>e. route_of (purged E s) (rp_dst h) = Some e \<Longrightarrow> m_flag e = IN_SEARCH"
    and "\<forall>x\<in>set (m_queue (rp_queue s)). pk_oif_tag (qe_packet x) = None \<or> pk_oif_tag (qe_packet x) = Some (- 1)"
  shows "(\<exists>e. route_of (m_routingTable s') (rp_dst h) = Some e \<and> m_flag e = VALID \<and> GetNextHop e = sender
            \<and> m_hops e = ucast (rp_hopCount h + 1) \<and> m_validSeqNo e \<and> m_seqNo e = rp_dstSeqNo h)
       \<and> (\<forall>x\<in>set (m_queue (rp_queue s')). qe_dst x \<noteq> rp_dst h)"
proof -
  obtain receiver where rep: "RecvReply E (p\<lparr>pk_bytes := RrepHeader_Serialize (wire E) h\<rparr>) receiver sender
      (UpdateRouteToNeighbor E sender receiver s) = Some s'"
    by (rule RecvMadaodv_dispatch [OF assms(3,4)]) simp
  let ?u = "UpdateRouteToNeighbor E sender receiver s"
  obtain T where u: "?u = s\<lparr>m_routingTable := T\<rparr>" using neighbor_update_frame by blast
  then have own: "IsMyOwnAddress (rp_origin h) ?u" using assms(7) by (simp add: IsMyOwnAddress_def)
  have search: "m_flag e = IN_SEARCH \<or> \<not> m_validSeqNo e" if "route_of (purged E ?u) (rp_dst h) = Some e" for e
    using neighbor_update_search [OF assms(1,8) that] .
  have "\<exists>e. route_of (m_routingTable s') (rp_dst h) = Some e
      \<and> route_core e = (True, rp_dstSeqNo h, ucast (rp_hopCount h + 1), sender, recv_iface E receiver, VALID)"
    using RecvReply_installs [OF good.I_UpdateRouteToNeighbor [OF assms(1)] assms(2) _ assms(5,6) rep, where rest = "[]"]
      own search
    by (cases "route_of (purged E ?u) (rp_dst h)") (auto simp: Let_def fresher_def)
  moreover have "\<forall>x\<in>set (m_queue (rp_queue s')). qe_dst x \<noteq> rp_dst h"
  proof -
    have "RrepHeader_Deserialize (wire E) (RrepHeader_Serialize (wire E) h) = Some (h, [])"
      using byte_order.rrep_des_ser [OF byte_orderI [OF assms(2)], of h "[]"] by simp
    then obtain route v where v: "s' = SendPacketFromQueue E (rp_dst h) route v" "rp_queue v = rp_queue s"
      using RecvReply_own [OF _ assms(5) own rep, of "[]"] u by auto
    have "\<forall>x\<in>set (m_queue (rp_queue v)). qe_dst x = rp_dst h \<longrightarrow> \<not> wrong_device E x route"
      using assms(9) v(2) unbound_any_device by auto
    from release_all [OF this] v(1) show ?thesis by (simp add: Let_def)
  qed
  ultimately show ?thesis by (auto simp: route_core_def)
qed

subsection \<open>The request reaches the neighbour\<close>

text \<open>The copies of a request in the log of the node that asks.\<close>

lemma request_copies:
  assumes "SendRequest E dst s = Some s'" and "m_rreqCount s \<noteq> m_rreqRateLimit (par s)"
    and "SchedSend d k m b \<in> set (drop (length (log s)) (log s'))"
  shows "\<exists>i h. (k, i) \<in> set (m_socketAddresses s)
     \<and> ct_bytes m = TypeHeader_Serialize (TypeHeader_new MADAODVTYPE_RREQ) @ RreqHeader_Serialize (wire E) h
     \<and> rq_dst h = dst \<and> rq_origin h = ia_local i \<and> rq_hopCount h = 0 \<and> rq_requestID h = m_requestId s'"
proof -
  from assms(1,2) have "ScheduleRreqRetry E dst (request_sent E dst s) = Some s'"
    by (simp add: SendRequest_eq)
  note frame = ScheduleRreqRetry_frame [OF this]
  let ?h = "request_header E dst s"
  have h: "rq_dst ?h = dst" "rq_hopCount ?h = 0" "rq_requestID ?h = m_requestId s + 1"
    by (simp_all add: request_header_def Let_def RreqHeader_new_def RreqHeader_SetUnknownSeqno_def
        RreqHeader_SetGratuitousRrep_def RreqHeader_SetDestinationOnly_def split: option.split)
  have id: "m_requestId s' = m_requestId s + 1" using frame by (simp add: request_sent_frame)
  have "log s' = log s @ map (\<lambda>(n, j). SchedSend (MilliSeconds (uniform E (draws s + n) 0 10)) (fst j)
            (rreq_packet E ?h (m_hops (searched E dst s)) (snd j)) (broadcast_destination E (snd j)))
          (enumerate 0 (m_socketAddresses s))"
    using frame by (simp add: request_sent_frame)
  with assms(3) obtain n j where j: "j \<in> set (m_socketAddresses s)" "k = fst j"
    "m = rreq_packet E ?h (m_hops (searched E dst s)) (snd j)"
    by (auto simp: in_set_enumerate_eq split_beta) (metis nth_mem)
  then show ?thesis
    using h id
    by (intro exI [of _ "snd j"] exI [of _ "?h\<lparr>rq_origin := ia_local (snd j)\<rparr>"])
      (simp add: rreq_packet_def control_packet_def)
qed

lemma no_blacklist_purged:
  "no_blacklist s \<Longrightarrow> route_of (purged E s) a = Some e \<Longrightarrow> \<not> m_blackListState e"
  using quiet.I_lookup [of s E a "route_of (purged E s) a"] by (auto simp: lookup_eq quiet_def)

subsection \<open>Handlers that do not stop\<close>

lemma RecvReply_own_total:
  assumes "RrepHeader_Deserialize (wire E) (pk_bytes p) = Some (h, rest)" and "rp_dst h \<noteq> rp_origin h"
    and "IsMyOwnAddress (rp_origin h) s" and "rp_flags h = 0"
    and "\<And>e. route_of (purged E s) (rp_dst h) = Some e \<Longrightarrow> \<not> m_validSeqNo e"
  shows "\<exists>s'. RecvReply E p receiver sender s = Some s'"
proof -
  have ack: "\<not> RrepHeader_GetAckRequired (h\<lparr>rp_hopCount := n\<rparr>)" for n
    using assms(4) by (simp add: RrepHeader_GetAckRequired_def get_flag_def)
  have own: "IsMyOwnAddress a (add_route E e u) = IsMyOwnAddress a u" "IsMyOwnAddress a (update_route e u) = IsMyOwnAddress a u"
    "IsMyOwnAddress a (u\<lparr>m_routingTable := T\<rparr>) = IsMyOwnAddress a u" for a e u T
    by (simp_all add: IsMyOwnAddress_def add_route_def update_route_def)
  show ?thesis
    using assms(2,3,5) ack
    by (cases "route_of (purged E s) (rp_dst h)")
      (simp_all add: RecvReply_def assms(1) Let_def lookup_eq install_reply_def accept_reply_def own)
qed

lemma RecvMadaodv_eq:
  assumes "pk_bytes p = TypeHeader_Serialize (TypeHeader_new t) @ body" and "receiver_of k s = Some receiver"
  shows "RecvMadaodv E k p sender s =
     (case t of
        MADAODVTYPE_RREQ \<Rightarrow> RecvRequest E (p\<lparr>pk_bytes := body\<rparr>) receiver sender (UpdateRouteToNeighbor E sender receiver s)
      | MADAODVTYPE_RREP \<Rightarrow> RecvReply E (p\<lparr>pk_bytes := body\<rparr>) receiver sender (UpdateRouteToNeighbor E sender receiver s)
      | MADAODVTYPE_RERR \<Rightarrow> RecvError E (p\<lparr>pk_bytes := body\<rparr>) sender (UpdateRouteToNeighbor E sender receiver s)
      | MADAODVTYPE_RREP_ACK \<Rightarrow> Some (RecvReplyAck E sender (UpdateRouteToNeighbor E sender receiver s)))"
  using assms by (simp add: RecvMadaodv_def type_des_ser TypeHeader_new_def Let_def)

lemma station_hears:
  assumes a: "a \<noteq> ip4 127 0 0 1" and "pk_bytes p = TypeHeader_Serialize (TypeHeader_new MADAODVTYPE_RREQ) @ RreqHeader_Serialize be_codec h"
    and src: "rq_origin h \<noteq> ip4 10 1 1 255" "rq_origin h \<noteq> ip4 127 0 0 1"
    and dst: "rq_dst h = a \<or> rq_dst h \<notin> {ip4 10 1 1 255, ip4 127 0 0 1, rq_origin h, src}"
    and times: "0 \<le> reverse_lifetime q (rq_hopCount h + 1)" "0 \<le> m_activeRouteTimeout q" "0 \<le> hello_lifetime q"
  shows "\<exists>s'. RecvMadaodv (station_env a) 0 p src (station q a) = Some s'"
proof -
  let ?E = "station_env a" and ?s = "station q a"
  let ?u = "UpdateRouteToNeighbor ?E src a ?s"
  have inv: "rp_inv ?s" by (rule reachable_inv [OF station_reachable])
  obtain T where u: "?u = ?s\<lparr>m_routingTable := T\<rparr>" using neighbor_update_frame by blast
  have "no_blacklist ?u" using reachable_no_blacklist [OF station_reachable] by (rule quiet.I_UpdateRouteToNeighbor)
  then have taken: "taken_up ?E h src ?u"
    using no_blacklist_purged by (auto simp: taken_up_def u station_fields [OF a] IdCache_seen_def simp del: One_nat_def)
  have own: "IsMyOwnAddress k ?u \<longleftrightarrow> k = a" for k
    using station_addresses(1) [OF a, of k q] by (simp add: u IsMyOwnAddress_def)
  have "\<exists>s'. RecvRequest ?E (p\<lparr>pk_bytes := RreqHeader_Serialize be_codec h\<rparr>) a src ?u = Some s'"
  proof (rule request_does_not_stop [OF good.I_UpdateRouteToNeighbor [OF inv] _ taken])
    show "RreqHeader_Deserialize (wire ?E) (pk_bytes (p\<lparr>pk_bytes := RreqHeader_Serialize be_codec h\<rparr>)) = Some (h, [])"
      using be.rreq_des_ser [of h "[]"] by simp
    show "s32_sub (rq_originSeqNo h) (m_seqNo e) \<noteq> None"
      if "route_of (purged ?E ?u) (rq_origin h) = Some e" "m_validSeqNo e" for e
      using neighbor_update_valid [OF inv _ that(1)] station_unknown [OF a src] that(2) by simp
    show "if IsMyOwnAddress (rq_dst h) ?u then FindSocketWithInterfaceAddress (recv_iface ?E a) ?u \<noteq> None
      else route_of (purged ?E ?u) (rq_dst h) = None \<and> rq_dst h \<noteq> rq_origin h \<and> rq_dst h \<noteq> src"
    proof (cases "rq_dst h = a")
      case True
      with station_addresses(2) [OF a, of q] show ?thesis
        by (simp add: own station_addresses(3) [OF a]) (auto simp: u FindSocketWithInterfaceAddress_def)
    next
      case False
      with dst have "route_of (purged ?E ?u) (rq_dst h) = None"
        using neighbor_update_purged [OF inv, of "rq_dst h" src ?E a] station_unknown [OF a, of "rq_dst h"] by simp
      with False dst show ?thesis by (simp add: own)
    qed
  qed (use times in \<open>simp_all add: u station_fields [OF a] lost_def del: One_nat_def\<close>)
  with station_addresses(4) [OF a, of q] assms(2) show ?thesis by (simp add: RecvMadaodv_eq)
qed

lemma example_times:
  "uint n \<le> 70 \<Longrightarrow> 0 \<le> reverse_lifetime example_params n" "0 \<le> m_activeRouteTimeout example_params"
  "0 \<le> hello_lifetime example_params"
  by (simp_all add: reverse_lifetime_def hello_lifetime_def example_params_def initial_params_def Let_def time_units)

end
