(* ===== verification/Chain_Props.thy ===== *)
theory Chain_Props
  imports Network_Props
begin

text \<open>
  A request and its reply over a path of any number of agents: every agent on the way learns a route
  back to the originator from the request and a route on to the destination from the reply, and each
  route leads to the agent the message came from.
\<close>

subsection \<open>The request at an agent\<close>

text \<open>Answered or passed on, a request leaves a route back to its originator.\<close>

lemma fold_forward_rreq_table:
  "m_routingTable (fold (forward_rreq_on E h ttl) js s) = m_routingTable s"
  by (induction js arbitrary: s)
    (simp_all add: forward_rreq_on_def schedule_send_def jitter_def draw_def emit_def Let_def split_beta)

lemma RecvRequest_reaches:
  assumes "rp_inv s" and "RreqHeader_Deserialize (wire E) (pk_bytes p) = Some (h, rest)" and "taken_up E h src s"
    and "0 \<le> reverse_lifetime (par s) (rq_hopCount h + 1)" and "0 \<le> m_activeRouteTimeout (par s)"
    and "IsMyOwnAddress (rq_dst h) s
      \<or> route_of (purged E s) (rq_dst h) = None \<and> rq_dst h \<noteq> rq_origin h \<and> rq_dst h \<noteq> src"
    and "RecvRequest E p receiver src s = Some s'"
  shows "reaches E (rq_origin h)
    (src, recv_iface E receiver, if rq_origin h = src then 1 else ucast (rq_hopCount h + 1)) s'"
proof -
  from taken_up_runs [OF assms(2,3,7)] obtain c toOrigin s1 where
    prep: "request_prepared E (next_hop h) receiver src
        (s\<lparr>m_routingTable := purged E s, m_rreqIdCache := c\<rparr>) = Some (toOrigin, s1)"
    and ans: "(if IsMyOwnAddress (rq_dst h) s1
       then (case lookup E (rq_origin h) s1 of
               (r, s) \<Rightarrow> SendReply E (next_hop h) (into r toOrigin) s)
       else answer_or_forward E (p\<lparr>pk_bytes := rest\<rparr>) (next_hop h) toOrigin src s1) = Some s'"
    by metis
  let ?s = "s\<lparr>m_routingTable := purged E s, m_rreqIdCache := c\<rparr>"
  have keyed: "entries_all keyed (m_routingTable ?s)" "0 \<le> m_badLinkLifetime (m_routingTable ?s)"
    using assms(1) keyed_purged [OF keyed_table [OF assms(1)], of E] by (simp_all add: rp_inv_def)
  from prepared_reaches [OF keyed _ _ prep] assms(4,5)
  have "reaches E (rq_origin h) (src, recv_iface E receiver,
      if rq_origin h = src then 1 else ucast (rq_hopCount h + 1)) s1"
    by (simp cong: if_cong)
  note kept = reaches_purged [OF this, THEN reaches_table]
  from prepared_reported [OF prep] have "m_socketAddresses s1 = m_socketAddresses s" by (simp add: reported_def)
  then have own: "IsMyOwnAddress (rq_dst h) s1 = IsMyOwnAddress (rq_dst h) s" by (simp add: IsMyOwnAddress_def)
  show ?thesis
  proof (cases "IsMyOwnAddress (rq_dst h) s")
    case True
    with ans own show ?thesis
      by (intro kept) (auto simp: lookup_eq SendReply_def Let_def bind_eq_Some_conv emit_def)
  next
    case False
    have "unknown (rq_dst h) ?s" using False assms(6) keyed by (simp add: unknown_def)
    from prepared_unknown [OF this _ _ prep] False assms(6) have "unknown (rq_dst h) s1" by simp
    from unknown_purged [OF this] have "route_of (purged E s1) (rq_dst h) = None" by (simp add: unknown_def)
    with ans own False have "s' = forward_rreq E (p\<lparr>pk_bytes := rest\<rparr>) (next_hop h) (s1\<lparr>m_routingTable := purged E s1\<rparr>)"
      by (simp add: answer_or_forward_def lookup_eq)
    then show ?thesis by (intro kept) (simp add: forward_rreq_def fold_forward_rreq_table)
  qed
qed

subsection \<open>Receptions\<close>

text \<open>A message received by an agent: the environment, the socket, the packet and its sender, and the
  agent before and after.\<close>

record reception =
  rx_env :: ns3
  rx_sock :: sock
  rx_packet :: packet
  rx_sender :: ipv4
  rx_before :: rp
  rx_after :: rp

definition received :: "codec \<Rightarrow> reception \<Rightarrow> bool" where
  "received C x \<longleftrightarrow>
     wire (rx_env x) = C \<and> (\<exists>f p t. reachable C f p t (rx_before x)) \<and>
     RecvMadaodv (rx_env x) (rx_sock x) (rx_packet x) (rx_sender x) (rx_before x) = Some (rx_after x)"

text \<open>What the agent sent on it.\<close>

definition sent :: "reception \<Rightarrow> effect list" where
  "sent x = drop (length (log (rx_before x))) (log (rx_after x))"

abbreviation rreq_bytes :: "codec \<Rightarrow> RreqHeader \<Rightarrow> u8 list" where
  "rreq_bytes C h \<equiv> TypeHeader_Serialize (TypeHeader_new MADAODVTYPE_RREQ) @ RreqHeader_Serialize C h"

abbreviation rrep_bytes :: "codec \<Rightarrow> RrepHeader \<Rightarrow> u8 list" where
  "rrep_bytes C g \<equiv> TypeHeader_Serialize (TypeHeader_new MADAODVTYPE_RREP) @ RrepHeader_Serialize C g"

lemma message_kinds:
  assumes "codec_ok C"
  shows "rreq_bytes C h = rreq_bytes C h' \<Longrightarrow> h = h'" "rrep_bytes C g = rrep_bytes C g' \<Longrightarrow> g = g'"
    "rreq_bytes C h \<noteq> rrep_bytes C g" "error_message C (rreq_bytes C h) \<Longrightarrow> False"
    "error_message C (rrep_bytes C g) \<Longrightarrow> False"
proof -
  have octet: "TypeHeader_Serialize (TypeHeader_new t) = TypeHeader_Serialize (TypeHeader_new t') \<longleftrightarrow> t = t'"
    "length (TypeHeader_Serialize (TypeHeader_new t)) = 1" for t t'
    by (cases t; cases t'; simp add: TypeHeader_Serialize_def TypeHeader_new_def)+
  note parse = byte_order.rreq_des_ser [OF byte_orderI [OF assms], of _ "[]"]
    byte_order.rrep_des_ser [OF byte_orderI [OF assms], of _ "[]"]
  show "rreq_bytes C h = rreq_bytes C h' \<Longrightarrow> h = h'" using parse(1) [of h] parse(1) [of h'] by simp
  show "rrep_bytes C g = rrep_bytes C g' \<Longrightarrow> g = g'" using parse(2) [of g] parse(2) [of g'] by simp
  show "rreq_bytes C h \<noteq> rrep_bytes C g" "error_message C (rreq_bytes C h) \<Longrightarrow> False"
    "error_message C (rrep_bytes C g) \<Longrightarrow> False"
    by (auto simp: octet error_message_def append_eq_append_conv)
qed

text \<open>\<open>x\<close> is the reception of a copy of the request \<open>h\<close> that was scheduled among \<open>es\<close> on one of the
  sockets \<open>socks\<close>; the sender is that socket's address.\<close>

definition request_heard ::
  "codec \<Rightarrow> effect list \<Rightarrow> (sock \<times> iface) list \<Rightarrow> RreqHeader \<Rightarrow> reception \<Rightarrow> bool" where
  "request_heard C es socks h x \<longleftrightarrow>
     (\<exists>d k m b i. SchedSend d k m b \<in> set es \<and> (k, i) \<in> set socks \<and> ct_bytes m = rreq_bytes C h \<and>
        pk_bytes (rx_packet x) = ct_bytes m \<and> pk_ttl_tag (rx_packet x) = Some (ct_ttl m) \<and>
        rx_sender x = ia_local i)"

lemma request_heardI:
  "SchedSend d k m b \<in> set es \<Longrightarrow> (k, i) \<in> set socks \<Longrightarrow> ct_bytes m = rreq_bytes C h \<Longrightarrow>
   pk_bytes (rx_packet x) = ct_bytes m \<Longrightarrow> pk_ttl_tag (rx_packet x) = Some (ct_ttl m) \<Longrightarrow> rx_sender x = ia_local i \<Longrightarrow>
   request_heard C es socks h x"
  unfolding request_heard_def by blast

text \<open>The request is new to the agent, and its lifetimes are sane.\<close>

definition request_new :: "RreqHeader \<Rightarrow> reception \<Rightarrow> bool" where
  "request_new h x \<longleftrightarrow>
     IdCache_seen (now (rx_env x)) (m_rreqIdCache (rx_before x)) (rq_origin h, rq_requestID h) = None \<and>
     0 \<le> reverse_lifetime (par (rx_before x)) (rq_hopCount h + 1) \<and> 0 \<le> m_activeRouteTimeout (par (rx_before x))"

text \<open>What all request receptions have in common.\<close>

lemma request_enters:
  assumes "received C x" and "codec_ok C" and "request_heard C es socks h x" and "request_new h x"
  obtains p receiver u where "u = UpdateRouteToNeighbor (rx_env x) (rx_sender x) receiver (rx_before x)"
    "rp_inv u" "taken_up (rx_env x) h (rx_sender x) u" "pk_bytes p = RreqHeader_Serialize C h @ []"
    "ttl_of (rx_env x) p = ttl_of (rx_env x) (rx_packet x)"
    "RecvRequest (rx_env x) p receiver (rx_sender x) u = Some (rx_after x)"
    "par u = par (rx_before x)" "m_socketAddresses u = m_socketAddresses (rx_before x)"
    "log u = log (rx_before x)" "rp_seqNo u = rp_seqNo (rx_before x)"
    "receiver_of (rx_sock x) (rx_before x) = Some receiver"
proof -
  have rx: "RecvMadaodv (rx_env x) (rx_sock x) (rx_packet x) (rx_sender x) (rx_before x) = Some (rx_after x)"
    and inv: "rp_inv (rx_before x)" "no_blacklist (rx_before x)"
    using assms(1) reachable_inv reachable_no_blacklist by (auto simp: received_def)
  have bytes: "pk_bytes (rx_packet x) = rreq_bytes C h" using assms(3) by (auto simp: request_heard_def)
  obtain receiver where to: "receiver_of (rx_sock x) (rx_before x) = Some receiver"
    and r: "RecvRequest (rx_env x) ((rx_packet x)\<lparr>pk_bytes := RreqHeader_Serialize C h\<rparr>) receiver
      (rx_sender x) (UpdateRouteToNeighbor (rx_env x) (rx_sender x) receiver (rx_before x)) = Some (rx_after x)"
    by (rule RecvMadaodv_dispatch [OF bytes rx]) simp
  let ?u = "UpdateRouteToNeighbor (rx_env x) (rx_sender x) receiver (rx_before x)"
  obtain T where u: "?u = (rx_before x)\<lparr>m_routingTable := T\<rparr>" using neighbor_update_frame by blast
  have "no_blacklist ?u" using inv(2) by (rule quiet.I_UpdateRouteToNeighbor)
  then have "taken_up (rx_env x) h (rx_sender x) ?u"
    using assms(4) no_blacklist_purged by (auto simp: taken_up_def u request_new_def)
  with that [OF refl good.I_UpdateRouteToNeighbor [OF inv(1)] _ _ _ r] to show ?thesis by (simp add: u)
qed

lemma found_socket: "FindSocketWithInterfaceAddress i s = Some k \<Longrightarrow> k \<in> fst ` set (m_socketAddresses s)"
  by (auto simp: FindSocketWithInterfaceAddress_def find_Some_iff) (metis fst_conv image_eqI nth_mem)

lemma request_at_destination:
  assumes "received C x" and "codec_ok C" and "request_heard C es socks h x" and "request_new h x"
    and "IsMyOwnAddress (rq_dst h) (rx_before x)"
  shows "(\<exists>i. reaches (rx_env x) (rq_origin h) (rx_sender x, i,
            if rq_origin h = rx_sender x then 1 else ucast (rq_hopCount h + 1)) (rx_after x))
       \<and> (\<exists>es k g. sent x = es @ [SockSend k (rrep_packet (rx_env x)
              (if rq_origin h = rx_sender x then 1 else ucast (rq_hopCount h + 1)) g) (rx_sender x)]
            \<and> k \<in> fst ` set (m_socketAddresses (rx_before x)) \<and> (\<forall>e\<in>set es. error_report C e) \<and> rp_dst g = rq_dst h \<and> rp_origin g = rq_origin h
            \<and> rp_hopCount g = 0 \<and> rp_dstSeqNo g = rp_seqNo (rx_after x) \<and> rp_flags g = 0)"
proof -
  from assms(1) have wire: "wire (rx_env x) = C" by (simp add: received_def)
  from assms(1-4) obtain p receiver u where u: "rp_inv u" "taken_up (rx_env x) h (rx_sender x) u"
    "pk_bytes p = RreqHeader_Serialize C h @ []"
    "RecvRequest (rx_env x) p receiver (rx_sender x) u = Some (rx_after x)"
    "par u = par (rx_before x)" "m_socketAddresses u = m_socketAddresses (rx_before x)"
    "log u = log (rx_before x)"
    by (rule request_enters)
  from assms(4) u(5) have times: "0 \<le> reverse_lifetime (par u) (rq_hopCount h + 1)" "0 \<le> m_activeRouteTimeout (par u)"
    by (simp_all add: request_new_def)
  have own: "IsMyOwnAddress (rq_dst h) u" using assms(5) u(6) by (simp add: IsMyOwnAddress_def)
  have parse: "RreqHeader_Deserialize (wire (rx_env x)) (pk_bytes p) = Some (h, [])"
    using byte_order.rreq_des_ser [OF byte_orderI [OF assms(2)], of h "[]"] u(3) wire by simp
  let ?hops = "if rq_origin h = rx_sender x then 1 else ucast (rq_hopCount h + 1) :: u16"
  let ?g = "RrepHeader_new (rx_env x) 0 0 (rq_dst h) (rp_seqNo (rx_after x)) (rq_origin h) (m_myRouteTimeout (par u))"
  from RecvRequest_answers [OF u(1) _ _ u(2) own times u(4), of "[]"] wire assms(2) u(3)
  obtain es k where k: "FindSocketWithInterfaceAddress (recv_iface (rx_env x) receiver) u = Some k"
    and es: "\<forall>e\<in>set es. error_report C e"
    "log (rx_after x) = log u @ es @ [SockSend k (rrep_packet (rx_env x) ?hops ?g) (rx_sender x)]"
    by (simp only: Let_def) blast
  from es(2) have "sent x = es @ [SockSend k (rrep_packet (rx_env x) ?hops ?g) (rx_sender x)]"
    by (simp add: sent_def u(7))
  moreover have "rp_dst ?g = rq_dst h" "rp_origin ?g = rq_origin h" "rp_hopCount ?g = 0"
    "rp_dstSeqNo ?g = rp_seqNo (rx_after x)" "rp_flags ?g = 0"
    by (simp_all add: RrepHeader_new_def)
  ultimately show ?thesis
    using es(1) RecvRequest_reaches [OF u(1) parse u(2) times _ u(4)] own found_socket [OF k] u(6) by auto
qed

lemma request_on_the_way:
  assumes "received C x" and "codec_ok C" and "request_heard C es socks h x" and "request_new h x"
    and "\<not> IsMyOwnAddress (rq_dst h) (rx_before x)" and "rq_dst h \<noteq> rq_origin h" "rq_dst h \<noteq> rx_sender x"
    and "route_of (purged (rx_env x) (rx_before x)) (rq_dst h) = None"
  shows "(\<exists>i. reaches (rx_env x) (rq_origin h) (rx_sender x, i,
            if rq_origin h = rx_sender x then 1 else ucast (rq_hopCount h + 1)) (rx_after x))
       \<and> (\<exists>es d. (\<forall>e\<in>set es. error_report C e)
            \<and> sent x = es @ (if ttl_of (rx_env x) (rx_packet x) < 2 then []
                 else rreq_copies (rx_env x) (next_hop h) (ttl_of (rx_env x) (rx_packet x) - 1) d
                        (m_socketAddresses (rx_before x))))"
proof -
  from assms(1) have wire: "wire (rx_env x) = C" and inv: "rp_inv (rx_before x)"
    using reachable_inv by (auto simp: received_def)
  from assms(1-4) obtain p receiver u where
    eq: "u = UpdateRouteToNeighbor (rx_env x) (rx_sender x) receiver (rx_before x)"
    and u: "rp_inv u" "taken_up (rx_env x) h (rx_sender x) u" "pk_bytes p = RreqHeader_Serialize C h @ []"
    "RecvRequest (rx_env x) p receiver (rx_sender x) u = Some (rx_after x)"
    "par u = par (rx_before x)" "m_socketAddresses u = m_socketAddresses (rx_before x)"
    "log u = log (rx_before x)" "ttl_of (rx_env x) p = ttl_of (rx_env x) (rx_packet x)"
    by (rule request_enters)
  from assms(4) u(5) have times: "0 \<le> reverse_lifetime (par u) (rq_hopCount h + 1)" "0 \<le> m_activeRouteTimeout (par u)"
    by (simp_all add: request_new_def)
  have own: "\<not> IsMyOwnAddress (rq_dst h) u" using assms(5) u(6) by (simp add: IsMyOwnAddress_def)
  have none: "route_of (purged (rx_env x) u) (rq_dst h) = None"
    unfolding eq neighbor_update_purged [OF inv assms(7)] by (rule assms(8))
  have parse: "RreqHeader_Deserialize (wire (rx_env x)) (pk_bytes p) = Some (h, [])"
    using byte_order.rreq_des_ser [OF byte_orderI [OF assms(2)], of h "[]"] u(3) wire by simp
  from RecvRequest_passes_on [OF u(1) _ _ u(2) own none assms(6,7) u(4), of "[]", folded next_hop_def] wire assms(2) u(3)
  obtain es d where es: "\<forall>e\<in>set es. error_report C e"
    "log (rx_after x) = log u @ es @ (if ttl_of (rx_env x) p < 2 then []
       else rreq_copies (rx_env x) (next_hop h) (ttl_of (rx_env x) p - 1) d (m_socketAddresses u))"
    by blast
  from es(2) have "sent x = es @ (if ttl_of (rx_env x) (rx_packet x) < 2 then []
      else rreq_copies (rx_env x) (next_hop h) (ttl_of (rx_env x) (rx_packet x) - 1) d
        (m_socketAddresses (rx_before x)))"
    by (simp add: sent_def u(6-8))
  with es(1) RecvRequest_reaches [OF u(1) parse u(2) times _ u(4)] none assms(6,7) show ?thesis
    by blast
qed

subsection \<open>The way of the request\<close>

text \<open>One reception after the other: each agent hears the request from the one before, the first from
  the originator. No agent has seen it or owns the originator's address; those on the way know nothing
  of the destination, and the last one is the destination.\<close>

fun request_path ::
  "codec \<Rightarrow> ipv4 \<Rightarrow> ipv4 \<Rightarrow> effect list \<Rightarrow> (sock \<times> iface) list \<Rightarrow> reception list \<Rightarrow> bool"
where
  "request_path C orig dst es socks [] = False"
| "request_path C orig dst es socks (x # xs) =
     (received C x \<and> (\<exists>h. request_heard C es socks h x \<and> request_new h x) \<and>
      \<not> IsMyOwnAddress orig (rx_before x) \<and>
      (if xs = [] then IsMyOwnAddress dst (rx_before x)
       else \<not> IsMyOwnAddress dst (rx_before x) \<and>
            route_of (purged (rx_env x) (rx_before x)) dst = None \<and>
            request_path C orig dst (sent x) (m_socketAddresses (rx_before x)) xs))"

text \<open>All requests among \<open>es\<close> are the one that travels, after \<open>n\<close> hops.\<close>

definition request_after :: "codec \<Rightarrow> ipv4 \<Rightarrow> ipv4 \<Rightarrow> nat \<Rightarrow> effect list \<Rightarrow> (sock \<times> iface) list \<Rightarrow> bool" where
  "request_after C orig dst n es socks \<longleftrightarrow>
     (\<forall>d k m b i h. SchedSend d k m b \<in> set es \<longrightarrow> (k, i) \<in> set socks \<longrightarrow> ct_bytes m = rreq_bytes C h \<longrightarrow>
        rq_dst h = dst \<and> rq_hopCount h = of_nat n \<and> rq_origin h = (if n = 0 then ia_local i else orig)) \<and>
     (\<forall>j\<in>set socks. ia_local (snd j) \<noteq> dst \<and> (n \<noteq> 0 \<longrightarrow> ia_local (snd j) \<noteq> orig))"

lemma request_heard_header:
  assumes "request_after C orig dst n es socks" and "request_heard C es socks h x"
    and "n = 0 \<longrightarrow> rx_sender x = orig"
  shows "rq_dst h = dst \<and> rq_hopCount h = of_nat n \<and> rq_origin h = orig \<and> rx_sender x \<noteq> dst
    \<and> (rq_origin h = rx_sender x \<longleftrightarrow> n = 0)"
proof -
  from assms(2) obtain d k m b i where *: "SchedSend d k m b \<in> set es" "(k, i) \<in> set socks"
    "ct_bytes m = rreq_bytes C h" "rx_sender x = ia_local i"
    by (auto simp: request_heard_def)
  with assms(1) have "rq_dst h = dst \<and> rq_hopCount h = of_nat n \<and> rq_origin h = (if n = 0 then ia_local i else orig)"
    "ia_local i \<noteq> dst \<and> (n \<noteq> 0 \<longrightarrow> ia_local i \<noteq> orig)"
    unfolding request_after_def by (blast, fastforce)
  with assms(3) *(4) show ?thesis by auto
qed

lemma rreq_copies_bytes:
  "SchedSend d k m b \<in> set (rreq_copies E h ttl c js) \<Longrightarrow> ct_bytes m = rreq_bytes (wire E) h"
  by (auto simp: rreq_copies_def control_packet_def)

lemma request_after_passed_on:
  assumes "codec_ok C" "wire (rx_env x) = C"
    and "rq_dst h = dst" "rq_hopCount h = of_nat n" "rq_origin h = orig"
    and "\<not> IsMyOwnAddress orig (rx_before x)" "\<not> IsMyOwnAddress dst (rx_before x)"
    and "\<forall>e\<in>set es. error_report C e"
    and "sent x = es @ (if b then [] else rreq_copies (rx_env x) (next_hop h) ttl d (m_socketAddresses (rx_before x)))"
  shows "request_after C orig dst (Suc n) (sent x) (m_socketAddresses (rx_before x))"
proof -
  have "h' = next_hop h" if "SchedSend t k m c \<in> set (sent x)" "ct_bytes m = rreq_bytes C h'" for t k m c h'
  proof (cases "SchedSend t k m c \<in> set es")
    case True
    with assms(8) that(2) have "error_message C (rreq_bytes C h')" by fastforce
    then show ?thesis using message_kinds(4) [OF assms(1)] by blast
  next
    case False
    with that(1) assms(9) have "SchedSend t k m c \<in> set (rreq_copies (rx_env x) (next_hop h) ttl d
        (m_socketAddresses (rx_before x)))"
      by (auto split: if_splits)
    from rreq_copies_bytes [OF this] that(2) assms(2) message_kinds(1) [OF assms(1)] show ?thesis by simp
  qed
  moreover have "rq_dst (next_hop h) = dst" "rq_hopCount (next_hop h) = of_nat (Suc n)" "rq_origin (next_hop h) = orig"
    using assms(3-5) by (simp_all add: next_hop_def)
  ultimately show ?thesis
    using assms(6,7) unfolding request_after_def IsMyOwnAddress_def by fastforce
qed

lemma hop_as_nat:
  assumes "Suc n < 256"
  shows "ucast (of_nat n + 1 :: u8) = (of_nat (Suc n) :: u16)"
proof -
  have "of_nat n + 1 = (of_nat (Suc n) :: u8)" by simp
  moreover have "(ucast (of_nat (Suc n) :: u8) :: u16) = of_nat (Suc n)"
    using assms by (simp add: unsigned_of_nat take_bit_nat_eq_self del: of_nat_Suc)
  ultimately show ?thesis by (simp only:)
qed

lemma hops_as_nat:
  "Suc n < 256 \<Longrightarrow> (if n = 0 then 1 else ucast (of_nat n + 1 :: u8)) = (of_nat (Suc n) :: u16)"
  using hop_as_nat [of n] by (simp only: split: if_split) simp

lemma request_path_routes:
  assumes "codec_ok C" and "orig \<noteq> dst"
    and "request_path C orig dst es socks xs" and "request_after C orig dst n es socks"
    and "n = 0 \<longrightarrow> rx_sender (hd xs) = orig" and "n + length xs < 256"
  shows "(\<forall>j<length xs. \<exists>i. reaches (rx_env (xs ! j)) orig (rx_sender (xs ! j), i, of_nat (n + Suc j)) (rx_after (xs ! j)))
       \<and> (\<exists>es k g. sent (last xs) = es @ [SockSend k (rrep_packet (rx_env (last xs)) (of_nat (n + length xs)) g)
              (rx_sender (last xs))]
            \<and> (\<forall>e\<in>set es. error_report C e) \<and> rp_dst g = dst \<and> rp_origin g = orig
            \<and> rp_hopCount g = 0 \<and> rp_dstSeqNo g = rp_seqNo (rx_after (last xs)) \<and> rp_flags g = 0)"
  using assms(3-6)
proof (induction xs arbitrary: es socks n)
  case Nil
  then show ?case by simp
next
  case (Cons x xs)
  from Cons.prems(1) obtain h where rx: "received C x" and h: "request_heard C es socks h x" "request_new h x"
    and own: "\<not> IsMyOwnAddress orig (rx_before x)"
    by auto
  from Cons.prems(3) have first: "n = 0 \<longrightarrow> rx_sender x = orig" by simp
  note hd = request_heard_header [OF Cons.prems(2) h(1) first]
  have hops: "(if rq_origin h = rx_sender x then 1 else ucast (rq_hopCount h + 1)) = (of_nat (Suc n) :: u16)"
  proof -
    have "Suc n < 256" using Cons.prems(4) by simp
    moreover have "rq_hopCount h = of_nat n" "(rq_origin h = rx_sender x) = (n = 0)" using hd by auto
    ultimately show ?thesis by (simp only: hops_as_nat)
  qed
  show ?case
  proof (cases "xs = []")
    case True
    with Cons.prems(1) hd have "IsMyOwnAddress (rq_dst h) (rx_before x)" by simp
    from request_at_destination [OF rx assms(1) h this] hd True show ?thesis
      unfolding hops by auto
  next
    case False
    with Cons.prems(1) have way: "\<not> IsMyOwnAddress dst (rx_before x)"
      "route_of (purged (rx_env x) (rx_before x)) dst = None"
      "request_path C orig dst (sent x) (m_socketAddresses (rx_before x)) xs"
      by simp_all
    with hd assms(2) have "\<not> IsMyOwnAddress (rq_dst h) (rx_before x)" "rq_dst h \<noteq> rq_origin h" "rq_dst h \<noteq> rx_sender x"
      "route_of (purged (rx_env x) (rx_before x)) (rq_dst h) = None"
      by auto
    from request_on_the_way [OF rx assms(1) h this] obtain i es' d where
      r: "reaches (rx_env x) orig (rx_sender x, i, of_nat (Suc n)) (rx_after x)"
      and s: "\<forall>e\<in>set es'. error_report C e"
        "sent x = es' @ (if ttl_of (rx_env x) (rx_packet x) < 2 then []
           else rreq_copies (rx_env x) (next_hop h) (ttl_of (rx_env x) (rx_packet x) - 1) d
                  (m_socketAddresses (rx_before x)))"
      using hd unfolding hops by auto
    from rx have "wire (rx_env x) = C" by (simp add: received_def)
    from request_after_passed_on [OF assms(1) this _ _ _ own way(1) s] hd
    have "request_after C orig dst (Suc n) (sent x) (m_socketAddresses (rx_before x))" by blast
    from Cons.IH [OF way(3) this] Cons.prems(4) r False show ?thesis
      by (auto simp: nth_Cons simp del: of_nat_Suc split: nat.split)
  qed
qed

subsection \<open>The reply at an agent\<close>

lemma table_edits:
  "\<exists>T. lookup E i s = (route_of (purged E s) i, s\<lparr>m_routingTable := T\<rparr>)"
  "\<exists>T. insert_precursor_at E a i s = s\<lparr>m_routingTable := T\<rparr>"
  by (auto simp: lookup_eq insert_precursor_at_def update_route_def)

lemma update_precursors_frame: "\<exists>T. update_precursors E toDst toOrigin s = s\<lparr>m_routingTable := T\<rparr>"
proof -
  obtain T1 where 1: "insert_precursor_at E (GetNextHop toDst) (GetNextHop toOrigin)
      (update_route (snd (InsertPrecursor (GetNextHop toOrigin) toDst)) s) = s\<lparr>m_routingTable := T1\<rparr>"
    using table_edits(2) [of E "GetNextHop toDst" "GetNextHop toOrigin"
        "update_route (snd (InsertPrecursor (GetNextHop toOrigin) toDst)) s"]
    by (auto simp: update_route_def)
  have nh: "GetNextHop (snd (InsertPrecursor i e)) = GetNextHop e" for i e
    by (simp add: InsertPrecursor_def)
  show ?thesis
    using table_edits(2) [of E "GetNextHop toOrigin" "GetNextHop toDst"
        "update_route (snd (InsertPrecursor (GetNextHop toDst) toOrigin)) (s\<lparr>m_routingTable := T1\<rparr>)"]
    by (auto simp: update_precursors_def Let_def 1 nh) (simp add: update_route_def, blast)
qed

lemma forward_reply_eq:
  assumes "stands E (rp_origin h) e s" and "m_flag e = VALID"
  shows "\<exists>T. forward_reply E p h s =
     (if ttl_of E p < 2 then Some (s\<lparr>m_routingTable := T\<rparr>)
      else map_option (\<lambda>k. emit (SockSend k (rrep_packet E (ucast (ttl_of E p - 1)) h) (GetNextHop e)) (s\<lparr>m_routingTable := T\<rparr>))
             (FindSocketWithInterfaceAddress (m_iface e) s))"
proof -
  let ?u = "s\<lparr>m_routingTable := purged E s\<rparr>"
  have l: "lookup E (rp_origin h) s = (Some e, ?u)"
    using stands_purged [OF assms(1)] by (simp add: stands_def lookup_eq)
  define toOrigin where "toOrigin = SetLifeTime (now E)
      (max (m_activeRouteTimeout (par ?u)) (GetLifeTime (now E) e)) e"
  have o: "m_iface toOrigin = m_iface e" "GetNextHop toOrigin = GetNextHop e"
    by (simp_all add: toOrigin_def SetLifeTime_def)
  define v where "v = update_route toOrigin ?u"
  define x where "x = (case lookup_valid E (rp_dst h) v of
      (True, Some toDst, s) \<Rightarrow> update_precursors E toDst toOrigin s | (_, _, s) \<Rightarrow> s)"
  have "\<exists>T. v = s\<lparr>m_routingTable := T\<rparr>" by (simp add: v_def update_route_def) blast
  moreover have "\<exists>T. x = v\<lparr>m_routingTable := T\<rparr>"
  proof -
    have upd: "\<exists>T'. update_precursors E d toOrigin (v\<lparr>m_routingTable := T\<rparr>) = v\<lparr>m_routingTable := T'\<rparr>" for d T
      using update_precursors_frame [of E d toOrigin "v\<lparr>m_routingTable := T\<rparr>"] by simp
    consider "x = v\<lparr>m_routingTable := purged E v\<rparr>"
      | d where "x = update_precursors E d toOrigin (v\<lparr>m_routingTable := purged E v\<rparr>)"
      by (cases "route_of (purged E v) (rp_dst h)"; cases "m_flag (the (route_of (purged E v) (rp_dst h))) = VALID")
        (auto simp: x_def lookup_valid_eq lookup_eq)
    then show ?thesis
      by cases (blast, use upd in blast)
  qed
  ultimately obtain T where x: "x = s\<lparr>m_routingTable := T\<rparr>" by auto
  have sock: "FindSocketWithInterfaceAddress i x = FindSocketWithInterfaceAddress i s" for i
    by (simp add: x FindSocketWithInterfaceAddress_def)
  have "forward_reply E p h s = (if ttl_of E p < 2 then Some x
      else do {
        socket \<leftarrow> FindSocketWithInterfaceAddress (m_iface toOrigin) x;
        Some (emit (SockSend socket (rrep_packet E (ucast (ttl_of E p - 1)) h) (GetNextHop toOrigin)) x)
      })"
    using assms(2)
    unfolding forward_reply_def l prod.case option.case Let_def toOrigin_def [symmetric] v_def [symmetric]
      x_def [symmetric]
    by simp
  then show ?thesis
    unfolding o sock by (intro exI [of _ T]) (simp add: x split: Option.bind_split)
qed

text \<open>A reply that asks for no acknowledgement, at an agent that did not send the request and has a
  valid route to the one that did.\<close>

lemma RecvReply_to_forward:
  assumes "RrepHeader_Deserialize (wire E) (pk_bytes p) = Some (h, rest)"
    and "rp_dst h \<noteq> rp_origin h" and "\<not> IsMyOwnAddress (rp_origin h) s" and "rp_flags h = 0"
    and "stands E (rp_origin h) e s"
  obtains r new where "RecvReply E p receiver sender s =
      Option.bind (install_reply E (h\<lparr>rp_hopCount := rp_hopCount h + 1\<rparr>) (rp_hopCount h + 1) new r (s\<lparr>m_routingTable := purged E s\<rparr>))
        (forward_reply E (p\<lparr>pk_bytes := rest\<rparr>) (h\<lparr>rp_hopCount := rp_hopCount h + 1\<rparr>))"
    "r = route_of (purged E s) (rp_dst h)"
    "\<And>v. install_reply E (h\<lparr>rp_hopCount := rp_hopCount h + 1\<rparr>) (rp_hopCount h + 1) new r (s\<lparr>m_routingTable := purged E s\<rparr>) = Some v \<Longrightarrow>
      stands E (rp_origin h) e v \<and> m_socketAddresses v = m_socketAddresses s \<and> log v = log s"
proof -
  define g where "g = h\<lparr>rp_hopCount := rp_hopCount h + 1\<rparr>"
  define new where "new = RoutingTableEntry_new (now E) (Some (recv_dev E receiver)) (rp_dst h) True
      (rp_dstSeqNo g) (recv_iface E receiver) (ucast (rp_hopCount h + 1)) sender (RrepHeader_GetLifeTime g)"
  define r where "r = route_of (purged E s) (rp_dst h)"
  have g: "rp_dst g = rp_dst h" "rp_origin g = rp_origin h" by (simp_all add: g_def)
  have ack: "\<not> RrepHeader_GetAckRequired g"
    using assms(4) by (simp add: g_def RrepHeader_GetAckRequired_def get_flag_def)
  let ?u = "s\<lparr>m_routingTable := purged E s\<rparr>"
  have recv: "RecvReply E p receiver sender s = Option.bind (install_reply E g (rp_hopCount h + 1) new r ?u)
      (\<lambda>v. if IsMyOwnAddress (rp_origin h) v
           then Some (finish_discovery E (rp_dst h) new (into r (RoutingTableEntry_default E)) v)
           else forward_reply E (p\<lparr>pk_bytes := rest\<rparr>) g v)"
    using ack
    unfolding RecvReply_def assms(1) Option.bind_lunit Let_def split_beta fst_conv snd_conv
      g_def [symmetric] g lookup_eq new_def [symmetric] r_def [symmetric]
    by (simp add: assms(2) g cong: if_cong)
  have new: "GetDestination new \<noteq> rp_origin h" using assms(2) by (simp add: new_def)
  have kept: "stands E (rp_origin h) e v \<and> m_socketAddresses v = m_socketAddresses s \<and> log v = log s"
    if v: "install_reply E g (rp_hopCount h + 1) new r ?u = Some v" for v
  proof -
    have cases: "v = ?u \<or> v = add_route E new ?u \<or> v = update_route new ?u"
      using v by (auto simp: install_reply_def bind_eq_Some_conv split: option.splits if_splits)
    then have "stands E (rp_origin h) e v"
      using stn.I_purged [OF assms(5)] new by (auto intro: stn.I_add stn.I_update)
    with cases show ?thesis by (auto simp: add_route_def update_route_def)
  qed
  have "RecvReply E p receiver sender s = Option.bind (install_reply E g (rp_hopCount h + 1) new r ?u)
      (forward_reply E (p\<lparr>pk_bytes := rest\<rparr>) g)"
    unfolding recv
  proof (rule Option.bind_cong [OF refl])
    fix v
    assume "install_reply E g (rp_hopCount h + 1) new r ?u = Some v"
    from kept [OF this] assms(3) show "(if IsMyOwnAddress (rp_origin h) v
           then Some (finish_discovery E (rp_dst h) new (into r (RoutingTableEntry_default E)) v)
           else forward_reply E (p\<lparr>pk_bytes := rest\<rparr>) g v) = forward_reply E (p\<lparr>pk_bytes := rest\<rparr>) g v"
      by (simp add: IsMyOwnAddress_def)
  qed
  from that [OF this [unfolded g_def] r_def] kept show ?thesis unfolding g_def by blast
qed

lemma RecvReply_forwards:
  assumes "RrepHeader_Deserialize (wire E) (pk_bytes p) = Some (h, rest)"
    and "rp_dst h \<noteq> rp_origin h" and "\<not> IsMyOwnAddress (rp_origin h) s" and "rp_flags h = 0"
    and "stands E (rp_origin h) e s" "m_flag e = VALID"
    and "RecvReply E p receiver sender s = Some s'"
  shows "if ttl_of E p < 2 then log s' = log s
     else \<exists>k. FindSocketWithInterfaceAddress (m_iface e) s = Some k
       \<and> log s' = log s @ [SockSend k (rrep_packet E (ucast (ttl_of E p - 1))
             (h\<lparr>rp_hopCount := rp_hopCount h + 1\<rparr>)) (GetNextHop e)]"
proof -
  obtain r new where recv: "RecvReply E p receiver sender s =
      Option.bind (install_reply E (h\<lparr>rp_hopCount := rp_hopCount h + 1\<rparr>) (rp_hopCount h + 1) new r (s\<lparr>m_routingTable := purged E s\<rparr>))
        (forward_reply E (p\<lparr>pk_bytes := rest\<rparr>) (h\<lparr>rp_hopCount := rp_hopCount h + 1\<rparr>))"
    and kept: "\<And>v. install_reply E (h\<lparr>rp_hopCount := rp_hopCount h + 1\<rparr>) (rp_hopCount h + 1) new r (s\<lparr>m_routingTable := purged E s\<rparr>) = Some v \<Longrightarrow>
      stands E (rp_origin h) e v \<and> m_socketAddresses v = m_socketAddresses s \<and> log v = log s"
    using RecvReply_to_forward [OF assms(1-5), of receiver sender] by blast
  from assms(7) recv obtain v where "install_reply E (h\<lparr>rp_hopCount := rp_hopCount h + 1\<rparr>) (rp_hopCount h + 1) new r
      (s\<lparr>m_routingTable := purged E s\<rparr>) = Some v"
    and s': "forward_reply E (p\<lparr>pk_bytes := rest\<rparr>) (h\<lparr>rp_hopCount := rp_hopCount h + 1\<rparr>) v = Some s'"
    by (auto simp: bind_eq_Some_conv)
  from kept [OF this(1)] have v: "stands E (rp_origin h) e v" "m_socketAddresses v = m_socketAddresses s" "log v = log s"
    by simp_all
  let ?h = "h\<lparr>rp_hopCount := rp_hopCount h + 1\<rparr>"
  have "stands E (rp_origin ?h) e v" using v(1) by simp
  moreover have "FindSocketWithInterfaceAddress (m_iface e) v = FindSocketWithInterfaceAddress (m_iface e) s"
    using v(2) by (simp add: FindSocketWithInterfaceAddress_def)
  ultimately show ?thesis
    using forward_reply_eq [of E ?h e v "p\<lparr>pk_bytes := rest\<rparr>"] assms(6) s' v(3)
    by (cases "ttl_of E p < 2"; cases "FindSocketWithInterfaceAddress (m_iface e) s") (auto simp: emit_def)
qed

subsection \<open>The way of the reply\<close>

text \<open>\<open>y\<close> is the reception of the reply \<open>g\<close>, which is among \<open>es\<close>, sent over one of the sockets
  \<open>socks\<close>, to an address of the agent that receives it.\<close>

definition reply_heard ::
  "codec \<Rightarrow> effect list \<Rightarrow> (sock \<times> iface) list \<Rightarrow> RrepHeader \<Rightarrow> reception \<Rightarrow> bool" where
  "reply_heard C es socks g y \<longleftrightarrow>
     (\<exists>k m a i. SockSend k m a \<in> set es \<and> (k, i) \<in> set socks \<and> ct_bytes m = rrep_bytes C g \<and>
        pk_bytes (rx_packet y) = ct_bytes m \<and> pk_ttl_tag (rx_packet y) = Some (ct_ttl m) \<and>
        rx_sender y = ia_local i \<and> IsMyOwnAddress a (rx_before y))"

lemma reply_heardI:
  "SockSend k m a \<in> set es \<Longrightarrow> (k, i) \<in> set socks \<Longrightarrow> ct_bytes m = rrep_bytes C g \<Longrightarrow>
   pk_bytes (rx_packet y) = ct_bytes m \<Longrightarrow> pk_ttl_tag (rx_packet y) = Some (ct_ttl m) \<Longrightarrow> rx_sender y = ia_local i \<Longrightarrow>
   IsMyOwnAddress a (rx_before y) \<Longrightarrow> reply_heard C es socks g y"
  unfolding reply_heard_def by blast

text \<open>The agent that had passed the request on in \<open>z\<close> gets the reply in \<open>y\<close>: its route to the
  originator is the same, valid and not expired, and it has learned no sequence number of the
  destination in between.\<close>

definition way_back :: "ipv4 \<Rightarrow> ipv4 \<Rightarrow> reception \<Rightarrow> reception \<Rightarrow> bool" where
  "way_back orig dst z y \<longleftrightarrow>
     m_socketAddresses (rx_before y) = m_socketAddresses (rx_before z) \<and>
     (\<exists>e e'. route_of (m_routingTable (rx_after z)) orig = Some e \<and>
        route_of (m_routingTable (rx_before y)) orig = Some e' \<and>
        GetNextHop e' = GetNextHop e \<and> m_flag e' = VALID \<and> 0 \<le> GetLifeTime (now (rx_env y)) e') \<and>
     (\<forall>e. route_of (purged (rx_env y) (rx_before y)) dst = Some e \<longrightarrow> \<not> m_validSeqNo e) \<and>
     dst \<noteq> any_addr (rx_env y)"

text \<open>The originator gets the reply in \<open>y\<close> and still has no route; the packets that wait may leave by
  any device.\<close>

definition still_asks :: "ipv4 \<Rightarrow> ipv4 \<Rightarrow> reception \<Rightarrow> bool" where
  "still_asks orig dst y \<longleftrightarrow>
     IsMyOwnAddress orig (rx_before y) \<and> dst \<noteq> any_addr (rx_env y) \<and>
     (\<forall>e. route_of (purged (rx_env y) (rx_before y)) dst = Some e \<longrightarrow> m_flag e = IN_SEARCH) \<and>
     (\<forall>q\<in>set (m_queue (rp_queue (rx_before y))). pk_oif_tag (qe_packet q) = None \<or> pk_oif_tag (qe_packet q) = Some (- 1))"

fun reply_path ::
  "codec \<Rightarrow> ipv4 \<Rightarrow> ipv4 \<Rightarrow> effect list \<Rightarrow> (sock \<times> iface) list \<Rightarrow> reception list \<Rightarrow> reception list \<Rightarrow> bool"
where
  "reply_path C orig dst es socks zs [] = False"
| "reply_path C orig dst es socks [] (y # ys) =
     (received C y \<and> (\<exists>g. reply_heard C es socks g y) \<and> still_asks orig dst y \<and> ys = [])"
| "reply_path C orig dst es socks (z # zs) (y # ys) =
     (received C y \<and> (\<exists>g. reply_heard C es socks g y) \<and> way_back orig dst z y \<and>
      reply_path C orig dst (sent y) (m_socketAddresses (rx_before y)) zs ys)"

text \<open>All replies among \<open>es\<close> are the one that travels, after \<open>n\<close> hops and with \<open>ttl\<close> to go.\<close>

definition reply_after ::
  "codec \<Rightarrow> ipv4 \<Rightarrow> ipv4 \<Rightarrow> u32 \<Rightarrow> nat \<Rightarrow> nat \<Rightarrow> effect list \<Rightarrow> (sock \<times> iface) list \<Rightarrow> bool" where
  "reply_after C orig dst q n ttl es socks \<longleftrightarrow>
     (\<forall>k m a g. SockSend k m a \<in> set es \<longrightarrow> ct_bytes m = rrep_bytes C g \<longrightarrow>
        rp_dst g = dst \<and> rp_origin g = orig \<and> rp_hopCount g = of_nat n \<and> rp_dstSeqNo g = q \<and>
        rp_flags g = 0 \<and> ct_ttl m = of_nat ttl) \<and>
     (\<forall>j\<in>set socks. ia_local (snd j) \<noteq> orig)"

lemma reply_heard_header:
  assumes "reply_after C orig dst q n ttl es socks" and "reply_heard C es socks g y"
  shows "rp_dst g = dst" "rp_origin g = orig" "rp_hopCount g = of_nat n" "rp_dstSeqNo g = q" "rp_flags g = 0"
    "pk_ttl_tag (rx_packet y) = Some (of_nat ttl)" "rx_sender y \<noteq> orig" "pk_bytes (rx_packet y) = rrep_bytes C g"
  using assms unfolding reply_heard_def reply_after_def by fastforce+

lemma octet_in_16: "ucast (ucast x :: u16) = x" for x :: u8
  by transfer simp

text \<open>The route a reply leaves at an agent on the way, and what the agent sends.\<close>

lemma reply_on_the_way:
  assumes "received C y" and "codec_ok C" and "orig \<noteq> dst"
    and "reply_after C orig dst q n (Suc (Suc ttl)) es socks" and "reply_heard C es socks g y"
    and "way_back orig dst z y" and "\<not> IsMyOwnAddress orig (rx_before y)" and "Suc n < 256" "Suc (Suc ttl) < 256"
    and "reaches (rx_env z) orig (rx_sender z, i, c) (rx_after z)"
  shows "(\<exists>e. route_of (m_routingTable (rx_after y)) dst = Some e \<and> m_flag e = VALID \<and> GetNextHop e = rx_sender y
            \<and> m_hops e = of_nat (Suc n) \<and> m_validSeqNo e \<and> m_seqNo e = q)
       \<and> (\<exists>k m. sent y = [SockSend k m (rx_sender z)] \<and> k \<in> fst ` set (m_socketAddresses (rx_before y)) \<and> ct_ttl m = of_nat (Suc ttl)
            \<and> ct_bytes m = rrep_bytes C (g\<lparr>rp_hopCount := of_nat (Suc n)\<rparr>))"
proof -
  let ?E = "rx_env y" and ?s = "rx_before y"
  note g = reply_heard_header [OF assms(4,5)]
  from assms(1) have wire: "wire ?E = C" and inv: "rp_inv ?s"
    and rx: "RecvMadaodv ?E (rx_sock y) (rx_packet y) (rx_sender y) ?s = Some (rx_after y)"
    using reachable_inv by (auto simp: received_def)
  let ?p = "(rx_packet y)\<lparr>pk_bytes := RrepHeader_Serialize C g\<rparr>"
  obtain receiver where r: "RecvReply ?E ?p receiver (rx_sender y)
      (UpdateRouteToNeighbor ?E (rx_sender y) receiver ?s) = Some (rx_after y)"
    by (rule RecvMadaodv_dispatch [OF g(8) rx]) simp
  define u where "u = UpdateRouteToNeighbor ?E (rx_sender y) receiver ?s"
  have u: "rp_inv u" unfolding u_def by (rule good.I_UpdateRouteToNeighbor [OF inv])
  obtain T where uT: "u = ?s\<lparr>m_routingTable := T\<rparr>" unfolding u_def using neighbor_update_frame by blast
  from assms(6,10) obtain e where e: "route_of (m_routingTable ?s) orig = Some e" "GetNextHop e = rx_sender z"
    "m_flag e = VALID" "0 \<le> GetLifeTime (now ?E) e"
    by (auto simp: way_back_def reaches_def)
  then have "live ?E e" by (simp add: live_def)
  with e(1) have "route_of (purged ?E ?s) orig = Some e"
    by (simp add: route_of_purged [OF keyed_table [OF inv]] purge_entry_live)
  with \<open>live ?E e\<close> g(7) have stands: "stands ?E orig e u"
    using neighbor_update_other [OF inv, of orig "rx_sender y" ?E receiver] keyed_table [OF u]
    by (simp add: stands_def u_def)
  have own: "\<not> IsMyOwnAddress orig u" using assms(7) by (simp add: uT IsMyOwnAddress_def)
  have unknown: "\<not> m_validSeqNo e'" if "route_of (purged ?E u) dst = Some e'" for e'
    using neighbor_update_valid [OF inv _ that [unfolded u_def]] assms(6) by (auto simp: way_back_def)
  have parse: "RrepHeader_Deserialize (wire ?E) (pk_bytes ?p) = Some (g, [])"
    using byte_order.rrep_des_ser [OF byte_orderI [OF assms(2)], of g "[]"] wire by simp
  have ttl: "ttl_of ?E ?p = of_nat (Suc (Suc ttl))" by (simp add: ttl_of_def g(6) del: of_nat_Suc)
  have "\<not> (of_nat (Suc (Suc ttl)) :: u8) < 2" "(of_nat (Suc (Suc ttl)) :: u8) - 1 = of_nat (Suc ttl)"
    using assms(9) by (simp_all add: word_less_nat_alt unat_of_nat del: of_nat_Suc) (simp add: of_nat_Suc)
  with RecvReply_forwards [OF parse _ _ g(5) _ e(3) r [folded u_def]] stands own g(1,2) assms(3) ttl
  obtain k where sock: "FindSocketWithInterfaceAddress (m_iface e) u = Some k"
    and k: "log (rx_after y) = log u @ [SockSend k (rrep_packet ?E (ucast (of_nat (Suc ttl) :: u8))
      (g\<lparr>rp_hopCount := rp_hopCount g + 1\<rparr>)) (rx_sender z)]"
    using e(2) by (auto simp del: of_nat_Suc)
  have "\<exists>e. route_of (m_routingTable (rx_after y)) dst = Some e
      \<and> route_core e = (True, q, ucast (rp_hopCount g + 1), rx_sender y, recv_iface ?E receiver, VALID)"
    using RecvReply_installs [OF u _ _ _ _ r [folded u_def], of g "[]"] assms(2,3,6) wire g own unknown
    by (cases "route_of (purged ?E u) dst") (auto simp: Let_def fresher_def way_back_def)
  then have "\<exists>e. route_of (m_routingTable (rx_after y)) dst = Some e \<and> m_flag e = VALID \<and> GetNextHop e = rx_sender y
      \<and> m_hops e = of_nat (Suc n) \<and> m_validSeqNo e \<and> m_seqNo e = q"
    unfolding g(3) hop_as_nat [OF assms(8)] by (auto simp: route_core_def)
  moreover have "sent y = [SockSend k (rrep_packet ?E (ucast (of_nat (Suc ttl) :: u8))
      (g\<lparr>rp_hopCount := rp_hopCount g + 1\<rparr>)) (rx_sender z)]"
    by (simp add: sent_def k uT)
  moreover have "k \<in> fst ` set (m_socketAddresses ?s)" using found_socket [OF sock] by (simp add: uT)
  moreover have "rp_hopCount g + 1 = of_nat (Suc n)" using g(3) by simp
  ultimately show ?thesis using wire by (simp add: rrep_packet_def control_packet_def octet_in_16 del: of_nat_Suc)
qed

lemma reply_after_passed_on:
  assumes "codec_ok C" and "rp_dst g = dst" "rp_origin g = orig" "rp_dstSeqNo g = q" "rp_flags g = 0"
    and "es = [SockSend k m a]" "ct_ttl m = of_nat ttl" "ct_bytes m = rrep_bytes C (g\<lparr>rp_hopCount := of_nat n\<rparr>)"
    and "\<forall>j\<in>set socks. ia_local (snd j) \<noteq> orig"
  shows "reply_after C orig dst q n ttl es socks"
  using assms message_kinds(2) [OF assms(1)] unfolding reply_after_def by fastforce

lemma reply_path_routes:
  assumes "codec_ok C" and "orig \<noteq> dst"
    and "reply_path C orig dst es socks zs ys" and "reply_after C orig dst q n (Suc (length zs)) es socks"
    and "n + length zs + 1 < 256"
    and "\<forall>z\<in>set zs. \<not> IsMyOwnAddress orig (rx_before z) \<and>
      (\<exists>i c. reaches (rx_env z) orig (rx_sender z, i, c) (rx_after z))"
  shows "length ys = Suc (length zs)
    \<and> (\<forall>j<length ys. \<exists>e. route_of (m_routingTable (rx_after (ys ! j))) dst = Some e \<and> m_flag e = VALID
         \<and> GetNextHop e = rx_sender (ys ! j) \<and> m_hops e = of_nat (n + Suc j) \<and> m_validSeqNo e \<and> m_seqNo e = q)
    \<and> (\<forall>j<length zs. \<exists>k m. sent (ys ! j) = [SockSend k m (rx_sender (zs ! j))])
    \<and> (\<forall>x\<in>set (m_queue (rp_queue (rx_after (last ys)))). qe_dst x \<noteq> dst)"
  using assms(3-6)
proof (induction zs arbitrary: es socks n ys)
  case Nil
  then obtain y where y: "ys = [y]" "received C y" "still_asks orig dst y" and "\<exists>g. reply_heard C es socks g y"
    by (cases ys) auto
  then obtain g where g: "reply_heard C es socks g y" by blast
  note hd = reply_heard_header [OF Nil.prems(2) g]
  have n: "ucast (rp_hopCount g + 1) = (of_nat (Suc n) :: u16)"
    unfolding hd(3) by (rule hop_as_nat) (use Nil.prems(3) in simp)
  have "rp_inv (rx_before y)" using y(2) reachable_inv by (auto simp: received_def)
  from reply_completes [OF this, of "rx_env y" "rx_packet y" g "rx_sock y" "rx_sender y" "rx_after y"] y hd assms(1,2)
  show ?case unfolding n by (auto simp: received_def still_asks_def)
next
  case (Cons z zs)
  from Cons.prems(1) obtain y ys' where ys: "ys = y # ys'" by (cases ys) auto
  with Cons.prems(1) have y: "received C y" "way_back orig dst z y"
    "reply_path C orig dst (sent y) (m_socketAddresses (rx_before y)) zs ys'"
    and "\<exists>g. reply_heard C es socks g y"
    by simp_all
  then obtain g where g: "reply_heard C es socks g y" by blast
  note hd = reply_heard_header [OF Cons.prems(2) g]
  from Cons.prems(4) obtain i c where z: "reaches (rx_env z) orig (rx_sender z, i, c) (rx_after z)"
    and "\<not> IsMyOwnAddress orig (rx_before z)"
    by auto
  with y(2) have own: "\<not> IsMyOwnAddress orig (rx_before y)" by (simp add: way_back_def IsMyOwnAddress_def)
  have bounds: "Suc n < 256" "Suc (Suc (length zs)) < 256" using Cons.prems(3) by simp_all
  from reply_on_the_way [OF y(1) assms(1,2) Cons.prems(2) [unfolded length_Cons] g y(2) own bounds(1) _ z]
  obtain e k m where e: "route_of (m_routingTable (rx_after y)) dst = Some e" "m_flag e = VALID"
    "GetNextHop e = rx_sender y" "m_hops e = of_nat (Suc n)" "m_validSeqNo e" "m_seqNo e = q"
    and s: "sent y = [SockSend k m (rx_sender z)]" "ct_ttl m = of_nat (Suc (length zs))"
      "ct_bytes m = rrep_bytes C (g\<lparr>rp_hopCount := of_nat (Suc n)\<rparr>)"
    using bounds(2) by (auto simp del: of_nat_Suc)
  from own have "reply_after C orig dst q (Suc n) (Suc (length zs)) (sent y) (m_socketAddresses (rx_before y))"
    by (intro reply_after_passed_on [OF assms(1) hd(1,2,4,5) s]) (auto simp: IsMyOwnAddress_def)
  from Cons.IH [OF y(3) this] Cons.prems(3,4) e s(1) show ?case
    by (auto simp: ys nth_Cons simp del: of_nat_Suc split: nat.split)
qed

subsection \<open>There and back\<close>

text \<open>The sender of each reply is an address of the agent whose turn was before.\<close>

lemma reply_path_senders:
  assumes "reply_path C orig dst es socks zs ys" and "j < length ys"
  shows "if j = 0 then \<exists>i\<in>set socks. rx_sender (ys ! j) = ia_local (snd i)
         else IsMyOwnAddress (rx_sender (ys ! j)) (rx_before (ys ! (j - 1)))"
  using assms
proof (induction C orig dst es socks zs ys arbitrary: j rule: reply_path.induct)
  case (3 C orig dst es socks z zs y ys)
  show ?case
  proof (cases j)
    case 0
    with "3.prems" show ?thesis by (force simp: reply_heard_def)
  next
    case (Suc i)
    with "3.prems" "3.IH" [of i] show ?thesis
      by (cases i) (auto simp: IsMyOwnAddress_def)
  qed
qed (auto simp: reply_heard_def, force)

lemma request_starts:
  assumes "rp_inv a" and "codec_ok (wire E)" and "SendRequest E dst a = Some a1"
    and "m_rreqCount a \<noteq> m_rreqRateLimit (par a)" and "\<not> IsMyOwnAddress dst a"
  shows "request_after (wire E) orig dst 0 (drop (length (log a)) (log a1)) (m_socketAddresses a)"
proof -
  have "rq_dst h = dst \<and> rq_hopCount h = 0 \<and> rq_origin h = ia_local i"
    if m: "SchedSend d k m b \<in> set (drop (length (log a)) (log a1))" "(k, i) \<in> set (m_socketAddresses a)"
      "ct_bytes m = rreq_bytes (wire E) h" for d k m b i h
  proof -
    obtain i' h' where *: "(k, i') \<in> set (m_socketAddresses a)" "ct_bytes m = rreq_bytes (wire E) h'"
      "rq_dst h' = dst" "rq_origin h' = ia_local i'" "rq_hopCount h' = 0"
      using request_copies [OF assms(3,4) m(1)] by blast
    have "distinct (map fst (m_socketAddresses a))" using assms(1) by (simp add: rp_inv_def smap_inv_distinct)
    with *(1) m(2) have "i' = i" by (meson eq_key_imp_eq_value)
    with * m(3) message_kinds(1) [OF assms(2), of h h'] show ?thesis by simp
  qed
  with assms(5) show ?thesis by (fastforce simp: request_after_def IsMyOwnAddress_def)
qed

lemma request_path_receptions:
  "request_path C orig dst es socks xs \<Longrightarrow> x \<in> set xs \<Longrightarrow> received C x \<and> \<not> IsMyOwnAddress orig (rx_before x)"
  by (induction C orig dst es socks xs rule: request_path.induct) (auto split: if_splits)

lemma reply_starts:
  assumes "codec_ok C" and "es = es' @ [SockSend k (rrep_packet E (of_nat n) g) b]" and "wire E = C"
    and "\<forall>e\<in>set es'. error_report C e"
    and "rp_dst g = dst" "rp_origin g = orig" "rp_hopCount g = 0" "rp_dstSeqNo g = q" "rp_flags g = 0"
    and "\<forall>j\<in>set socks. ia_local (snd j) \<noteq> orig"
  shows "reply_after C orig dst q 0 n es socks"
proof -
  have "ct_bytes m = rrep_bytes C g \<and> ct_ttl m = of_nat n"
    if m: "SockSend k' m a \<in> set es" "ct_bytes m = rrep_bytes C g'" for k' m a g'
  proof (cases "SockSend k' m a \<in> set es'")
    case True
    with assms(4) m(2) have "error_message C (rrep_bytes C g')" by fastforce
    then show ?thesis using message_kinds(5) [OF assms(1)] by blast
  next
    case False
    have "(ucast (of_nat n :: u16) :: u8) = of_nat n" by transfer (simp add: take_bit_take_bit)
    with False m(1) assms(2,3) show ?thesis by (auto simp: rrep_packet_def control_packet_def)
  qed
  with assms(5-10) message_kinds(2) [OF assms(1)] show ?thesis
    unfolding reply_after_def by fastforce
qed

text \<open>The way out: the request reaches the destination, which sends the reply back.\<close>

lemma request_leg:
  assumes "codec_ok C" and "wire E = C" and "reachable C f p t a" and "\<not> IsMyOwnAddress dst a"
    and "SendRequest E dst a = Some a1" and "m_rreqCount a \<noteq> m_rreqRateLimit (par a)"
    and path: "request_path C (rx_sender (hd xs)) dst (drop (length (log a)) (log a1)) (m_socketAddresses a) xs"
    and "rx_sender (hd xs) \<noteq> dst" and "length xs < 256"
  shows "\<forall>j<length xs. \<exists>i. reaches (rx_env (xs ! j)) (rx_sender (hd xs)) (rx_sender (xs ! j), i, of_nat (Suc j)) (rx_after (xs ! j))"
    and "\<exists>es k m. sent (last xs) = es @ [SockSend k m (rx_sender (last xs))]"
    and "reply_after C (rx_sender (hd xs)) dst (rp_seqNo (rx_after (last xs))) 0 (length xs) (sent (last xs))
      (m_socketAddresses (rx_before (last xs)))"
proof -
  let ?orig = "rx_sender (hd xs)"
  have "xs \<noteq> []" using path by (cases xs) auto
  then have last: "last xs \<in> set xs" by simp
  from request_starts [OF reachable_inv [OF assms(3)] _ assms(5,6,4)] assms(1,2)
  have start: "request_after C ?orig dst 0 (drop (length (log a)) (log a1)) (m_socketAddresses a)" by blast
  have "0 + length xs < 256" using assms(9) by simp
  note routes = request_path_routes [OF assms(1,8) path start _ this, simplified add_0 refl]
  then show "\<forall>j<length xs. \<exists>i. reaches (rx_env (xs ! j)) ?orig (rx_sender (xs ! j), i, of_nat (Suc j)) (rx_after (xs ! j))"
    and "\<exists>es k m. sent (last xs) = es @ [SockSend k m (rx_sender (last xs))]"
    by blast+
  from routes obtain es k g where
    ans: "sent (last xs) = es @ [SockSend k (rrep_packet (rx_env (last xs)) (of_nat (length xs)) g) (rx_sender (last xs))]"
    "\<forall>e\<in>set es. error_report C e" "rp_dst g = dst" "rp_origin g = ?orig"
    "rp_hopCount g = 0" "rp_dstSeqNo g = rp_seqNo (rx_after (last xs))" "rp_flags g = 0"
    by blast
  have "wire (rx_env (last xs)) = C" "\<forall>j\<in>set (m_socketAddresses (rx_before (last xs))). ia_local (snd j) \<noteq> ?orig"
    using request_path_receptions [OF path last] by (auto simp: received_def IsMyOwnAddress_def)
  then show "reply_after C ?orig dst (rp_seqNo (rx_after (last xs))) 0 (length xs) (sent (last xs))
      (m_socketAddresses (rx_before (last xs)))"
    by (rule reply_starts [OF assms(1) ans(1) _ ans(2-7)])
qed

text \<open>C7: a route is found over any number of agents. An agent sends a request; \<open>xs\<close> are the receptions
  by which it travels, from agent to agent, to the owner of the address \<open>dst\<close>, fewer than 256 of them; and
  \<open>ys\<close> those by which the reply travels back, each at the agent that had the request before, while its
  route back lasts. Then the request left every agent it passed a route to the originator over the agent
  it came from, of as many hops as the request had made. The destination answers to the node the request
  came from, and every agent on the way back sends one message, to the node that had sent it the request,
  so that the reply's TTL is enough. The reply leaves every agent it passes a valid route to \<open>dst\<close>, with
  the destination's own sequence number, over an address of the agent before, of as many hops as the reply
  had made: the next hops lead from the originator to the destination in \<open>length xs\<close> steps.
  And no packet for \<open>dst\<close> waits at the originator any more. Before each reception the agent is in any
  reachable state, under any attributes and in any environment.\<close>

theorem discovery_over_path:
  assumes "codec_ok C" and "wire E = C" and "reachable C f p t a" and "\<not> IsMyOwnAddress dst a"
    and "SendRequest E dst a = Some a1" and "m_rreqCount a \<noteq> m_rreqRateLimit (par a)"
    and "request_path C (rx_sender (hd xs)) dst (drop (length (log a)) (log a1)) (m_socketAddresses a) xs"
    and "rx_sender (hd xs) \<noteq> dst" and "length xs < 256"
    and "reply_path C (rx_sender (hd xs)) dst (sent (last xs)) (m_socketAddresses (rx_before (last xs))) (rev (butlast xs)) ys"
  shows "length ys = length xs
     \<and> (\<forall>j<length xs. \<exists>e. route_of (m_routingTable (rx_after (xs ! j))) (rx_sender (hd xs)) = Some e
          \<and> GetNextHop e = rx_sender (xs ! j) \<and> m_hops e = of_nat (Suc j))
     \<and> (\<exists>es k m. sent (last xs) = es @ [SockSend k m (rx_sender (last xs))])
     \<and> (\<forall>j<length xs - 1. \<exists>k m. sent (ys ! j) = [SockSend k m (rx_sender (rev (butlast xs) ! j))])
     \<and> (\<forall>j<length ys. \<exists>e. route_of (m_routingTable (rx_after (ys ! j))) dst = Some e \<and> m_flag e = VALID
          \<and> GetNextHop e = rx_sender (ys ! j) \<and> m_hops e = of_nat (Suc j) \<and> m_validSeqNo e
          \<and> m_seqNo e = rp_seqNo (rx_after (last xs))
          \<and> IsMyOwnAddress (GetNextHop e) (rx_before (if j = 0 then last xs else ys ! (j - 1))))
     \<and> (\<forall>x\<in>set (m_queue (rp_queue (rx_after (last ys)))). qe_dst x \<noteq> dst)"
proof -
  let ?orig = "rx_sender (hd xs)" and ?zs = "rev (butlast xs)"
  note out = request_leg [OF assms(1-9)]
  have len: "Suc (length ?zs) = length xs" using assms(7) by (cases xs) auto
  have returns: "\<forall>z\<in>set ?zs. \<not> IsMyOwnAddress ?orig (rx_before z)
      \<and> (\<exists>i c. reaches (rx_env z) ?orig (rx_sender z, i, c) (rx_after z))"
  proof
    fix z
    assume "z \<in> set ?zs"
    then have z: "z \<in> set xs" by (auto dest: in_set_butlastD)
    then obtain j where "j < length xs" "z = xs ! j" by (auto simp: in_set_conv_nth)
    with out(1) request_path_receptions [OF assms(7) z] show "\<not> IsMyOwnAddress ?orig (rx_before z)
      \<and> (\<exists>i c. reaches (rx_env z) ?orig (rx_sender z, i, c) (rx_after z))"
      by blast
  qed
  note reply = reply_path_routes [OF assms(1,8,10) out(3) [folded len] _ returns]
  have senders: "IsMyOwnAddress (rx_sender (ys ! j)) (rx_before (if j = 0 then last xs else ys ! (j - 1)))"
    if "j < length ys" for j
    using reply_path_senders [OF assms(10) that] by (cases j) (auto simp: IsMyOwnAddress_def)
  have "\<exists>e. route_of (m_routingTable (rx_after (xs ! j))) ?orig = Some e
          \<and> GetNextHop e = rx_sender (xs ! j) \<and> m_hops e = of_nat (Suc j)" if "j < length xs" for j
    using out(1) that by (auto simp: reaches_def)
  moreover have "\<exists>e. route_of (m_routingTable (rx_after (ys ! j))) dst = Some e \<and> m_flag e = VALID
          \<and> GetNextHop e = rx_sender (ys ! j) \<and> m_hops e = of_nat (Suc j) \<and> m_validSeqNo e
          \<and> m_seqNo e = rp_seqNo (rx_after (last xs))
          \<and> IsMyOwnAddress (GetNextHop e) (rx_before (if j = 0 then last xs else ys ! (j - 1)))"
    if "j < length ys" for j
    using reply senders [OF that] that assms(9) len by (fastforce simp del: of_nat_Suc)
  ultimately show ?thesis
    using reply out(2) assms(9) len by (simp del: of_nat_Suc)
qed

subsection \<open>A path of three agents\<close>

text \<open>After a request was passed on while no neighbour was lost, the node it came from is a valid route,
  and nothing is known of the destination.\<close>

lemma neighbor_route_valid:
  assumes "entries_all keyed (m_routingTable s)" and "0 \<le> m_activeRouteTimeout (par s)"
  shows "\<exists>e. route_of (m_routingTable (neighbor_route E h receiver src s)) src = Some e
    \<and> m_flag e = VALID \<and> 0 \<le> GetLifeTime (now E) e"
proof (cases "route_of (purged E s) src")
  case None
  with purged_none_again [OF assms(1) None] assms(2) show ?thesis
    by (simp add: neighbor_route_def lookup_eq add_route_def route_of_AddRoute settled_def RoutingTableEntry_new_def
        GetLifeTime_def)
next
  case (Some e)
  with keyed_purged [OF assms(1), of E] have "GetDestination e = src" by (auto simp: entries_all_def keyed_def)
  with Some assms(2) show ?thesis
    by (simp add: neighbor_route_def lookup_eq Let_def update_route_def route_of_Update settled_def entry_edits
        GetLifeTime_def)
qed

lemma RecvRequest_leaves:
  assumes "rp_inv s" and "RreqHeader_Deserialize (wire E) (pk_bytes p) = Some (h, rest)" and "taken_up E h src s"
    and "0 \<le> m_activeRouteTimeout (par s)" and "lost (now E) (rp_nb s) = []" and "0 \<le> hello_lifetime (par s)"
    and "\<not> IsMyOwnAddress (rq_dst h) s" and "route_of (purged E s) (rq_dst h) = None"
    and "rq_dst h \<noteq> rq_origin h" "rq_dst h \<noteq> src"
    and "RecvRequest E p receiver src s = Some s'"
  shows "(\<exists>e. route_of (m_routingTable s') src = Some e \<and> m_flag e = VALID \<and> 0 \<le> GetLifeTime (now E) e)
    \<and> unknown (rq_dst h) s'"
proof -
  from taken_up_runs [OF assms(2,3,11)] obtain c toOrigin s1 where
    prep: "request_prepared E (next_hop h) receiver src
        (s\<lparr>m_routingTable := purged E s, m_rreqIdCache := c\<rparr>) = Some (toOrigin, s1)"
    and ans: "(if IsMyOwnAddress (rq_dst h) s1
       then (case lookup E (rq_origin h) s1 of
               (r, s) \<Rightarrow> SendReply E (next_hop h) (into r toOrigin) s)
       else answer_or_forward E (p\<lparr>pk_bytes := rest\<rparr>) (next_hop h) toOrigin src s1) = Some s'"
    by metis
  let ?s = "s\<lparr>m_routingTable := purged E s, m_rreqIdCache := c\<rparr>"
  have "unknown (rq_dst h) ?s"
    using assms(8) keyed_purged [OF keyed_table [OF assms(1)], of E] by (simp add: unknown_def)
  note unk = this unknown_purged [OF prepared_unknown [OF this _ _ prep], of E]
  from prepared_reported [OF prep] have "m_socketAddresses s1 = m_socketAddresses s" by (simp add: reported_def)
  then have "\<not> IsMyOwnAddress (rq_dst h) s1" using assms(7) by (simp add: IsMyOwnAddress_def)
  with ans unk(2) assms(9,10) have s': "s' = forward_rreq E (p\<lparr>pk_bytes := rest\<rparr>) (next_hop h) (s1\<lparr>m_routingTable := purged E s1\<rparr>)"
    by (simp add: answer_or_forward_def lookup_eq unknown_def)
  then have T: "m_routingTable s' = purged E s1" by (simp add: forward_rreq_def fold_forward_rreq_table)
  from prep obtain s0 where 0: "reverse_route E (next_hop h) (rq_hopCount (next_hop h)) receiver src ?s = Some (toOrigin, s0)"
    "nb_update E src (hello_lifetime (par (neighbor_route E (next_hop h) receiver src s0)))
       (neighbor_route E (next_hop h) receiver src s0) = Some s1"
    by (rule prepared_parts)
  let ?n = "neighbor_route E (next_hop h) receiver src s0"
  have "unknown (rq_dst h) s0" using unkb.I_reverse_route [OF unk(1) _ 0(1)] assms(9) by simp
  then have keyed: "entries_all keyed (m_routingTable s0)" by (simp add: unknown_def)
  obtain T0 T1 where s0: "s0 = ?s\<lparr>m_routingTable := T0\<rparr>" "?n = s0\<lparr>m_routingTable := T1\<rparr>"
    using reverse_route_frame [OF 0(1)] neighbor_route_frame by blast
  then have nb: "rp_nb ?n = rp_nb s" "par ?n = par s" "par s0 = par s" by simp_all
  with nb_update_quiet [of E ?n "hello_lifetime (par ?n)" src] assms(5,6) 0(2)
  have s1: "m_routingTable s1 = m_routingTable ?n" by auto
  from neighbor_route_valid [OF keyed, of E "next_hop h" receiver src] nb(3) assms(4)
  obtain e where e: "route_of (m_routingTable s1) src = Some e" "m_flag e = VALID" "0 \<le> GetLifeTime (now E) e"
    unfolding s1 by auto
  have "entries_all keyed (m_routingTable s1)"
    using unk(2) prepared_unknown [OF unk(1) _ _ prep] assms(9,10) by (simp add: unknown_def)
  with e have "route_of (purged E s1) src = Some e" by (simp add: route_of_purged purge_entry_live live_def)
  with e unk(2) assms(9,10) T show ?thesis by (simp add: unknown_def)
qed

text \<open>The handler of a reply does not stop the program on the way.\<close>

lemma RecvReply_forward_total:
  assumes "RrepHeader_Deserialize (wire E) (pk_bytes p) = Some (h, rest)"
    and "rp_dst h \<noteq> rp_origin h" and "\<not> IsMyOwnAddress (rp_origin h) s" and "rp_flags h = 0"
    and "stands E (rp_origin h) e s" and "FindSocketWithInterfaceAddress (m_iface e) s \<noteq> None" and "m_flag e = VALID"
    and "\<And>e. route_of (purged E s) (rp_dst h) = Some e \<Longrightarrow> \<not> m_validSeqNo e"
  shows "\<exists>s'. RecvReply E p receiver sender s = Some s'"
proof -
  let ?h = "h\<lparr>rp_hopCount := rp_hopCount h + 1\<rparr>" and ?u = "s\<lparr>m_routingTable := purged E s\<rparr>"
  obtain r new where recv: "RecvReply E p receiver sender s =
      Option.bind (install_reply E ?h (rp_hopCount h + 1) new r ?u) (forward_reply E (p\<lparr>pk_bytes := rest\<rparr>) ?h)"
    and r: "r = route_of (purged E s) (rp_dst h)"
    and kept: "\<And>v. install_reply E ?h (rp_hopCount h + 1) new r ?u = Some v \<Longrightarrow>
      stands E (rp_origin h) e v \<and> m_socketAddresses v = m_socketAddresses s \<and> log v = log s"
    by (rule RecvReply_to_forward [OF assms(1-5), of receiver sender]) (rule that)
  obtain v where v: "install_reply E ?h (rp_hopCount h + 1) new r ?u = Some v"
    using assms(8) by (cases "route_of (purged E s) (rp_dst h)") (auto simp: r install_reply_def accept_reply_def)
  from kept [OF v] have k: "stands E (rp_origin ?h) e v" "m_socketAddresses v = m_socketAddresses s" by simp_all
  from forward_reply_eq [OF k(1) assms(7), of "p\<lparr>pk_bytes := rest\<rparr>"] assms(6) k(2) show ?thesis
    by (auto simp: recv v FindSocketWithInterfaceAddress_def)
qed

end
