(* ===== verification/Intermediate_Props.thy ===== *)
theory Intermediate_Props
  imports Request_Props
begin

text \<open>
  A request that arrives at a node with a fresh enough route: the reply of the intermediate node, the
  gratuitous reply to the destination, and the precursors the node notes for both routes.
\<close>

subsection \<open>The reply\<close>

lemma InsertPrecursor_shape [simp]:
  "m_ipv4Route (snd (InsertPrecursor i e)) = m_ipv4Route e" "m_iface (snd (InsertPrecursor i e)) = m_iface e"
  "m_hops (snd (InsertPrecursor i e)) = m_hops e" "m_seqNo (snd (InsertPrecursor i e)) = m_seqNo e"
  "GetLifeTime t (snd (InsertPrecursor i e)) = GetLifeTime t e"
  by (simp_all add: InsertPrecursor_def GetLifeTime_def)

text \<open>The replies for the entries \<open>d\<close> of the destination and \<open>b\<close> of the originator.\<close>

definition intermediate_reply :: "ns3 \<Rightarrow> rte \<Rightarrow> rte \<Rightarrow> RrepHeader" where
  "intermediate_reply E d b =
     (let g = RrepHeader_new E 0 (ucast (m_hops d)) (GetDestination d) (m_seqNo d) (GetDestination b)
                (GetLifeTime (now E) d) in
      if m_hops d = 1 then RrepHeader_SetAckRequired True g else g)"

definition gratuitous_reply :: "ns3 \<Rightarrow> rte \<Rightarrow> rte \<Rightarrow> RrepHeader" where
  "gratuitous_reply E d b =
     RrepHeader_new E 0 (ucast (m_hops b)) (GetDestination b) (m_seqNo b) (GetDestination d)
       (GetLifeTime (now E) b)"

lemma IntermediateNode_eq:
  "SendReplyByIntermediateNode E d b grat s = do {
     let u = (if m_hops d = 1 then s\<lparr>m_routingTable := purged E s\<rparr> else s);
     let u = update_route (snd (InsertPrecursor (GetNextHop b) d)) u;
     let u = update_route (snd (InsertPrecursor (GetNextHop d) b)) u;
     socket \<leftarrow> FindSocketWithInterfaceAddress (m_iface b) u;
     let s = emit (SockSend socket (rrep_packet E (m_hops b) (intermediate_reply E d b)) (GetNextHop b)) u;
     (if grat then do {
        socket \<leftarrow> FindSocketWithInterfaceAddress (m_iface d) s;
        Some (emit (SockSend socket (rrep_packet E (m_hops d) (gratuitous_reply E d b)) (GetNextHop d)) s)
      }
      else Some s)
   }"
  by (simp add: SendReplyByIntermediateNode_def lookup_eq intermediate_reply_def gratuitous_reply_def
      Let_def cong: if_cong)

lemma find_socket_same [simp]:
  "FindSocketWithInterfaceAddress i (update_route e s) = FindSocketWithInterfaceAddress i s"
  "FindSocketWithInterfaceAddress i (emit x s) = FindSocketWithInterfaceAddress i s"
  "FindSocketWithInterfaceAddress i (s\<lparr>m_routingTable := T\<rparr>) = FindSocketWithInterfaceAddress i s"
  "FindSocketWithInterfaceAddress i (s\<lparr>log := l\<rparr>) = FindSocketWithInterfaceAddress i s"
  by (simp_all add: FindSocketWithInterfaceAddress_def update_route_def emit_def)

lemma IntermediateNode_total:
  assumes "FindSocketWithInterfaceAddress (m_iface b) s = Some k" and "FindSocketWithInterfaceAddress (m_iface d) s = Some k'"
  shows "\<exists>s'. SendReplyByIntermediateNode E d b grat s = Some s'"
  using assms by (simp add: IntermediateNode_eq Let_def)

lemma IntermediateNode_sends:
  assumes "SendReplyByIntermediateNode E d b grat s = Some s'"
    and "stands E (GetDestination d) d s" "stands E (GetDestination b) b s" "GetDestination d \<noteq> GetDestination b"
  shows "\<exists>k gs. FindSocketWithInterfaceAddress (m_iface b) s = Some k
     \<and> log s' = log s @ SockSend k (rrep_packet E (m_hops b) (intermediate_reply E d b)) (GetNextHop b) # gs
     \<and> (if grat then (\<exists>k. FindSocketWithInterfaceAddress (m_iface d) s = Some k
               \<and> gs = [SockSend k (rrep_packet E (m_hops d) (gratuitous_reply E d b)) (GetNextHop d)])
        else gs = [])
     \<and> route_of (m_routingTable s') (GetDestination d) = Some (settled (snd (InsertPrecursor (GetNextHop b) d)))
     \<and> route_of (m_routingTable s') (GetDestination b) = Some (settled (snd (InsertPrecursor (GetNextHop d) b)))
     \<and> rp_seqNo s' = rp_seqNo s"
proof -
  define u where "u = (if m_hops d = 1 then s\<lparr>m_routingTable := purged E s\<rparr> else s)"
  have st: "stands E (GetDestination d) d u" "stands E (GetDestination b) b u"
    using assms(2,3) stands_purged by (simp_all add: u_def)
  have u: "FindSocketWithInterfaceAddress i u = FindSocketWithInterfaceAddress i s" "log u = log s"
    "rp_seqNo u = rp_seqNo s" for i
    by (simp_all add: u_def)
  show ?thesis
    using assms(1) [unfolded IntermediateNode_eq, folded u_def] assms(4) st u
    by (cases grat) (auto simp: Let_def bind_eq_Some_conv emit_def update_route_def route_of_Update stands_def)
qed

subsection \<open>The whole handler\<close>

text \<open>While no neighbour is lost the preparation leaves the route to the destination as it is.\<close>

lemma prepared_stands:
  assumes "stands E k e s" and "k \<noteq> rq_origin h" "k \<noteq> src"
    and "lost (now E) (rp_nb s) = []" and "0 \<le> hello_lifetime (par s)"
    and "request_prepared E h receiver src s = Some (toOrigin, s')"
  shows "stands E k e s' \<and> log s' = log s \<and> m_socketAddresses s' = m_socketAddresses s \<and> rp_seqNo s' = rp_seqNo s"
proof -
  from assms(6) obtain s1 where 1: "reverse_route E h (rq_hopCount h) receiver src s = Some (toOrigin, s1)"
    and 2: "nb_update E src (hello_lifetime (par (neighbor_route E h receiver src s1)))
       (neighbor_route E h receiver src s1) = Some s'"
    by (rule prepared_parts)
  obtain T T' where f: "s1 = s\<lparr>m_routingTable := T\<rparr>" "neighbor_route E h receiver src s1 = s1\<lparr>m_routingTable := T'\<rparr>"
    using reverse_route_frame [OF 1] neighbor_route_frame by blast
  with 2 nb_update_quiet [of E "neighbor_route E h receiver src s1" "hello_lifetime (par s)" src] assms(4,5)
  obtain nb where s': "s' = (neighbor_route E h receiver src s1)\<lparr>rp_nb := nb\<rparr>" by auto
  have "stands E k e (neighbor_route E h receiver src s1)"
    by (rule stn.I_neighbor_route [OF stn.I_reverse_route [OF assms(1,2) 1] assms(3)])
  moreover have "m_routingTable s' = m_routingTable (neighbor_route E h receiver src s1)" by (simp add: s')
  ultimately have "stands E k e s'" by (simp add: stands_def)
  with s' f show ?thesis by simp
qed

lemma purged_valid_live: "rp_inv s \<Longrightarrow> route_of (purged E s) k = Some e \<Longrightarrow> m_flag e = VALID \<Longrightarrow> live E e"
  using route_of_purged [OF keyed_table, of s E k]
  by (auto simp: live_def purge_entry_def Invalidate_def split: option.splits if_splits RouteFlags.splits)

text \<open>After the preparation the request is answered for the entries of the destination and of the
  originator.\<close>

lemma intermediate_path:
  assumes "rp_inv s" and "\<not> IsMyOwnAddress (rq_dst h) s" and "rq_dst h \<noteq> rq_origin h" and "rq_dst h \<noteq> src"
    and d: "route_of (purged E s) (rq_dst h) = Some d" "m_flag d = VALID" "m_validSeqNo d" "GetNextHop d \<noteq> src"
    and fresh: "RreqHeader_GetUnknownSeqno h \<or> (\<exists>n\<ge>0. s32_sub (m_seqNo d) (rq_dstSeqNo h) = Some n)"
    and "\<not> RreqHeader_GetDestinationOnly h"
    and "lost (now E) (rp_nb s) = []" and "0 \<le> hello_lifetime (par s)"
    and "0 \<le> reverse_lifetime (par s) (rq_hopCount h + 1)" and "0 \<le> m_activeRouteTimeout (par s)"
    and prep: "request_prepared E (next_hop h) receiver src
        (s\<lparr>m_routingTable := purged E s, m_rreqIdCache := c\<rparr>) = Some (toOrigin, s1)"
  obtains b s2 where
    "(if IsMyOwnAddress (rq_dst h) s1
      then (case lookup E (rq_origin h) s1 of
              (r, s) \<Rightarrow> SendReply E (next_hop h) (into r toOrigin) s)
      else answer_or_forward E p (next_hop h) toOrigin src s1) =
     SendReplyByIntermediateNode E d b (RreqHeader_GetGratuitousRrep h) s2"
    "GetDestination d = rq_dst h" "stands E (rq_dst h) d s2" "stands E (rq_origin h) b s2"
    "GetDestination b = rq_origin h" "GetNextHop b = src" "m_iface b = recv_iface E receiver"
    "m_hops b = (if rq_origin h = src then 1 else ucast (rq_hopCount h + 1))"
    "log s2 = log s" "rp_seqNo s2 = rp_seqNo s"
    "\<forall>i. FindSocketWithInterfaceAddress i s2 = FindSocketWithInterfaceAddress i s"
proof -
  let ?s = "s\<lparr>m_routingTable := purged E s, m_rreqIdCache := c\<rparr>" and ?s1 = "s1\<lparr>m_routingTable := purged E s1\<rparr>"
  have keyed: "entries_all keyed (purged E s)" using keyed_purged [OF keyed_table [OF assms(1)]] .
  then have "stands E (rq_dst h) d ?s"
    using d purged_valid_live [OF assms(1) d(1,2)] by (simp add: stands_def)
  from prepared_stands [OF this _ _ _ _ prep] assms(3,4,11,12)
  have st: "stands E (rq_dst h) d s1" and f: "log s1 = log s" "m_socketAddresses s1 = m_socketAddresses s"
    "rp_seqNo s1 = rp_seqNo s"
    by simp_all
  have dst: "GetDestination d = rq_dst h" using keyed d(1) by (auto simp: entries_all_def keyed_def)
  obtain b where b: "lookup E (rq_origin h) s1 = (Some b, ?s1)" "GetNextHop b = src" "m_iface b = recv_iface E receiver"
    "m_hops b = (if rq_origin h = src then 1 else ucast (rq_hopCount h + 1))" "GetDestination b = rq_origin h" "live E b"
    by (rule prepared_origin [OF assms(1,13,14) prep])
  have "stands E (rq_origin h) b ?s1"
    using stands_purged [OF st] b by (auto simp: stands_def lookup_eq)
  note st2 = stands_purged [OF stands_purged [OF st]] stands_purged [OF this]
  let ?s2 = "?s1\<lparr>m_routingTable := purged E ?s1\<rparr>"
  have "\<not> IsMyOwnAddress (rq_dst h) s1" using assms(2) f(2) by (simp add: IsMyOwnAddress_def)
  moreover have "lookup E (rq_dst h) s1 = (Some d, ?s1)"
    using stands_purged [OF st] by (simp add: stands_def lookup_eq)
  moreover have "lookup E (rq_origin h) ?s1 = (Some b, ?s2)"
    using st2(2) by (simp add: stands_def lookup_eq)
  moreover have "RreqHeader_GetGratuitousRrep (next_hop h) = RreqHeader_GetGratuitousRrep h"
    "RreqHeader_GetDestinationOnly (next_hop h) = RreqHeader_GetDestinationOnly h"
    by (simp_all add: next_hop_def RreqHeader_GetGratuitousRrep_def RreqHeader_GetDestinationOnly_def)
  ultimately have "(if IsMyOwnAddress (rq_dst h) s1
      then (case lookup E (rq_origin h) s1 of
              (r, s) \<Rightarrow> SendReply E (next_hop h) (into r toOrigin) s)
      else answer_or_forward E p (next_hop h) toOrigin src s1) =
     SendReplyByIntermediateNode E d b (RreqHeader_GetGratuitousRrep h) ?s2"
    using d(2-4) assms(10) fresh
    by (cases "RreqHeader_GetUnknownSeqno h") (auto simp: answer_or_forward_def into_def)
  from this dst st2 b(5,2-4) show ?thesis
    by (rule that) (simp_all add: f, simp add: f FindSocketWithInterfaceAddress_def)
qed

text \<open>C10: a node with a valid, fresh enough route to the destination of a request that is not for the
  destination only answers it, when that route does not lead back over the node the request came from.
  The first thing sent is a reply to that node, with the sequence number, hop count and remaining
  lifetime of the route, asking for an acknowledgement exactly when the destination is a neighbour;
  the second, exactly when the request asks for it, a gratuitous reply to the destination about the
  originator; nothing else is sent. Each of the two routes has the next hop of the other among its
  precursors, and both are otherwise as they were. (No neighbour may just have been lost.)\<close>

theorem intermediate_node_answers:
  assumes "rp_inv s" and "codec_ok (wire E)" and "pk_bytes p = RreqHeader_Serialize (wire E) h @ rest"
    and "taken_up E h src s" and "\<not> IsMyOwnAddress (rq_dst h) s" and "rq_dst h \<noteq> rq_origin h" and "rq_dst h \<noteq> src"
    and d: "route_of (purged E s) (rq_dst h) = Some d" "m_flag d = VALID" "m_validSeqNo d" "GetNextHop d \<noteq> src"
    and fresh: "RreqHeader_GetUnknownSeqno h \<or> (\<exists>n\<ge>0. s32_sub (m_seqNo d) (rq_dstSeqNo h) = Some n)"
    and "\<not> RreqHeader_GetDestinationOnly h"
    and "lost (now E) (rp_nb s) = []" and "0 \<le> hello_lifetime (par s)"
    and "0 \<le> reverse_lifetime (par s) (rq_hopCount h + 1)" and "0 \<le> m_activeRouteTimeout (par s)"
    and "RecvRequest E p receiver src s = Some s'"
  shows "\<exists>b k gs. GetDestination b = rq_origin h \<and> GetNextHop b = src \<and> m_iface b = recv_iface E receiver
     \<and> m_hops b = (if rq_origin h = src then 1 else ucast (rq_hopCount h + 1))
     \<and> FindSocketWithInterfaceAddress (recv_iface E receiver) s = Some k
     \<and> log s' = log s @ SockSend k (rrep_packet E (m_hops b) (intermediate_reply E d b)) src # gs
     \<and> (if RreqHeader_GetGratuitousRrep h
        then (\<exists>k. FindSocketWithInterfaceAddress (m_iface d) s = Some k
                \<and> gs = [SockSend k (rrep_packet E (m_hops d) (gratuitous_reply E d b)) (GetNextHop d)])
        else gs = [])
     \<and> route_of (m_routingTable s') (rq_dst h) = Some (settled (snd (InsertPrecursor src d)))
     \<and> route_of (m_routingTable s') (rq_origin h) = Some (settled (snd (InsertPrecursor (GetNextHop d) b)))
     \<and> rp_seqNo s' = rp_seqNo s"
proof -
  have parse: "RreqHeader_Deserialize (wire E) (pk_bytes p) = Some (h, rest)"
    unfolding assms(3) by (rule byte_order.rreq_des_ser [OF byte_orderI [OF assms(2)]])
  from taken_up_runs [OF parse assms(4,18)] obtain c toOrigin s1 where
    prep: "request_prepared E (next_hop h) receiver src
        (s\<lparr>m_routingTable := purged E s, m_rreqIdCache := c\<rparr>) = Some (toOrigin, s1)"
    and ans: "(if IsMyOwnAddress (rq_dst h) s1
       then (case lookup E (rq_origin h) s1 of
               (r, s) \<Rightarrow> SendReply E (next_hop h) (into r toOrigin) s)
       else answer_or_forward E (p\<lparr>pk_bytes := rest\<rparr>) (next_hop h) toOrigin src s1) = Some s'"
    by metis
  obtain b s2 where path: "(if IsMyOwnAddress (rq_dst h) s1
      then (case lookup E (rq_origin h) s1 of
              (r, s) \<Rightarrow> SendReply E (next_hop h) (into r toOrigin) s)
      else answer_or_forward E (p\<lparr>pk_bytes := rest\<rparr>) (next_hop h) toOrigin src s1) =
     SendReplyByIntermediateNode E d b (RreqHeader_GetGratuitousRrep h) s2"
    and b: "GetDestination d = rq_dst h" "stands E (rq_dst h) d s2" "stands E (rq_origin h) b s2"
      "GetDestination b = rq_origin h" "GetNextHop b = src" "m_iface b = recv_iface E receiver"
      "m_hops b = (if rq_origin h = src then 1 else ucast (rq_hopCount h + 1))"
      "log s2 = log s" "rp_seqNo s2 = rp_seqNo s"
    and find: "\<forall>i. FindSocketWithInterfaceAddress i s2 = FindSocketWithInterfaceAddress i s"
    by (rule intermediate_path [where p = "p\<lparr>pk_bytes := rest\<rparr>", OF assms(1,5-7) d fresh assms(13-17) prep])
  from IntermediateNode_sends [OF ans [unfolded path]] b(1-4) assms(6)
  obtain k gs where sent: "FindSocketWithInterfaceAddress (m_iface b) s2 = Some k"
    "log s' = log s2 @ SockSend k (rrep_packet E (m_hops b) (intermediate_reply E d b)) (GetNextHop b) # gs"
    "if RreqHeader_GetGratuitousRrep h
     then (\<exists>k. FindSocketWithInterfaceAddress (m_iface d) s2 = Some k
             \<and> gs = [SockSend k (rrep_packet E (m_hops d) (gratuitous_reply E d b)) (GetNextHop d)])
     else gs = []"
    "route_of (m_routingTable s') (rq_dst h) = Some (settled (snd (InsertPrecursor (GetNextHop b) d)))"
    "route_of (m_routingTable s') (rq_origin h) = Some (settled (snd (InsertPrecursor (GetNextHop d) b)))"
    "rp_seqNo s' = rp_seqNo s2"
    by auto
  show ?thesis
    using sent [unfolded find [rule_format]] b
    by (intro exI [of _ b] exI [of _ k] exI [of _ gs]) simp
qed

text \<open>The node of the witnesses knows a route to 4, over 6; the node 3 asks for it.\<close>

definition example_rreq_known :: RreqHeader where
  "example_rreq_known = example_rreq\<lparr>rq_flags := 0x20, rq_dst := 4, rq_dstSeqNo := 5\<rparr>"

lemma example_known:
  "rq_dst example_rreq_known = 4" "rq_origin example_rreq_known = ip4 10 1 2 9"
  "rq_dstSeqNo example_rreq_known = 5" "rq_hopCount example_rreq_known = 3" "rq_hopCount example_rreq = 3"
  "RreqHeader_GetUnknownSeqno example_rreq_known = False"
  "RreqHeader_GetDestinationOnly example_rreq_known = False"
  "RreqHeader_GetGratuitousRrep example_rreq_known = True"
  by (simp_all add: example_rreq_known_def example_rreq_def RreqHeader_GetUnknownSeqno_def
      RreqHeader_GetDestinationOnly_def RreqHeader_GetGratuitousRrep_def get_flag_def)

lemma example_route_4:
  "route_of (purged (example_env 6) example_node) 4 = Some (example_rte 4 6 90)"
  "m_flag (example_rte 4 6 90) = VALID" "m_validSeqNo (example_rte 4 6 90)" "GetNextHop (example_rte 4 6 90) \<noteq> 3"
  "m_iface (example_rte 4 6 90) = example_iface" "s32_sub (m_seqNo (example_rte 4 6 90)) 5 = Some 2"
  by (simp_all add: example_rte_def RoutingTableEntry_new_def s32_sub_def)

lemma example_seen_4:
  "m_precursorList (settled (snd (InsertPrecursor 3 (example_rte 4 6 90)))) = [3]"
  "m_hops (example_rte 4 6 90) = 2" "GetNextHop (example_rte 4 6 90) = 6" "ip4 10 1 2 9 \<noteq> 3"
  by (simp_all add: settled_def InsertPrecursor_def LookupPrecursor_def example_rte_def RoutingTableEntry_new_def ip4_def)

lemma example_known_premises:
  "\<not> IsMyOwnAddress (rq_dst example_rreq_known) example_node"
  "rq_dst example_rreq_known \<noteq> rq_origin example_rreq_known" "rq_dst example_rreq_known \<noteq> 3"
  "route_of (purged (example_env 6) example_node) (rq_dst example_rreq_known) = Some (example_rte 4 6 90)"
  "m_flag (example_rte 4 6 90) = VALID" "m_validSeqNo (example_rte 4 6 90)" "GetNextHop (example_rte 4 6 90) \<noteq> 3"
  "RreqHeader_GetUnknownSeqno example_rreq_known
   \<or> (\<exists>n\<ge>0. s32_sub (m_seqNo (example_rte 4 6 90)) (rq_dstSeqNo example_rreq_known) = Some n)"
  "\<not> RreqHeader_GetDestinationOnly example_rreq_known"
  "lost (now (example_env 6)) (rp_nb example_node) = []" "0 \<le> hello_lifetime (par example_node)"
  "0 \<le> reverse_lifetime (par example_node) (rq_hopCount example_rreq_known + 1)"
  "0 \<le> m_activeRouteTimeout (par example_node)"
  using example_route_4 example_timeouts example_addresses
  by (simp_all add: example_known example_node_address(1) lost_def example_nb) (simp add: ip4_def)

lemma example_known_runs:
  assumes "pk_bytes p = RreqHeader_Serialize be_codec example_rreq_known"
  shows "\<exists>s'. RecvRequest (example_env 6) p (ip4 10 1 1 1) 3 example_node = Some s'"
proof -
  let ?E = "example_env 6" and ?h = example_rreq_known
  have "RreqHeader_Deserialize (wire ?E) (pk_bytes p) = Some (?h, [])"
    using be.rreq_des_ser [of ?h "[]"] assms by simp
  from RecvRequest_taken_up [OF this example_taken_up] obtain c where
    run: "RecvRequest ?E p (ip4 10 1 1 1) 3 example_node = do {
      (toOrigin, s) \<leftarrow> request_prepared ?E (next_hop ?h) (ip4 10 1 1 1) 3
        (example_node\<lparr>m_routingTable := purged ?E example_node, m_rreqIdCache := c\<rparr>);
      (if IsMyOwnAddress (rq_dst ?h) s
       then (case lookup ?E (rq_origin ?h) s of
               (r, s) \<Rightarrow> SendReply ?E (next_hop ?h) (into r toOrigin) s)
       else answer_or_forward ?E (p\<lparr>pk_bytes := []\<rparr>) (next_hop ?h) toOrigin 3 s)
    }" by blast
  let ?s = "example_node\<lparr>m_routingTable := purged ?E example_node, m_rreqIdCache := c\<rparr>"
  have "purged ?E ?s = purged ?E example_node"
    using purged_idem [OF example_node_inv, of ?E] by (simp add: purged_def)
  then have "\<exists>toOrigin s1. request_prepared ?E (next_hop ?h) (ip4 10 1 1 1) 3 ?s = Some (toOrigin, s1)"
    using prepared_total [of ?E ?s "next_hop ?h"] example_unknown [of "ip4 10 1 2 9"] example_addresses example_timeouts
    by (simp add: example_known lost_def example_nb del: One_nat_def)
  then obtain toOrigin s1 where prep: "request_prepared ?E (next_hop ?h) (ip4 10 1 1 1) 3 ?s = Some (toOrigin, s1)"
    by blast
  obtain b s2 where path: "(if IsMyOwnAddress (rq_dst ?h) s1
      then (case lookup ?E (rq_origin ?h) s1 of
              (r, s) \<Rightarrow> SendReply ?E (next_hop ?h) (into r toOrigin) s)
      else answer_or_forward ?E (p\<lparr>pk_bytes := []\<rparr>) (next_hop ?h) toOrigin 3 s1) =
     SendReplyByIntermediateNode ?E (example_rte 4 6 90) b (RreqHeader_GetGratuitousRrep ?h) s2"
    and b: "m_iface b = example_iface"
    and find: "\<forall>i. FindSocketWithInterfaceAddress i s2 = FindSocketWithInterfaceAddress i example_node"
    by (rule intermediate_path [where p = "p\<lparr>pk_bytes := []\<rparr>", OF example_node_inv example_known_premises prep, unfolded example_recv_iface])
  have "\<exists>s'. SendReplyByIntermediateNode ?E (example_rte 4 6 90) b (RreqHeader_GetGratuitousRrep ?h) s2 = Some s'"
    by (rule IntermediateNode_total [of _ _ 0 _ 0]) (simp_all add: b find example_node_address example_route_4)
  then show ?thesis unfolding run prep bind.bind_lunit prod.case path .
qed

theorem intermediate_node_answers_witness:
  "\<exists>s' b gs. RecvRequest (example_env 6)
       (example_rreq_packet\<lparr>pk_bytes := RreqHeader_Serialize be_codec example_rreq_known\<rparr>)
       (ip4 10 1 1 1) 3 example_node = Some s'
     \<and> log s' = log example_node @
         [SockSend 0 (rrep_packet (example_env 6) 4 (intermediate_reply (example_env 6) (example_rte 4 6 90) b)) 3,
          SockSend 0 (rrep_packet (example_env 6) 2 (gratuitous_reply (example_env 6) (example_rte 4 6 90) b)) 6]
     \<and> map_option m_precursorList (route_of (m_routingTable s') 4) = Some [3]"
proof -
  let ?p = "example_rreq_packet\<lparr>pk_bytes := RreqHeader_Serialize be_codec example_rreq_known\<rparr>"
  obtain s' where s': "RecvRequest (example_env 6) ?p (ip4 10 1 1 1) 3 example_node = Some s'"
    using example_known_runs [of ?p] by auto
  have bytes: "pk_bytes ?p = RreqHeader_Serialize (wire (example_env 6)) example_rreq_known @ []" by simp
  have "codec_ok (wire (example_env 6))" by (simp add: be_codec_ok)
  from intermediate_node_answers [OF example_node_inv this bytes example_taken_up example_known_premises s'] s'
  show ?thesis
    by (auto simp: example_known example_node_address example_route_4(5) example_seen_4 simp del: One_nat_def)
qed

end
