(* ===== verification/Never_Stops.thy ===== *)
theory Never_Stops
  imports Link_Failures Chain_Props Intermediate_Props
begin

text \<open>
  No message stops an able agent. The handlers dereference a socket they look up by the interface of a
  route, subtract sequence numbers as signed integers and report the neighbours that are lost in
  between; with what \<open>able\<close> says of the agent and a sound message none of this can fail.
\<close>

declare One_nat_def [simp del]

subsection \<open>What the handlers store\<close>

lemma room_less: "room n s \<Longrightarrow> m \<le> n \<Longrightarrow> room m s"
  by (simp add: room_def)

lemma room_purged: "room n s \<Longrightarrow> room n (s\<lparr>m_routingTable := purged E s\<rparr>)"
  using room.I_lookupD [of n s E 0] by (simp add: lookup_eq)

lemma room_stored:
  assumes "smap_inv (m_ipv4AddressEntry (m_routingTable s))"
  shows "room (Suc n) s \<Longrightarrow> room n (add_route E e s)" "room n s \<Longrightarrow> room n (update_route e s)"
proof -
  have p: "smap_inv (m_ipv4AddressEntry (purged E s))"
    using assms by (simp add: purged_def RoutingTable_Purge_def)
  have "length (smap_insert (GetDestination e) (settled e) (m_ipv4AddressEntry (purged E s)))
      \<le> Suc (length (m_ipv4AddressEntry (m_routingTable s)))"
    using length_purged [of E s] p by (simp add: smap_insert_def length_smap_put)
  then show "room (Suc n) s \<Longrightarrow> room n (add_route E e s)"
    by (simp add: room_def add_route_def RoutingTable_AddRoute_def Let_def settled_def [symmetric] purged_def)
  show "room n s \<Longrightarrow> room n (update_route e s)"
    using assms by (simp add: room_def update_route_def RoutingTable_Update_def length_smap_put)
qed

lemma inv_keys: "rp_inv s \<Longrightarrow> smap_inv (m_ipv4AddressEntry (m_routingTable s))"
  "rp_inv s \<Longrightarrow> smap_inv (m_ipv4AddressEntry (purged E s))"
  using purged_ok [of s E] by (simp_all add: rp_inv_def entries_all_def)

lemma room_at:
  assumes "rp_inv s" "room (Suc n) s"
  shows "room n (add_route E e (s\<lparr>m_routingTable := purged E s\<rparr>))" "room n (update_route e (s\<lparr>m_routingTable := purged E s\<rparr>))"
  using assms room_less [OF room_purged [OF assms(2), of E], of n]
  by (auto intro!: room_stored room_purged simp: inv_keys)

lemma room_handlers:
  assumes "rp_inv s" "room (Suc n) s"
  shows "room n (UpdateRouteToNeighbor E a b s)" "room n (neighbor_route E h b a s)"
    "reverse_route E h hop b a s = Some (rt, s') \<Longrightarrow> room n s'"
proof -
  note [simp] = room_at [OF assms] room_less [OF room_purged [OF assms(2)], of n]
  show "room n (UpdateRouteToNeighbor E a b s)"
    by (simp add: UpdateRouteToNeighbor_def lookup_eq Let_def split: option.split)
  show "room n (neighbor_route E h b a s)"
    by (simp add: neighbor_route_def lookup_eq Let_def split: option.split)
  show "reverse_route E h hop b a s = Some (rt, s') \<Longrightarrow> room n s'"
    by (auto simp add: reverse_route_def lookup_eq Let_def bind_eq_Some_conv split: option.splits)
qed

lemma able_neighbor:
  assumes "able E S B (Suc n) s" and "recv_iface E b \<in> snd ` set S" and "a \<notin> {ip4 127 0 0 1, any_addr E}"
  shows "able E S B n (UpdateRouteToNeighbor E a b s)"
  using assms unfolding able_def
  by (intro conjI good.I_UpdateRouteToNeighbor routed.I_UpdateRouteToNeighbor tame.I_UpdateRouteToNeighbor room_handlers(1))
    simp_all

subsection \<open>Requests\<close>

lemma able_prepared:
  assumes s: "able E S B (Suc (Suc n)) s" and r: "recv_iface E r \<in> snd ` set S"
    and h: "request_ok (harmless (any_addr E)) h" and src: "src \<notin> {ip4 127 0 0 1, any_addr E}"
  obtains toOrigin s' where "request_prepared E h r src s = Some (toOrigin, s')" "able E S B n s'"
proof -
  have parts: "rp_inv s" "routed E S B s" "tame_agent E s" "room (Suc (Suc n)) s" using s by (simp_all add: able_def)
  have "reverse_route E h (rq_hopCount h) r src s \<noteq> None"
    using able_low [OF s, of "rq_origin h"] low_sub h
    by (auto simp: reverse_route_def lookup_eq Let_def request_ok_def split: option.split)
  then obtain toOrigin s1 where 1: "reverse_route E h (rq_hopCount h) r src s = Some (toOrigin, s1)" by auto
  have s1: "able E S B (Suc n) s1"
    unfolding able_def
    using presD [OF good.I_reverse_route [OF parts(1)] 1] presD [OF routed.I_reverse_route [OF parts(2)] 1]
      presD [OF tame.I_reverse_route [OF parts(3)] 1] room_handlers(3) [OF parts(1,4) 1] r h src by simp
  let ?n = "neighbor_route E h r src s1"
  have n: "able E S B n ?n"
    using s1 r h src unfolding able_def
    by (intro conjI good.I_neighbor_route routed.I_neighbor_route tame.I_neighbor_route room_handlers(2)) simp_all
  obtain s' where "nb_update E src (hello_lifetime (par ?n)) ?n = Some s'" "able E S B n s'"
    using able_nb_update [OF n] by (auto simp: yields_iff)
  with that 1 show ?thesis by (simp add: request_prepared_def Let_def)
qed

lemma able_answer:
  assumes s: "able E S B n s" and h: "rq_dst h \<noteq> ip4 127 0 0 1" "low (rq_dstSeqNo h)"
    and e: "route_of (purged E s) (rq_origin h) = Some e" "live E e" "m_iface e \<in> snd ` set S"
  shows "answer_or_forward E p h toOrigin src s \<noteq> None"
proof (cases "route_of (purged E s) (rq_dst h)")
  case None
  then show ?thesis by (simp add: answer_or_forward_def lookup_eq)
next
  case (Some d)
  let ?u = "s\<lparr>m_routingTable := purged E s\<rparr>"
  have u: "able E S B n ?u" using s by (rule able_lookup)
  obtain v where v: "s32_sub (m_seqNo d) (rq_dstSeqNo h) = Some v"
    using low_sub [OF able_low [OF s Some] h(2)] by simp
  have "rp_inv s" using s by (simp add: able_def)
  then have "route_of (purged E ?u) (rq_origin h) = Some e"
    using e(1) purged_idem [of s E] by (simp add: purged_def)
  moreover obtain k where "FindSocketWithInterfaceAddress (m_iface e) (?u\<lparr>m_routingTable := purged E ?u\<rparr>) = Some k"
    using able_socket [OF able_lookup [OF u] e(3)] by blast
  moreover have "\<exists>k. FindSocketWithInterfaceAddress (m_iface d) (?u\<lparr>m_routingTable := purged E ?u\<rparr>) = Some k"
    if "m_flag d = VALID"
    using able_socket [OF able_lookup [OF u]] able_iface [OF s Some] valid_settled [OF that] h(1) by blast
  ultimately have "\<exists>s'. (case lookup E (rq_origin h) ?u of (r, s) \<Rightarrow>
      SendReplyByIntermediateNode E d (into r toOrigin) g s) = Some s'" if "m_flag d = VALID" for g
    using that IntermediateNode_total [of e "?u\<lparr>m_routingTable := purged E ?u\<rparr>" _ d]
    by (auto simp: lookup_eq into_def)
  then show ?thesis
    by (auto simp: answer_or_forward_def lookup_eq Some v)
qed

lemma RecvRequest_refused:
  assumes "RreqHeader_Deserialize (wire E) (pk_bytes p) = Some (h, rest)" and "\<not> taken_up E h src s"
  shows "\<exists>s'. RecvRequest E p receiver src s = Some s'"
proof -
  obtain d c where d: "IdCache_IsDuplicate (now E) (rq_origin h) (rq_requestID h) (m_rreqIdCache s) = (d, c)"
    by fastforce
  have "d \<or> (\<exists>e. route_of (purged E s) src = Some e \<and> m_blackListState e)"
    using assms(2) d IdCache_dup_iff [of "now E" "rq_origin h" "rq_requestID h" "m_rreqIdCache s"]
    by (auto simp: taken_up_def IdCache_seen_None)
  then show ?thesis
    by (auto simp: RecvRequest_def assms(1) lookup_eq d Let_def)
qed

lemma able_RecvRequest:
  assumes s: "able E S B (Suc (Suc n)) s" and des: "RreqHeader_Deserialize (wire E) (pk_bytes p) = Some (h, rest)"
    and times: "0 \<le> reverse_lifetime (par s) (rq_hopCount h + 1)" "0 \<le> m_activeRouteTimeout (par s)"
    and r: "recv_iface E receiver \<in> snd ` set S" and src: "src \<notin> {ip4 127 0 0 1, any_addr E}"
    and h: "request_ok (harmless (any_addr E)) h" "low (rq_dstSeqNo h)"
  shows "RecvRequest E p receiver src s \<noteq> None"
proof (cases "taken_up E h src s")
  case False
  then show ?thesis using RecvRequest_refused [OF des] by blast
next
  case True
  from RecvRequest_taken_up [OF des True, of receiver] obtain c where c: "RecvRequest E p receiver src s = do {
      (toOrigin, s) \<leftarrow> request_prepared E (next_hop h) receiver src
        (s\<lparr>m_routingTable := purged E s, m_rreqIdCache := c\<rparr>);
      (if IsMyOwnAddress (rq_dst h) s
       then (case lookup E (rq_origin h) s of
               (r, s) \<Rightarrow> SendReply E (next_hop h) (into r toOrigin) s)
       else answer_or_forward E (p\<lparr>pk_bytes := rest\<rparr>) (next_hop h) toOrigin src s)
    }" and seen: "IdCache_inv (m_rreqIdCache s) \<longrightarrow> IdCache_inv c" by blast
  let ?s = "s\<lparr>m_routingTable := purged E s, m_rreqIdCache := c\<rparr>"
  have "able E S B (Suc (Suc n)) ?s"
    using able_lookup [OF s] seen
    by (auto simp: able_def rp_inv_def routed_def tame_agent_def room_def)
  moreover have "request_ok (harmless (any_addr E)) (next_hop h)" using h by (simp add: next_hop_def request_ok_def)
  ultimately obtain toOrigin s1 where prep: "request_prepared E (next_hop h) receiver src ?s = Some (toOrigin, s1)"
    and s1: "able E S B n s1"
    by (rule able_prepared [OF _ r _ src])
  have inv: "rp_inv s" using s by (simp add: able_def)
  obtain e where e: "lookup E (rq_origin h) s1 = (Some e, s1\<lparr>m_routingTable := purged E s1\<rparr>)"
    "m_iface e = recv_iface E receiver" "live E e"
    by (rule prepared_origin [OF inv times prep])
  obtain k where k: "FindSocketWithInterfaceAddress (m_iface e) s1 = Some k"
    using able_socket [OF s1] r e(2) by auto
  have "SendReply E (next_hop h) (into (Some e) toOrigin) (s1\<lparr>m_routingTable := purged E s1\<rparr>) \<noteq> None"
    using k by (auto simp: SendReply_def into_def Let_def FindSocketWithInterfaceAddress_def)
  moreover have "answer_or_forward E (p\<lparr>pk_bytes := rest\<rparr>) (next_hop h) toOrigin src s1 \<noteq> None"
    using e r h by (intro able_answer [OF s1, where e = e]) (simp_all add: lookup_eq next_hop_def request_ok_def)
  ultimately show ?thesis using e(1) by (simp add: c prep)
qed

subsection \<open>Replies\<close>

text \<open>The sender of a message has an entry that lasts and is no first search.\<close>

definition sender_known :: "ns3 \<Rightarrow> ipv4 \<Rightarrow> rp \<Rightarrow> bool" where
  "sender_known E a s \<longleftrightarrow> smap_inv (m_ipv4AddressEntry (m_routingTable s)) \<and>
     (\<exists>e. route_of (m_routingTable s) a = Some e \<and> settled_entry e \<and> live E e)"

lemma sender_known_purged: "sender_known E a s \<Longrightarrow> sender_known E a (s\<lparr>m_routingTable := purged E s\<rparr>)"
  using route_of_Purge [of "m_routingTable s" "now E" a]
  by (auto simp: sender_known_def purged_def purge_entry_live) (simp add: RoutingTable_Purge_def)

lemma sender_known_stored:
  assumes "sender_known E a s" and "settled_entry e" "live E e"
  shows "sender_known E a (add_route E e s)" "sender_known E a (update_route e s)"
proof -
  have "settled_entry (settled e)" using assms(2) by (auto simp: settled_entry_def settled_def)
  moreover have "smap_inv (m_ipv4AddressEntry (m_routingTable (add_route E e s)))"
    "smap_inv (m_ipv4AddressEntry (m_routingTable (update_route e s)))"
    using assms(1) by (simp_all add: sender_known_def add_route_def update_route_def RoutingTable_AddRoute_def
        RoutingTable_Update_def RoutingTable_Purge_def Let_def)
  ultimately show "sender_known E a (add_route E e s)" "sender_known E a (update_route e s)"
    using assms sender_known_purged [OF assms(1)]
    by (auto simp: sender_known_def add_route_def update_route_def route_of_AddRoute route_of_Update purged_def)
qed

lemma sender_known_neighbor:
  assumes "rp_inv s" and "0 \<le> m_activeRouteTimeout (par s)"
  shows "sender_known E a (UpdateRouteToNeighbor E a b s)"
proof -
  let ?u = "UpdateRouteToNeighbor E a b s"
  have p: "smap_inv (m_ipv4AddressEntry (purged E s))"
    using assms(1) by (simp add: rp_inv_def entries_all_def purged_def RoutingTable_Purge_def)
  have u: "smap_inv (m_ipv4AddressEntry (m_routingTable ?u))"
    using good.I_UpdateRouteToNeighbor [OF assms(1)] by (simp add: rp_inv_def entries_all_def)
  have new: "settled_entry (settled e)" if "m_flag e = VALID" for e
    using that by (simp add: settled_entry_def settled_def)
  have "\<exists>e. route_of (m_routingTable ?u) a = Some e \<and> settled_entry e \<and> live E e"
    using assms(2) purged_entry_live [OF assms(1), of E a] purged_idem [OF assms(1), of E] new
    by (auto simp: UpdateRouteToNeighbor_def lookup_eq Let_def add_route_def update_route_def route_of_AddRoute
        route_of_Update settled_entry_def split: option.split)
  with u show ?thesis by (simp add: sender_known_def)
qed


lemma able_SendReplyAck:
  assumes "able E S B n s" and "sender_known E a s" and "a \<noteq> ip4 127 0 0 1"
  shows "yields (able E S B n) (SendReplyAck E a s)"
proof (rule yields_pres)
  obtain e where e: "route_of (purged E s) a = Some e" "settled_entry e"
    using sender_known_purged [OF assms(2)] by (auto simp: sender_known_def)
  then obtain k where "FindSocketWithInterfaceAddress (m_iface e) (s\<lparr>m_routingTable := purged E s\<rparr>) = Some k"
    using able_socket [OF able_lookup [OF assms(1)]] able_iface [OF assms(1) e assms(3)] by blast
  with e(1) show "SendReplyAck E a s \<noteq> None" by (simp add: SendReplyAck_def lookup_eq into_def Let_def)
  obtain s' where "SendReplyAck E a s = Some s'" using \<open>SendReplyAck E a s \<noteq> None\<close> by blast
  moreover from this have "\<exists>x. s' = emit x (s\<lparr>m_routingTable := purged E s\<rparr>) \<and> (\<forall>d k. x \<noteq> SchedRequest d k)"
    by (auto simp: SendReplyAck_def lookup_eq Let_def bind_eq_Some_conv)
  ultimately show "pred_option (able E S B n) (SendReplyAck E a s)"
    using able_lookup [OF assms(1)] by (auto simp: able_def rp_inv_def routed_def tame_agent_def room_def emit_def)
qed

lemma able_forward_reply:
  assumes s: "able E S B n s" and h: "reply_ok (harmless (any_addr E)) h"
  shows "forward_reply E p h s \<noteq> None"
proof (cases "route_of (purged E s) (rp_origin h)")
  case None
  then show ?thesis by (simp add: forward_reply_def lookup_eq)
next
  case (Some e)
  show ?thesis
  proof (cases "m_flag e = IN_SEARCH")
    case True
    with Some show ?thesis by (simp add: forward_reply_def lookup_eq)
  next
    case False
    have i: "m_iface e \<in> snd ` set S"
      by (rule able_iface [OF s Some]) (use False h in \<open>auto simp: settled_entry_def reply_ok_def\<close>)
    let ?v = "s\<lparr>m_routingTable := purged E s\<rparr>"
    let ?e = "SetLifeTime (now E) (max (m_activeRouteTimeout (par s)) (GetLifeTime (now E) e)) e"
    have q: "over_socket (snd ` set S) (any_addr E) ?e" "m_iface ?e = m_iface e"
      using i by (simp_all add: over_socket_edits(5) entry_edits)
    have "routed E S B ?v" using able_lookup [OF s] by (simp add: able_def)
    then have "routed E S B (update_route ?e ?v)" using q(1) by (rule routed.I_update)
    moreover obtain b r t where lv: "lookup_valid E (rp_dst h) (update_route ?e ?v) = (b, r, t)"
      using prod_cases3 by blast
    ultimately have t: "routed E S B t" "\<forall>d. r = Some d \<longrightarrow> over_socket (snd ` set S) (any_addr E) d"
      using routed.I_lookup_valid by blast+
    let ?w = "case (b, r) of (True, Some d) \<Rightarrow> update_precursors E d ?e t | _ \<Rightarrow> t"
    have "routed E S B ?w"
      using t q(1) by (auto split: option.split bool.split intro!: routed.I_update_precursors)
    with i obtain k where "FindSocketWithInterfaceAddress (m_iface e) ?w = Some k"
      using socket_of_iface [of "m_iface e" ?w] by (auto simp: routed_def)
    then show ?thesis
      using Some False lv q(2) by (cases b; cases r) (simp_all add: forward_reply_def lookup_eq Let_def)
  qed
qed

lemma able_stored:
  assumes "able E S B (Suc n) s" and "m_iface e \<in> snd ` set S" "tame e" "distinct (m_precursorList e)"
  shows "able E S B n (update_route e (s\<lparr>m_routingTable := purged E s\<rparr>))"
    "GetDestination e \<noteq> any_addr E \<Longrightarrow> able E S B n (add_route E e (s\<lparr>m_routingTable := purged E s\<rparr>))"
  using able_lookup [OF assms(1)] assms room_at [where s = s and E = E and n = n] unfolding able_def
  by (auto intro!: good.I_update routed.I_update tame.I_update good.I_add routed.I_add tame.I_add over_socket_edits(5))

lemma able_ProcessHello:
  assumes s: "able E S B (Suc n) s" and r: "recv_iface E r \<in> snd ` set S" and h: "reply_ok (harmless (any_addr E)) h"
  shows "ProcessHello E h r s \<noteq> None"
proof -
  have nb: "nb_update E a l x \<noteq> None" if "able E S B n x" for a l x
    using able_nb_update [OF that, of a l] by (auto simp: yields_iff)
  have old: "tame e \<and> distinct (m_precursorList e)" if "route_of (purged E s) (rp_dst h) = Some e" for e
  proof -
    have "rte_ok (rp_dst h) e"
      using purged_ok [of s E] that s unfolding able_def rp_inv_def entries_all_def by blast
    with able_entry(1) [OF s that] show ?thesis by (simp add: tame_at_def rte_ok_def)
  qed
  have h: "low (rp_dstSeqNo h)" "rp_dst h \<noteq> any_addr E" "rp_dst h \<noteq> ip4 127 0 0 1"
    using h by (simp_all add: reply_ok_def)
  show ?thesis
  proof (cases "route_of (purged E s) (rp_dst h)")
    case None
    have "able E S B n (add_route E (RoutingTableEntry_new (now E) (Some (recv_dev E r)) (rp_dst h) True
        (rp_dstSeqNo h) (recv_iface E r) 1 (rp_dst h) l) (s\<lparr>m_routingTable := purged E s\<rparr>))" for l
      using h r by (intro able_stored(2) [OF s] tame_edits(5)) simp_all
    with None nb show ?thesis by (simp add: ProcessHello_def lookup_eq Let_def)
  next
    case (Some e)
    have "able E S B n (update_route e' (s\<lparr>m_routingTable := purged E s\<rparr>))"
      if "m_iface e' = recv_iface E r" "m_seqNo e' = rp_dstSeqNo h" "GetNextHop e' = rp_dst h"
        "GetDestination e' = GetDestination e" "m_precursorList e' = m_precursorList e" for e'
      using that old [OF Some] h r by (intro able_stored(1) [OF s]) (simp_all add: tame_def)
    with Some nb show ?thesis by (simp add: ProcessHello_def lookup_eq Let_def entry_edits)
  qed
qed
lemma able_RecvReply:
  assumes s: "able E S B (Suc n) s" and des: "RrepHeader_Deserialize (wire E) (pk_bytes p) = Some (h, rest)"
    and r: "recv_iface E receiver \<in> snd ` set S" and known: "sender_known E sender s"
    and sender: "sender \<noteq> ip4 127 0 0 1" and h: "reply_ok (harmless (any_addr E)) h"
  shows "RecvReply E p receiver sender s \<noteq> None"
proof (cases "rp_dst h = rp_origin h")
  case True
  have "ProcessHello E (h\<lparr>rp_hopCount := c\<rparr>) receiver s \<noteq> None" for c
    using h by (intro able_ProcessHello [OF s r]) (simp add: reply_ok_def)
  with True show ?thesis by (simp add: RecvReply_def des Let_def)
next
  case False
  let ?u = "s\<lparr>m_routingTable := purged E s\<rparr>"
  let ?h = "h\<lparr>rp_hopCount := rp_hopCount h + 1\<rparr>"
  define new where "new = RoutingTableEntry_new (now E) (Some (recv_dev E receiver)) (rp_dst h) True
    (rp_dstSeqNo h) (recv_iface E receiver) (ucast (rp_hopCount h + 1)) sender (RrepHeader_GetLifeTime ?h)"
  have "able E S B n (update_route new ?u)" "able E S B n (add_route E new ?u)" "able E S B n ?u"
    using able_stored [OF s, of new] r h sender able_less [OF able_lookup [OF s], of n]
    by (simp_all add: new_def tame_def reply_ok_def)
  moreover have "settled_entry new" "live E new"
    by (simp_all add: new_def settled_entry_def RrepHeader_GetLifeTime_def time_units)
  ultimately have stored: "able E S B n x \<and> sender_known E sender x"
    if "x \<in> {?u, add_route E new ?u, update_route new ?u}" for x
    using that sender_known_purged [OF known] by (auto intro: sender_known_stored)
  have low: "low (rp_dstSeqNo h)" using h by (simp add: reply_ok_def)
  have "\<exists>v. install_reply E ?h (rp_hopCount h + 1) new (route_of (purged E s) (rp_dst h)) ?u = Some v
      \<and> v \<in> {?u, add_route E new ?u, update_route new ?u}"
    using low_sub [OF low able_low [OF s, of "rp_dst h"]]
    by (cases "route_of (purged E s) (rp_dst h)") (auto simp: install_reply_def accept_reply_def)
  then obtain v where v: "install_reply E ?h (rp_hopCount h + 1) new (route_of (purged E s) (rp_dst h)) ?u = Some v"
    "able E S B n v" "sender_known E sender v"
    using stored by blast
  obtain w where w: "SendReplyAck E sender v = Some w" "able E S B n w"
    using able_SendReplyAck [OF v(2,3) sender] by (auto simp: yields_iff)
  have "reply_ok (harmless (any_addr E)) ?h" "reply_ok (harmless (any_addr E)) (RrepHeader_SetAckRequired False ?h)"
    using h by (simp_all add: reply_ok_def RrepHeader_SetAckRequired_def)
  then have "forward_reply E q g x \<noteq> None" if "x \<in> {v, w}" "g \<in> {?h, RrepHeader_SetAckRequired False ?h}" for q g x
    using that able_forward_reply [OF v(2)] able_forward_reply [OF w(2)] by blast
  then show ?thesis
    using False v(1) w by (auto simp: RecvReply_def des Let_def lookup_eq new_def)
qed

subsection \<open>Errors\<close>

text \<open>The destinations a received message is about are among those it lists.\<close>

lemma fold_same_key:
  "smap_inv m \<Longrightarrow> smap_inv (fold (\<lambda>i m. if fst i = k then smap_insert k v m else m) ds m)
     \<and> length (fold (\<lambda>i m. if fst i = k then smap_insert k v m else m) ds m)
       \<le> (if map_of m k = None then Suc (length m) else length m)"
proof (induction ds arbitrary: m)
  case (Cons i ds)
  show ?case
  proof (cases "fst i = k \<and> map_of m k = None")
    case True
    then have "smap_insert k v m = smap_put k v m" by (simp add: smap_insert_def)
    with Cons.IH [of "smap_put k v m"] Cons.prems True show ?thesis
      by (simp add: length_smap_put map_of_put)
  next
    case False
    then have "(if fst i = k then smap_insert k v m else m) = m" by (auto simp: smap_insert_def)
    with Cons.IH [OF Cons.prems] show ?thesis by simp
  qed
qed simp

lemma collect_length:
  "smap_inv m \<Longrightarrow> length (fst (collect_unreachable ds h m)) \<le> length (re_unreachable h) + length m"
proof (induction ds h m rule: collect_unreachable.induct)
  case (1 ds h m)
  show ?case
  proof (cases "re_unreachable h")
    case Nil
    then show ?thesis by (subst collect_unreachable.simps) (simp add: RerrHeader_RemoveUnDestination_def)
  next
    case (Cons x xs)
    let ?m = "fold (\<lambda>i m. if fst i = fst x then smap_insert (fst x) (snd x) m else m) ds m"
    have r: "RerrHeader_RemoveUnDestination h = (Some x, h\<lparr>re_unreachable := xs\<rparr>)"
      by (simp add: RerrHeader_RemoveUnDestination_def Cons)
    have m: "smap_inv ?m" "length ?m \<le> Suc (length m)"
      using fold_same_key [OF 1(2), of "fst x" "snd x" ds] by (simp_all split: if_splits)
    from 1(1) [OF r [symmetric] refl m(1)] m(2) show ?thesis
      by (subst collect_unreachable.simps) (simp add: r Cons)
  qed
qed

lemma collected_all: "re_unreachable (snd (collect_unreachable ds h m)) = []"
proof (induction ds h m rule: collect_unreachable.induct)
  case (1 ds h m)
  then show ?case
    by (subst collect_unreachable.simps)
      (auto simp: RerrHeader_RemoveUnDestination_def split: list.splits)
qed


lemma able_RecvError:
  assumes s: "able E S B n s" and des: "RerrHeader_Deserialize (wire E) (pk_bytes p) = Some (h, rest)"
    and "length (re_unreachable h) < 256"
  shows "RecvError E p src s \<noteq> None"
proof -
  let ?u = "s\<lparr>m_routingTable := purged E s\<rparr>"
  let ?ds = "fst (RoutingTable_GetListOfDestinationWithNextHop (now E) src (m_routingTable s))"
  have inv: "rp_inv s" and u: "able E S B n ?u" using s able_lookup by (simp_all add: able_def)
  obtain un g where un: "collect_unreachable ?ds h [] = (un, g)" by fastforce
  have g: "rerr_good g" "re_unreachable g = []"
    using rerr_good_collected [of ?ds h "[]"] collected_all [of ?ds h "[]"] by (simp_all add: un)
  let ?m = "fold (\<lambda>p m. smap_insert (fst p) (snd p) m) un []"
  let ?pre = "append_new (concat (map (\<lambda>i. precursors_of (purged E s) (fst i)) un)) []"
  have "length ?m < 256"
    using collect_length [of "[]" ?ds h] length_smap_of_list_le [of un] assms(3) by (simp add: un smap_of_list_def)
  moreover have "smap_inv ?m" by (rule smap_inv_fold_insert) simp
  ultimately have good: "rerr_good (g\<lparr>re_unreachable := ?m\<rparr>)" by (simp add: rerr_good_def)
  have same: "purged E ?u = purged E s" using purged_idem [OF inv, of E] by (simp add: purged_def)
  have loop: "rerr_loop E un g [] ?u = Some (g\<lparr>re_unreachable := ?m\<rparr>, ?pre, ?u)"
    using rerr_loop_eq [of ?u E g un "[]"] g \<open>length ?m < 256\<close> same by (simp add: Let_def)
  have "ip4 127 0 0 1 \<notin> set ?pre" using able_precursors [OF s] by auto
  from able_SendRerrMessage [OF u good this]
  show ?thesis
    by (auto simp: RecvError_def des list_via_eq un loop rerr_rest_def Let_def yields_iff)
qed

subsection \<open>All messages\<close>

text \<open>A message the handlers are meant for: one with harmless sequence numbers and addresses, and a
  request that comes from near enough for the reverse route to last.\<close>

definition sound_message :: "codec \<Rightarrow> ipv4 \<Rightarrow> params \<Rightarrow> u8 list \<Rightarrow> bool" where
  "sound_message C u q bs \<longleftrightarrow>
     (\<exists>h. bs = rreq_bytes C h \<and> request_ok (harmless u) h \<and> low (rq_dstSeqNo h) \<and>
        0 \<le> reverse_lifetime q (rq_hopCount h + 1)) \<or>
     (\<exists>g. bs = rrep_bytes C g \<and> reply_ok (harmless u) g) \<or>
     (\<exists>h. bs = TypeHeader_Serialize (TypeHeader_new MADAODVTYPE_RERR) @ RerrHeader_Serialize C h \<and> rerr_good h) \<or>
     (\<exists>rest. bs = TypeHeader_Serialize (TypeHeader_new MADAODVTYPE_RREP_ACK) @ rest)"

lemma able_RecvMadaodv:
  assumes s: "able E S B (Suc (Suc (Suc n))) s" and C: "codec_ok C" "wire E = C"
    and k: "receiver_of k s = Some r" and r: "recv_iface E r \<in> snd ` set S"
    and m: "sound_message C (any_addr E) (par s) (pk_bytes pkt)" and sender: "sender \<notin> {ip4 127 0 0 1, any_addr E}"
    and t: "0 \<le> m_activeRouteTimeout (par s)"
  shows "RecvMadaodv E k pkt sender s \<noteq> None"
proof -
  let ?u = "UpdateRouteToNeighbor E sender r s"
  have u: "able E S B (Suc (Suc n)) ?u" using s r sender by (rule able_neighbor)
  obtain T where "?u = s\<lparr>m_routingTable := T\<rparr>" using neighbor_update_frame by blast
  then have f: "par ?u = par s" by simp
  have inv: "rp_inv s" using s by (simp add: able_def)
  note parse = byte_order.rreq_des_ser [OF byte_orderI [OF C(1)], of _ "[]", simplified]
    byte_order.rrep_des_ser [OF byte_orderI [OF C(1)], of _ "[]", simplified]
    byte_order.rerr_des_ser [OF byte_orderI [OF C(1)], of _ "[]", simplified]
  show ?thesis
    using m unfolding sound_message_def
  proof (elim disjE exE conjE)
    fix h
    assume h: "pk_bytes pkt = rreq_bytes C h" "request_ok (harmless (any_addr E)) h" "low (rq_dstSeqNo h)"
      "0 \<le> reverse_lifetime (par s) (rq_hopCount h + 1)"
    have "RecvRequest E (pkt\<lparr>pk_bytes := RreqHeader_Serialize C h\<rparr>) r sender ?u \<noteq> None"
      using h C(2) t parse(1) f by (intro able_RecvRequest [OF u _ _ _ r sender]) simp_all
    with h(1) k show ?thesis by (simp add: RecvMadaodv_eq)
  next
    fix g
    assume g: "pk_bytes pkt = rrep_bytes C g" "reply_ok (harmless (any_addr E)) g"
    have "RecvReply E (pkt\<lparr>pk_bytes := RrepHeader_Serialize C g\<rparr>) r sender ?u \<noteq> None"
      using g C(2) t sender sender_known_neighbor [OF inv] parse(2)
      by (intro able_RecvReply [OF u _ r]) simp_all
    with g(1) k show ?thesis by (simp add: RecvMadaodv_eq)
  next
    fix h
    assume h: "pk_bytes pkt = TypeHeader_Serialize (TypeHeader_new MADAODVTYPE_RERR) @ RerrHeader_Serialize C h" "rerr_good h"
    have "RecvError E (pkt\<lparr>pk_bytes := RerrHeader_Serialize C h\<rparr>) sender ?u \<noteq> None"
      using h(2) parse(3) C(2) by (intro able_RecvError [OF u, where h = h]) (simp_all add: rerr_good_def)
    with h(1) k show ?thesis by (simp add: RecvMadaodv_eq)
  next
    fix rest
    assume "pk_bytes pkt = TypeHeader_Serialize (TypeHeader_new MADAODVTYPE_RREP_ACK) @ rest"
    with k show ?thesis by (simp add: RecvMadaodv_eq)
  qed
qed

end
