(* ===== verification/Search_Props.thy ===== *)
theory Search_Props
  imports Discovery_Props
begin

text \<open>
  No search is forgotten: whatever happens to the agent, an entry that is searched for has its retry
  timer running or a delayed request scheduled. The invariant is kept for a fixed set \<open>K\<close> of searched
  destinations by all handlers that neither start nor end a search; those that do, change \<open>K\<close>.
\<close>

subsection \<open>Somebody will look after a search\<close>

definition waiting :: "ipv4 \<Rightarrow> rp \<Rightarrow> bool" where
  "waiting k s \<longleftrightarrow> enabled (EvRreqTimer k) s \<or> (\<exists>d. enabled (EvSendRequest d k) s)"

text \<open>No call is run more often than it was scheduled.\<close>

definition balanced :: "effect list \<Rightarrow> bool" where
  "balanced l \<longleftrightarrow> (\<forall>e. count_list l (Ran e) \<le> count_list l e)"

definition searched_in :: "ipv4 set \<Rightarrow> ipv4 \<Rightarrow> rte \<Rightarrow> bool" where
  "searched_in K k e \<longleftrightarrow> GetDestination e = k \<and> (m_flag e = IN_SEARCH \<longrightarrow> k \<in> K)"

text \<open>All searches are for destinations in \<open>K\<close>; those in \<open>W\<close> are waited for.\<close>

definition waits :: "ipv4 set \<Rightarrow> ipv4 set \<Rightarrow> rp \<Rightarrow> bool" where
  "waits K W s \<longleftrightarrow>
     entries_all (searched_in K) (m_routingTable s) \<and> (\<forall>k\<in>W. waiting k s) \<and> balanced (log s)"

interpretation si: entry_invariant "searched_in K"
  by unfold_locales (auto simp: searched_in_def Invalidate_def)

lemma balanced_send: "(\<And>y. x \<noteq> Ran y) \<Longrightarrow> balanced l \<Longrightarrow> balanced (l @ [x])"
  by (cases x) (auto simp: balanced_def intro: le_SucI)

lemma balanced_ran: "due e l \<Longrightarrow> balanced l \<Longrightarrow> balanced (l @ [Ran e])"
  by (auto simp: balanced_def due_def Suc_le_eq intro: le_SucI)

lemma waiting_emit:
  assumes "waiting k s" and "\<And>d. x \<noteq> Ran (SchedRequest d k)"
  shows "waiting k (emit x s)"
proof -
  have "due (SchedRequest d k) (log s @ [x])" if "due (SchedRequest d k) (log s)" for d
    using that assms(2) [of d] by (auto simp: due_def)
  with assms(1) show ?thesis by (auto simp: waiting_def emit_def)
qed

lemma waits_emit:
  assumes "waits K W s" and "\<And>y. x \<noteq> Ran y"
  shows "waits K W (emit x s)"
proof -
  have "waiting k (emit x s)" if "waiting k s" for k
    using that assms(2) by (intro waiting_emit)
  with assms(1) balanced_send [OF assms(2), of "log s"] show ?thesis
    by (auto simp: waits_def) (auto simp: emit_def)
qed

lemma waits_ran:
  assumes "waits K W s" and "due x (log s)"
  shows "waits K (W - {k. \<exists>d. x = SchedRequest d k}) (emit (Ran x) s)"
proof -
  have "waiting k (emit (Ran x) s)" if "waiting k s" "\<nexists>d. x = SchedRequest d k" for k
    using that by (intro waiting_emit) auto
  with assms balanced_ran [OF assms(2)] show ?thesis
    by (auto simp: waits_def) (auto simp: emit_def)
qed

lemma waits_mono: "waits K W s \<Longrightarrow> K \<subseteq> K' \<Longrightarrow> W' \<subseteq> W \<Longrightarrow> waits K' W' s"
  by (auto simp: waits_def entries_all_def searched_in_def subset_iff)

text \<open>Changes of the table only.\<close>

lemma waits_table:
  "waits K W s \<Longrightarrow> entries_all (searched_in K) T \<Longrightarrow> waits K W (s\<lparr>m_routingTable := T\<rparr>)"
  by (simp add: waits_def waiting_def)

lemma searched_in_settled:
  "(m_flag e = IN_SEARCH \<longrightarrow> GetDestination e \<in> K) \<Longrightarrow> searched_in K (GetDestination e) (settled e)"
  by (simp add: searched_in_def settled_def)

interpretation wt: route_client "\<lambda>e. m_flag e = IN_SEARCH \<longrightarrow> GetDestination e \<in> K" free free free E "waits K W"
  rewrites "\<And>P. (True \<Longrightarrow> P) \<equiv> Trueprop P"
proof unfold_locales
  fix s i r s'
  assume w: "waits K W s" and l: "lookup E i s = (r, s')"
  then show "waits K W s' \<and> (\<forall>e. r = Some e \<longrightarrow> m_flag e = IN_SEARCH \<longrightarrow> GetDestination e \<in> K)"
    using si.inv_LookupRoute [of K "m_routingTable s" "now E" i]
    by (auto simp: lookup_def searched_in_def waits_def split: prod.splits intro!: waits_table)
      (simp_all add: waiting_def)
next
  fix s x
  assume "waits K W s" "error_report (wire E) x"
  then show "waits K W (emit x s)" by (intro waits_emit) auto
next
  fix s e
  assume "waits K W s" "sendable (wire E) e"
  then show "waits K W (emit e s)" by (intro waits_emit) auto
qed (auto simp: same_core_simps InsertPrecursor_def waits_def waiting_def list_via_state
    invalidate_routes_def update_route_def add_route_def
    intro: si.inv_GetList si.inv_InvalidateRoutesWithDst si.inv_Update si.inv_AddRoute
      searched_in_settled)

interpretation wc: config_client "\<lambda>e. m_flag e = IN_SEARCH \<longrightarrow> GetDestination e \<in> K" free free free E "waits K W"
  rewrites "\<And>P. (True \<Longrightarrow> P) \<equiv> Trueprop P"
proof unfold_locales
  fix s
  assume w: "waits K W s"
  have closes: "waits K W (emits (map (\<lambda>i. SockClose (fst i)) m) s)" if "waits K W s" for m and s :: rp
    using that by (intro wt.I_emits) auto
  from w have "waits K W (s\<lparr>m_ipv4 := False\<rparr>)" by (simp add: waits_def waiting_def)
  from closes [OF this, of "m_socketAddresses s"]
  have "waits K W ((emits (map (\<lambda>i. SockClose (fst i)) (m_socketAddresses s))
      (s\<lparr>m_ipv4 := False\<rparr>))\<lparr>m_socketAddresses := []\<rparr>)"
    by (simp add: waits_def waiting_def)
  from closes [OF this, of "m_socketSubnetBroadcastAddresses s"] show "waits K W (DoDispose s)"
    by (simp add: DoDispose_def Let_def emits_def waits_def waiting_def)
qed (auto simp: waits_def waiting_def delete_routes_from_def
    intro: si.inv_Clear si.inv_DeleteAllRoutesFromInterface)

subsection \<open>Starting and ending a search\<close>

lemma waits_purged_dest:
  "waits K W s \<Longrightarrow> route_of (purged E s) k = Some e \<Longrightarrow> searched_in K k e"
  using si.inv_Purge [of K "m_routingTable s" "now E"]
  by (auto simp: waits_def purged_def entries_all_def)

lemma waits_purged: "waits K W s \<Longrightarrow> waits K W (s\<lparr>m_routingTable := purged E s\<rparr>)"
  by (intro waits_table) (auto simp: waits_def purged_def intro: si.inv_Purge)

lemma waits_request_sent:
  assumes "waits K W s" and "dst \<in> K"
  shows "waits K W (request_sent E dst s)"
proof -
  have dest: "GetDestination (searched E dst s) = dst"
    using waits_purged_dest [OF assms(1), of E dst]
    by (auto simp: searched_def searched_in_def split: option.split)
  have "entries_all (searched_in K) (purged E s)"
    using waits_purged [OF assms(1), of E] by (simp add: waits_def)
  moreover have "searched_in K (GetDestination (searched E dst s)) (settled (searched E dst s))"
    using assms(2) dest by (intro searched_in_settled) simp
  ultimately have T: "entries_all (searched_in K)
      (if route_of (purged E s) dst = None
       then snd (RoutingTable_AddRoute (now E) (searched E dst s) (purged E s))
       else snd (RoutingTable_Update (searched E dst s) (purged E s)))"
    by (auto intro: si.inv_AddRoute si.inv_Update)
  have "waits K W (s\<lparr>m_rreqCount := m_rreqCount s + 1, m_routingTable := T,
      rp_seqNo := rp_seqNo s + 1, m_requestId := m_requestId s + 1\<rparr>)"
    if "entries_all (searched_in K) T" for T
    using waits_table [OF assms(1) that] by (simp add: waits_def waiting_def)
  note start = this [OF T]
  show ?thesis
    unfolding request_sent_def Let_def by (rule wt.I_fold) (rule wt.I_send_rreq_on, assumption, rule start)
qed

lemma waits_schedule_retry:
  assumes "waits K W s"
  shows "pred_option (waits K (insert dst W)) (ScheduleRreqRetry E dst s)"
proof -
  have "waits K (insert dst W) (s\<lparr>m_routingTable := purged E s,
      m_addressReqTimer := smap_put dst tm (m_addressReqTimer s)\<rparr>)" if "tm_started tm" for tm
    using waits_purged [OF assms, of E] that
    by (auto simp: waits_def waiting_def) (metis map_of_put_other map_of_put_same option.simps(5))
  then show ?thesis
    unfolding ScheduleRreqRetry_def lookup_eq Let_def prod.case
    by (intro pres_bind [OF pres_True]) (simp add: tm_started_def)
qed

text \<open>A request leaves the destination waited for, also when the rate limit delays it.\<close>

lemma waits_SendRequest:
  assumes "waits K W s"
  shows "pred_option (waits (insert dst K) (insert dst W)) (SendRequest E dst s)"
proof (cases "m_rreqCount s = m_rreqRateLimit (par s)")
  case True
  have "waits (insert dst K) W s" using assms by (rule waits_mono) auto
  then have "waits (insert dst K) W (emit (SchedRequest d dst) s)" for d
    by (rule waits_emit) simp
  moreover have "waiting dst (emit (SchedRequest d dst) s)" for d
    using assms by (auto simp: waits_def balanced_def waiting_def emit_def due_def less_Suc_eq_le)
  ultimately show ?thesis using True by (simp add: SendRequest_def) (auto simp: waits_def)
next
  case False
  have "waits (insert dst K) W s" using assms by (rule waits_mono) auto
  then show ?thesis
    unfolding SendRequest_eq [OF False]
    by (intro waits_schedule_retry waits_request_sent) simp_all
qed

text \<open>What ends a search takes its timer away.\<close>

lemma waits_end:
  assumes "waits K W s" and "\<And>e. route_of T dst = Some e \<Longrightarrow> m_flag e \<noteq> IN_SEARCH"
    and "entries_all (searched_in K) T"
  shows "waits (K - {dst}) (W - {dst})
    (s\<lparr>m_routingTable := T, m_addressReqTimer := smap_erase dst (m_addressReqTimer s)\<rparr>)"
  using assms by (auto simp: waits_def waiting_def entries_all_def searched_in_def map_of_erase)

lemma waits_finish:
  assumes "waits K K s" and "m_flag e \<noteq> IN_SEARCH" and "GetDestination e = dst"
  shows "\<exists>K. waits K K (finish_discovery E dst e toDst s)"
proof -
  have rest: "waits K K (case lookup E dst s of (r, s) \<Rightarrow>
      SendPacketFromQueue E dst (m_ipv4Route (into r toDst)) s)" if "waits K K s" for K s
    using wt.I_lookupD [OF that] wt.I_SendPacketFromQueue by (auto split: prod.split)
  show ?thesis
  proof (cases "m_flag toDst = IN_SEARCH")
    case True
    have T: "entries_all (searched_in K) (snd (RoutingTable_Update e (m_routingTable s)))"
      using assms by (intro si.inv_Update searched_in_settled) (auto simp: waits_def)
    have "waits (K - {dst}) (K - {dst}) (s\<lparr>m_routingTable := snd (RoutingTable_Update e (m_routingTable s)),
        m_addressReqTimer := smap_erase dst (m_addressReqTimer s)\<rparr>)"
      using assms
      by (intro waits_end T) (auto simp: route_of_Update settled_def split: if_splits)
    from rest [OF this] True show ?thesis
      by (auto simp: finish_discovery_def update_route_def Let_def)
  next
    case False
    with rest [OF assms(1)] show ?thesis by (auto simp: finish_discovery_def Let_def)
  qed
qed

lemma waits_stop_search:
  assumes "waits K W s"
  shows "waits (K - {dst}) (W - {dst}) (stop_search E dst s)"
proof -
  have "waits (K - {dst}) (W - {dst})
      (s\<lparr>m_routingTable := snd (RoutingTable_DeleteRoute (now E) dst (m_routingTable s)),
         m_addressReqTimer := smap_erase dst (m_addressReqTimer s)\<rparr>)"
    using assms by (intro waits_end si.inv_DeleteRoute) (auto simp: waits_def route_of_DeleteRoute)
  from wt.I_drop_queued [OF this] show ?thesis
    by (cases s) (simp add: stop_search_def delete_route_def Let_def)
qed

lemma waits_retry:
  assumes "waits K (K - {dst}) s"
  shows "pred_option (\<lambda>s. \<exists>K. waits K K s) (RouteRequestTimerExpire E dst s)"
proof -
  let ?s = "s\<lparr>m_routingTable := purged E s\<rparr>"
  have w: "waits K (K - {dst}) ?s" using assms by (rule waits_purged)
  have stop: "\<exists>K. waits K K (stop_search E dst ?s)"
    using waits_stop_search [OF w, of dst E] by auto
  have again: "pred_option (\<lambda>s. \<exists>K. waits K K s) (SendRequest E dst ?s)"
  proof -
    have "waits (insert dst K) (K - {dst}) ?s" using w by (rule waits_mono) auto
    from waits_SendRequest [OF this, of dst E] show ?thesis
      by (auto intro: option.pred_mono_strong)
  qed
  have found: "\<exists>K. waits K K (SendPacketFromQueue E dst rt ?s)"
    if "route_of (purged E s) dst = Some e" "m_flag e = VALID" for e rt
  proof -
    have "waits (K - {dst}) (K - {dst}) ?s"
      using w that by (auto simp: waits_def entries_all_def searched_in_def)
    from wt.I_SendPacketFromQueue [OF this] show ?thesis by blast
  qed
  show ?thesis
    using stop again found
    by (auto simp: RouteRequestTimerExpire_def lookup_valid_eq lookup_eq Let_def into_def
        split: option.splits)
qed

interpretation search: node_client "\<lambda>e. m_flag e = IN_SEARCH \<longrightarrow> GetDestination e \<in> K" free free free E "waits K K"
  "\<lambda>s. \<exists>K. waits K K s"
  rewrites "\<And>P. (True \<Longrightarrow> P) \<equiv> Trueprop P"
proof unfold_locales
  fix s dst
  assume "waits K K s"
  from waits_SendRequest [OF this] show "pred_option (\<lambda>s. \<exists>K. waits K K s) (SendRequest E dst s)"
    by (auto intro: option.pred_mono_strong)
next
  fix s e dst toDst
  assume "waits K K s" "m_flag e \<noteq> IN_SEARCH" "GetDestination e = dst"
  then show "\<exists>K. waits K K (finish_discovery E dst e toDst s)" by (rule waits_finish)
next
  fix s d dst
  assume "waits K K s" "due (SchedRequest d dst) (log s)"
  from waits_ran [OF this] have "waits K (K - {dst}) (emit (Ran (SchedRequest d dst)) s)"
    by simp
  then have "waits (insert dst K) (K - {dst}) (emit (Ran (SchedRequest d dst)) s)"
    by (rule waits_mono) auto
  from waits_SendRequest [OF this, of dst E]
  show "pred_option (\<lambda>s. \<exists>K. waits K K s) (SendRequest E dst (emit (Ran (SchedRequest d dst)) s))"
    by (auto intro: option.pred_mono_strong)
next
  fix s dst
  assume "waits K K s"
  then have "waits K (K - {dst}) (expire (EvRreqTimer dst) s)"
    by (auto simp: waits_def waiting_def split: option.split)
  then show "pred_option (\<lambda>s. \<exists>K. waits K K s) (RouteRequestTimerExpire E dst (expire (EvRreqTimer dst) s))"
    by (rule waits_retry)
next
  fix s d k p a
  assume "waits K K s" "due (SchedSend d k p a) (log s)"
  from waits_ran [OF this] have "waits K K (emit (Ran (SchedSend d k p a)) s)" by simp
  then show "waits K K (SendTo k p a (emit (Ran (SchedSend d k p a)) s))"
    unfolding SendTo_def by (rule waits_emit) simp
next
  fix s
  assume "waits K K s"
  then show "waits K K (s\<lparr>m_rreqCount := 0\<rparr>)" by (simp add: waits_def waiting_def)
qed (use waits_ran [where x = SchedStart] wc.I_Start in auto)

subsection \<open>Properties\<close>

lemma reachable_waits: "reachable C b p t s \<Longrightarrow> \<exists>K. waits K K s"
proof (induction rule: reachable.induct)
  case reachable_init
  have "waits {} {} (configured b p)"
    by (simp add: waits_def construction Let_def si.inv_new balanced_def)
  then show ?case by blast
next
  case (reachable_step t s E ev s')
  then obtain K where "waits K K s" by blast
  moreover have "ev \<noteq> EvAckTimer a d" for a d
    using no_ack_enabled [OF reachable_no_blacklist [OF reachable_step(1)]] reachable_step(4)
    by (auto simp: agent_step_iff)
  moreover from calculation(1) have "waits K K (SetMaxQueueLen n s)" for n
    by (simp add: waits_def waiting_def SetMaxQueueLen_def)
  ultimately show ?case by (intro search.J_agent_step [OF reachable_step(4), of K]) auto
qed

text \<open>C3: no search is stuck. In every reachable state each destination that is searched for has its
  retry timer running, or a request for it, delayed by the rate limit, is still to be sent: the
  simulator has an event to come that takes the search on. No handler drops the timer of a search,
  forgets the delayed request, or leaves an entry marked as searched for without either.\<close>

theorem search_never_stuck:
  assumes "reachable C b p t s" and "route_of (m_routingTable s) k = Some e" and "m_flag e = IN_SEARCH"
  shows "enabled (EvRreqTimer k) s \<or> (\<exists>d. enabled (EvSendRequest d k) s)"
proof -
  obtain K where w: "waits K K s" using reachable_waits [OF assms(1)] by blast
  with assms(2,3) have "k \<in> K" by (auto simp: waits_def entries_all_def searched_in_def)
  with w show ?thesis by (auto simp: waits_def waiting_def)
qed

text \<open>The agent of the witness defers a packet for 9.\<close>

definition example_deferred :: packet where
  "example_deferred = \<lparr>pk_uid = 1, pk_bytes = [], pk_ttl_tag = None, pk_oif_tag = Some (- 1)\<rparr>"

lemma example_agent_no_route: "route_of (purged (example_env 0) example_agent) 9 = None"
  by (simp add: purged_def run_defs Let_def)

lemma example_search_step:
  "\<exists>s e. agent_step (example_env 0) (EvRouteInput example_deferred (example_header 9) 0 1 None 2) example_agent s
     \<and> route_of (m_routingTable s) 9 = Some e \<and> m_flag e = IN_SEARCH \<and> m_rreqCount s = 1"
proof -
  let ?E = "example_env 0" and ?q = "QueueEntry_new 0 example_deferred (example_header 9) 1 2 0"
  obtain b s1 where q: "enqueue ?E ?q example_agent = Some (b, s1)" "b"
    and s1: "s1 = example_agent\<lparr>rp_queue := rp_queue s1\<rparr>"
    by (auto simp: enqueue_def queue_ops example_agent_fields emits_def)
  have inv: "rp_inv s1"
    using presD [OF good.I_enqueue [OF reachable_inv [OF example_reachable]] q(1)] by simp
  have p: "purged ?E s1 = purged ?E example_agent"
    by (subst s1) (simp add: purged_def)
  let ?s = "s1\<lparr>m_routingTable := purged ?E s1\<rparr>"
  have "rp_inv ?s" using good.I_lookupD [OF inv] lookup_eq by blast
  have p9: "route_of (purged ?E s1) 9 = None" unfolding p by (rule example_agent_no_route)
  have "purged ?E ?s = purged ?E s1" using purged_idem [OF inv, of ?E] by (simp add: purged_def)
  moreover have "par ?s = example_params" "m_rreqCount ?s = 0"
    by (subst s1, simp add: example_agent_fields)+
  moreover from this have count: "m_rreqCount ?s \<noteq> m_rreqRateLimit (par ?s)"
    by (simp add: example_params_def initial_params_def Let_def)
  ultimately obtain s' e where s': "SendRequest ?E 9 ?s = Some s'"
    "route_of (m_routingTable s') 9 = Some e" "m_flag e = IN_SEARCH"
    using SendRequest_searches [of ?s ?E 9] \<open>rp_inv ?s\<close> p9 searched_flag by fastforce
  have "handle ?E (EvRouteInput example_deferred (example_header 9) 0 1 None 2) example_agent = Some s'"
    using q p9 s'(1)
    by (simp add: RouteInput_def DeferredRouteOutput_def lookup_eq example_agent_fields
        example_stack_def example_deferred_def example_header_def)
  then have "agent_step ?E (EvRouteInput example_deferred (example_header 9) 0 1 None 2) example_agent s'"
    by (simp add: agent_step_iff)
  moreover have "m_rreqCount s' = m_rreqCount ?s + 1"
    using s'(1) SendRequest_eq [OF count] ScheduleRreqRetry_frame by (auto simp: request_sent_frame)
  moreover have "m_rreqCount ?s = 0" by (subst s1) (simp add: example_agent_fields)
  ultimately show ?thesis using s'(2,3) by auto
qed

lemma example_search_reachable:
  "\<exists>s e. reachable be_codec True example_params 0 s
     \<and> route_of (m_routingTable s) 9 = Some e \<and> m_flag e = IN_SEARCH"
proof -
  obtain s e where s: "agent_step (example_env 0) (EvRouteInput example_deferred (example_header 9) 0 1 None 2)
      example_agent s" "route_of (m_routingTable s) 9 = Some e" "m_flag e = IN_SEARCH"
    using example_search_step by blast
  from reachable_step [OF example_reachable _ _ s(1)] s(2,3) show ?thesis by fastforce
qed

theorem search_never_stuck_witness:
  "\<exists>s. reachable be_codec True example_params 0 s
     \<and> (enabled (EvRreqTimer 9) s \<or> (\<exists>d. enabled (EvSendRequest d 9) s))"
  using example_search_reachable search_never_stuck by blast

end
