(* ===== verification/Rate_Props.thy ===== *)
theory Rate_Props
  imports Search_Props Socket_Routes
begin

text \<open>
  The rate limits. That of route requests (RFC 3561: a node should not originate more than
  \<open>RREQ_RATELIMIT\<close> of them per second). Every request the agent originates takes a new request id and
  is counted in \<open>m_rreqCount\<close>, which only the expiry of \<open>m_rreqRateLimitTimer\<close>, once a second, sets back.
\<close>

definition paced :: "u16 \<Rightarrow> u16 \<Rightarrow> u32 \<Rightarrow> rp \<Rightarrow> bool" where
  "paced limit n c s \<longleftrightarrow>
     m_rreqRateLimit (par s) = limit \<and> n \<le> m_rreqCount s \<and> m_rreqCount s \<le> limit \<and> m_requestId s - ucast (m_rreqCount s) = c"

interpretation pace: config_client free free free free E "paced l n c"
  rewrites "\<And>P. (True \<Longrightarrow> P) \<equiv> Trueprop P"
  by unfold_locales
    (auto simp: paced_def agent_ops delete_routes_from_def DoDispose_def emits_def Let_def)

text \<open>A request that is sent counts once, in both numbers; one that is put off in neither.\<close>

lemma unat_count:
  fixes a b :: u16
  assumes "a \<noteq> b" "a \<le> b"
  shows "unat (a + 1) = unat a + 1"
proof -
  from assms have "a < b" by simp
  then have "unat a + 1 < 2 ^ 16" using unsigned_less [of b, where 'a = nat] by (simp add: word_less_nat_alt)
  then show ?thesis by (simp add: unat_word_ariths)
qed

lemma ucast_count: "a \<noteq> b \<Longrightarrow> a \<le> b \<Longrightarrow> ucast (a + 1) = (ucast a + 1 :: u32)" for a b :: u16
proof -
  assume "a \<noteq> b" "a \<le> b"
  from unat_count [OF this] have "word_of_nat (unat (a + 1)) = (word_of_nat (unat a + 1) :: u32)" by simp
  then show "ucast (a + 1) = (ucast a + 1 :: u32)" by (simp add: unsigned_def)
qed

lemma count_bounds: "a \<noteq> b \<Longrightarrow> a \<le> b \<Longrightarrow> n \<le> a \<Longrightarrow> n \<le> a + 1 \<and> a + 1 \<le> b" for a b n :: u16
  using unat_count [of a b] by (simp add: word_le_nat_alt) (simp add: le_neq_implies_less word_unat_eq_iff Suc_le_eq)

lemma paced_edit [simp]:
  "paced l n c (s\<lparr>m_addressReqTimer := m\<rparr>) = paced l n c s" "paced l n c (emit x s) = paced l n c s"
  "paced l n c (delete_route E dst s) = paced l n c s"
  by (simp_all add: paced_def emit_def delete_route_def)

lemma paced_SendRequest:
  assumes "paced l n c s"
  shows "pred_option (paced l n c) (SendRequest E dst s)"
proof (cases "m_rreqCount s = l")
  case True
  with assms show ?thesis by (simp add: SendRequest_def paced_def emit_def)
next
  case False
  show ?thesis
  proof (rule presI)
    fix s'
    assume s': "SendRequest E dst s = Some s'"
    with False assms have "ScheduleRreqRetry E dst (request_sent E dst s) = Some s'"
      by (simp add: SendRequest_eq paced_def)
    from ScheduleRreqRetry_frame [OF this]
    have "m_requestId s' = m_requestId s + 1" "m_rreqCount s' = m_rreqCount s + 1"
      by (simp_all add: request_sent_frame)
    moreover have "par s' = par s"
      using presD [OF config.I_SendRequest [OF same_config_refl] s'] by (simp add: same_config_def)
    ultimately show "paced l n c s'"
      using assms False count_bounds [of "m_rreqCount s" l] by (auto simp: paced_def ucast_count)
  qed
qed

lemma paced_finish: "paced l n c s \<Longrightarrow> paced l n c (finish_discovery E dst e toDst s)"
  unfolding finish_discovery_def Let_def
  by (rule pace.keep_lookup) (auto intro: pace.I_SendPacketFromQueue pace.I_update)

lemma paced_stop: "paced l n c s \<Longrightarrow> paced l n c (stop_search E dst s)"
  by (simp add: stop_search_def Let_def pace.I_drop_queued)

lemma paced_retry: "paced l n c s \<Longrightarrow> pred_option (paced l n c) (RouteRequestTimerExpire E dst s)"
  unfolding RouteRequestTimerExpire_def Let_def
  by (rule pace.pres_lookup_valid) (auto intro: paced_SendRequest pace.I_SendPacketFromQueue paced_stop)

interpretation pace: window_client free free free free E "paced l n c" "paced l n c"
  rewrites "\<And>P. (True \<Longrightarrow> P) \<equiv> Trueprop P"
proof unfold_locales
  fix s dst
  assume "paced l n c s"
  then have "paced l n c (expire (EvRreqTimer dst) s)" by (simp split: option.split)
  then show "pred_option (paced l n c) (RouteRequestTimerExpire E dst (expire (EvRreqTimer dst) s))"
    by (rule paced_retry)
qed (auto intro: paced_SendRequest paced_finish pace.I_Start simp: SendTo_def)

text \<open>A run in which the limit's timer does not expire.\<close>

inductive window_run :: "rp \<Rightarrow> rp \<Rightarrow> bool" where
  window_refl: "window_run s s"
| window_step: "window_run s u \<Longrightarrow> ev \<noteq> EvRreqLimitTimer \<Longrightarrow> agent_step E ev u s' \<Longrightarrow> window_run s s'"

lemma window_paced: "window_run s s' \<Longrightarrow> paced l n c s \<Longrightarrow> paced l n c s'"
proof (induction rule: window_run.induct)
  case (window_step s u ev E s')
  then have "paced l n c u" by simp
  moreover from this have "paced l n c (AckTimerExpire a t u)" "paced l n c (SetMaxQueueLen q u)" for a t q
    by (simp_all add: paced_def AckTimerExpire_def SetMaxQueueLen_def)
  ultimately show ?case
    using window_step.hyps pace.J_window [of l n c u ev E] by (auto elim!: agent_stepE)
qed

text \<open>C14: the rate limit. Between two expiries of its timer an agent in a reachable state originates at
  most \<open>RreqRateLimit\<close> route requests, whatever happens to it: the request ids it takes are counted
  exactly, and the count stays within the limit.\<close>

theorem requests_rate_limited:
  assumes "reachable C b p t s" and "window_run s s'"
  shows "unat (m_requestId s' - m_requestId s) = unat (m_rreqCount s') - unat (m_rreqCount s)
     \<and> m_rreqCount s \<le> m_rreqCount s' \<and> m_rreqCount s' \<le> m_rreqRateLimit (par s)"
proof -
  have "paced (m_rreqRateLimit (par s)) (m_rreqCount s) (m_requestId s - ucast (m_rreqCount s)) s"
    using reachable_inv [OF assms(1)] by (simp add: paced_def rp_inv_def)
  from window_paced [OF assms(2) this]
  have *: "m_rreqCount s \<le> m_rreqCount s'" "m_rreqCount s' \<le> m_rreqRateLimit (par s)"
    "m_requestId s' - ucast (m_rreqCount s') = m_requestId s - ucast (m_rreqCount s)"
    by (simp_all add: paced_def)
  from *(3) have "m_requestId s' - m_requestId s = ucast (m_rreqCount s') - ucast (m_rreqCount s)"
    by (simp add: algebra_simps)
  with * show ?thesis by (simp add: word_le_nat_alt unat_sub unsigned_ucast_eq take_bit_nat_eq_self)
qed

theorem requests_rate_limited_witness:
  "\<exists>s. window_run example_agent s \<and> m_rreqCount s = 1
     \<and> unat (m_requestId s - m_requestId example_agent) = 1"
proof -
  obtain s where s: "agent_step (example_env 0) (EvRouteInput example_deferred (example_header 9) 0 1 None 2)
      example_agent s" "m_rreqCount s = 1"
    using example_search_step by blast
  from window_step [OF window_refl _ s(1)] have run: "window_run example_agent s" by simp
  with requests_rate_limited [OF example_reachable run] s(2) show ?thesis
    by (auto simp: example_agent_fields)
qed

subsection \<open>The limits' timers\<close>

text \<open>Once \<open>Start\<close> has run, both timers run for ever: each is only stopped by its own expiry, whose
  handler starts it again.\<close>

definition armed :: "rp \<Rightarrow> bool" where
  "armed s \<longleftrightarrow> (Ran SchedStart \<in> set (log s) \<longrightarrow>
     tm_started (m_rreqRateLimitTimer s) \<and> tm_started (m_rerrRateLimitTimer s))"

interpretation arm: search_client free free free free E armed
  rewrites "\<And>P. (True \<Longrightarrow> P) \<equiv> Trueprop P"
  by unfold_locales (auto simp: armed_def agent_ops Let_def)

interpretation arm: config_client free free free free E armed
  rewrites "\<And>P. (True \<Longrightarrow> P) \<equiv> Trueprop P"
  by unfold_locales (auto simp: armed_def agent_ops delete_routes_from_def DoDispose_def emits_def Let_def)

interpretation arm: node_client free free free free E armed armed
  rewrites "\<And>P. (True \<Longrightarrow> P) \<equiv> Trueprop P"
proof unfold_locales
  fix s d dst
  assume "armed s"
  then have "armed (emit (Ran (SchedRequest d dst)) s)" by (simp add: armed_def emit_def)
  then show "pred_option armed (SendRequest E dst (emit (Ran (SchedRequest d dst)) s))"
    by (rule arm.I_SendRequest)
next
  fix s dst
  assume "armed s"
  then have "armed (expire (EvRreqTimer dst) s)" by (simp add: armed_def split: option.split)
  then show "pred_option armed (RouteRequestTimerExpire E dst (expire (EvRreqTimer dst) s))"
    by (rule arm.I_RouteRequestTimerExpire)
qed (auto simp: armed_def emit_def SendTo_def Start_def Let_def)

lemma reachable_armed: "reachable C b p t s \<Longrightarrow> armed s"
proof (induction rule: reachable.induct)
  case reachable_init
  show ?case by (simp add: armed_def construction Let_def)
next
  case (reachable_step t s E ev s')
  moreover from this have "armed (AckTimerExpire a d s)" "armed (SetMaxQueueLen q s)" for a d q
    by (simp_all add: armed_def AckTimerExpire_def SetMaxQueueLen_def)
  ultimately show ?case by (auto intro: arm.J_agent_step)
qed

subsection \<open>The limit of route errors\<close>

text \<open>An error for one precursor is counted when it is sent.\<close>

lemma single_report:
  assumes "SendRerrMessage E q [a] s = Some u"
  shows "par u = par s \<and> m_rerrRateLimitTimer u = m_rerrRateLimitTimer s
    \<and> (m_rerrCount u = m_rerrCount s \<and> log u = log s
       \<or> m_rerrCount s \<noteq> m_rerrRateLimit (par s) \<and> m_rerrCount u = m_rerrCount s + 1
         \<and> length (log u) = Suc (length (log s)))"
  using assms
  by (auto simp: SendRerrMessage_def lookup_valid_eq lookup_eq schedule_send_def jitter_def draw_def emit_def Let_def
      split: if_splits option.splits prod.splits bool.splits Option.bind_splits)

lemma single_reports:
  assumes "foldM (\<lambda>(E, q, a). SendRerrMessage E q [a]) calls s = Some s'" and "m_rerrCount s \<le> m_rerrRateLimit (par s)"
  shows "par s' = par s \<and> m_rerrRateLimitTimer s' = m_rerrRateLimitTimer s
    \<and> length (log s') + unat (m_rerrCount s) = length (log s) + unat (m_rerrCount s')
    \<and> m_rerrCount s \<le> m_rerrCount s' \<and> m_rerrCount s' \<le> m_rerrRateLimit (par s)"
  using assms
proof (induction calls arbitrary: s)
  case (Cons c calls)
  obtain E q a where c: "c = (E, q, a)" by (cases c) auto
  with Cons.prems(1) obtain u where u: "SendRerrMessage E q [a] s = Some u"
    "foldM (\<lambda>(E, q, a). SendRerrMessage E q [a]) calls u = Some s'"
    by (auto split: Option.bind_splits)
  note one = single_report [OF u(1)]
  have grow: "m_rerrCount s \<le> m_rerrCount u \<and> m_rerrCount u \<le> m_rerrRateLimit (par s)
      \<and> length (log u) + unat (m_rerrCount s) = length (log s) + unat (m_rerrCount u)"
  proof (cases "m_rerrCount u = m_rerrCount s")
    case True
    with one Cons.prems(2) show ?thesis by (cases "log u = log s") auto
  next
    case False
    with one have n: "m_rerrCount s \<noteq> m_rerrRateLimit (par s)" "m_rerrCount u = m_rerrCount s + 1"
      "length (log u) = Suc (length (log s))" by auto
    with count_bounds [OF n(1) Cons.prems(2) order.refl] unat_count [OF n(1) Cons.prems(2)] show ?thesis by simp
  qed
  with Cons.IH [OF u(2)] one show ?case by auto
qed simp

text \<open>Those for several precursors and those for packets without a route are not.\<close>

lemma foldM_keeps:
  assumes "\<And>x s s'. f x s = Some s' \<Longrightarrow> P s' = P s" and "foldM f xs s = Some s'"
  shows "P s' = P s"
  using assms(2) by (induction xs arbitrary: s) (auto split: Option.bind_splits dest: assms(1))

lemma precursor_ifaces_count: "precursor_ifaces E ps ifs s = (r, s') \<Longrightarrow> m_rerrCount s' = m_rerrCount s"
  by (induction ps arbitrary: ifs s)
    (auto simp: lookup_valid_eq lookup_eq Let_def split: prod.splits if_splits option.splits bool.splits)

lemma several_not_counted:
  assumes "SendRerrMessage E q (a # a' # as) s = Some u"
  shows "m_rerrCount u = m_rerrCount s"
proof -
  obtain ifs s1 where p: "precursor_ifaces E (a # a' # as) [] s = (ifs, s1)" by fastforce
  have "m_rerrCount u = m_rerrCount s1" if "foldM (rerr_on_iface E q) ifs s1 = Some u"
    by (rule foldM_keeps [OF _ that]) (auto simp: rerr_on_iface_def schedule_send_count bind_eq_Some_conv)
  with assms p precursor_ifaces_count [OF p] show ?thesis by (auto simp: SendRerrMessage_def split: if_splits)
qed

lemma no_route_not_counted:
  "SendRerrWhenNoRouteToForward E dst n origin s = Some u \<Longrightarrow> m_rerrCount u = m_rerrCount s"
  by (auto simp: report_eq send_all_log emit_def Let_def split: if_splits)

text \<open>C15: the rate limit of route errors. From a reachable state of a started agent, take any number of error
  messages for one precursor each. Every one that is scheduled is counted, the count stays within
  \<open>RerrRateLimit\<close>, so no more than the limit go out; below the limit the next one with a valid route and
  a socket does go out. At the limit both senders suppress whatever they are to send, without any other effect, and the
  assertion on the limit's timer holds. That timer's expiry is to come, sets the count back and starts the
  timer again. But these are the only messages that are counted: one to several precursors, and one for a packet that
  cannot be forwarded, leave the count as it is.\<close>

theorem error_limit_counts:
  assumes "reachable C b p t s" and "Ran SchedStart \<in> set (log s)"
    and "foldM (\<lambda>(E, q, a). SendRerrMessage E q [a]) calls s = Some s'"
  shows "length (log s') + unat (m_rerrCount s) = length (log s) + unat (m_rerrCount s')
       \<and> m_rerrCount s \<le> m_rerrCount s' \<and> m_rerrCount s' \<le> m_rerrRateLimit (par s)
       \<and> (m_rerrCount s' \<noteq> m_rerrRateLimit (par s) \<longrightarrow> route_of (purged E s') a = Some e \<longrightarrow> m_flag e = VALID \<longrightarrow>
            FindSocketWithInterfaceAddress (m_iface e) s' = Some k \<longrightarrow>
            (\<exists>d u. SendRerrMessage E q [a] s' = Some u \<and> log u = log s' @ [SchedSend d k q a]
                 \<and> m_rerrCount u = m_rerrCount s' + 1))
       \<and> (m_rerrCount s' = m_rerrRateLimit (par s) \<longrightarrow>
            SendRerrMessage E q precursors s' = Some s' \<and> SendRerrWhenNoRouteToForward E dst n origin s' = Some s')
       \<and> (\<exists>u. agent_step E EvRerrLimitTimer s' u \<and> m_rerrCount u = 0 \<and> enabled EvRerrLimitTimer u)
       \<and> (SendRerrMessage E q (a # a' # as) s' = Some v \<longrightarrow> m_rerrCount v = m_rerrCount s')
       \<and> (SendRerrWhenNoRouteToForward E dst n origin s' = Some v \<longrightarrow> m_rerrCount v = m_rerrCount s')"
proof -
  have "m_rerrCount s \<le> m_rerrRateLimit (par s)" using reachable_inv [OF assms(1)] by (simp add: rp_inv_def)
  note calls = single_reports [OF assms(3) this]
  then have timer: "tm_started (m_rerrRateLimitTimer s')" and par: "par s' = par s"
    using reachable_armed [OF assms(1)] assms(2) by (auto simp: armed_def)
  then have "agent_step E EvRerrLimitTimer s' (RerrRateLimitTimerExpire (expire EvRerrLimitTimer s'))"
    by (simp add: agent_step_iff)
  then have reset: "\<exists>u. agent_step E EvRerrLimitTimer s' u \<and> m_rerrCount u = 0 \<and> enabled EvRerrLimitTimer u"
    by (intro exI [of _ "RerrRateLimitTimerExpire (expire EvRerrLimitTimer s')"])
      (simp add: RerrRateLimitTimerExpire_def)
  have sent: "\<exists>d u. SendRerrMessage E q [a] s' = Some u \<and> log u = log s' @ [SchedSend d k q a]
      \<and> m_rerrCount u = m_rerrCount s' + 1"
    if "m_rerrCount s' \<noteq> m_rerrRateLimit (par s)" "route_of (purged E s') a = Some e" "m_flag e = VALID"
      "FindSocketWithInterfaceAddress (m_iface e) s' = Some k"
  proof -
    have "FindSocketWithInterfaceAddress i (s'\<lparr>m_routingTable := T\<rparr>) = FindSocketWithInterfaceAddress i s'" for i T
      by (simp add: FindSocketWithInterfaceAddress_def)
    with that par show ?thesis
      by (simp add: SendRerrMessage_def lookup_valid_eq lookup_eq schedule_send_def jitter_def draw_def emit_def Let_def)
  qed
  have quiet: "SendRerrMessage E q precursors s' = Some s'" "SendRerrWhenNoRouteToForward E dst n origin s' = Some s'"
    if "m_rerrCount s' = m_rerrRateLimit (par s)"
    using that timer par by (simp_all add: SendRerrMessage_def SendRerrWhenNoRouteToForward_def split: list.split)
  show ?thesis
    using calls sent quiet reset several_not_counted no_route_not_counted by blast
qed

text \<open>A started agent that has heard of a neighbour.\<close>

definition heard_started :: rp where
  "heard_started = Start (emit (Ran SchedStart) heard_station)"

lemma heard_started_facts:
  "reachable be_codec True example_params 0 heard_started" "Ran SchedStart \<in> set (log heard_started)"
  "\<exists>e k. route_of (purged (station_env 9) heard_started) 8 = Some e \<and> m_flag e = VALID
     \<and> FindSocketWithInterfaceAddress (m_iface e) heard_started = Some k"
proof -
  have "due SchedStart (log heard_station)"
    by (simp add: heard_station_def UpdateRouteToNeighbor_def lookup_eq due_def add_route_def update_route_def Let_def
        split: option.split) (simp add: station_defs run_defs Let_def)
  then have "agent_step (station_env 9) EvStart heard_station heard_started"
    by (simp add: agent_step_iff heard_started_def)
  from reachable_step [OF served_reachable [OF heard_station_served] _ _ this]
  show "reachable be_codec True example_params 0 heard_started" by simp
  show "Ran SchedStart \<in> set (log heard_started)" by (simp add: heard_started_def Start_def emit_def Let_def)
  obtain e where e: "route_of (m_routingTable heard_station) 8 = Some e" "m_flag e = VALID" "0 \<le> m_lifeTime e"
    using heard_neighbor by blast
  then have "route_of (purged (station_env 9) heard_station) 8 = Some e" by (rule heard_purged)
  moreover obtain k where "FindSocketWithInterfaceAddress (m_iface e) heard_station = Some k"
    using heard_over_socket [OF e(1,2)] by blast
  moreover have same: "m_routingTable heard_started = m_routingTable heard_station"
    "FindSocketWithInterfaceAddress i heard_started = FindSocketWithInterfaceAddress i heard_station" for i
    by (simp_all add: heard_started_def Start_def emit_def Let_def FindSocketWithInterfaceAddress_def)
  ultimately show "\<exists>e k. route_of (purged (station_env 9) heard_started) 8 = Some e \<and> m_flag e = VALID
     \<and> FindSocketWithInterfaceAddress (m_iface e) heard_started = Some k"
    using e(2) by (auto simp: same purged_def)
qed

theorem error_limit_counts_witness:
  "\<exists>u d k. SendRerrMessage (station_env 9) (rerr_packet (station_env 9) RerrHeader_new) [8] heard_started = Some u
     \<and> log u = log heard_started @ [SchedSend d k (rerr_packet (station_env 9) RerrHeader_new) 8] \<and> m_rerrCount u = 1"
proof -
  have "m_rerrCount heard_started = 0" "par heard_started = example_params"
    by (simp_all add: heard_started_def Start_def emit_def Let_def heard_station_def UpdateRouteToNeighbor_def
        lookup_eq add_route_def update_route_def split: option.split)
      (simp_all add: station_defs run_defs Let_def)
  moreover have "m_rerrRateLimit example_params \<noteq> 0" by (simp add: example_params_def initial_params_def Let_def)
  moreover obtain e k where "route_of (purged (station_env 9) heard_started) 8 = Some e" "m_flag e = VALID"
    "FindSocketWithInterfaceAddress (m_iface e) heard_started = Some k"
    using heard_started_facts(3) by blast
  ultimately show ?thesis
    using error_limit_counts [OF heard_started_facts(1,2), of "[]" heard_started "station_env 9" 8 e k "rerr_packet (station_env 9) RerrHeader_new" "[]" 0 0 0 0 "[]" heard_started]
    by fastforce
qed

end
