(* ===== verification/Well_Served.thy ===== *)
theory Well_Served
  imports Never_Stops Rate_Props
begin

text \<open>
  An agent that is served well never stops. The runs here are those in which the stack places the
  addresses messages are received at on interfaces with a socket and no event names an odd address; what
  the handlers need then is an invariant, and from every state the events that may happen can be handled:
  messages, data packets, timers, failed transmissions, whatever neighbours were lost in between.
\<close>

declare One_nat_def [simp del]

subsection \<open>Runs\<close>

inductive well_served :: "codec \<Rightarrow> bool \<Rightarrow> params \<Rightarrow> ipv4 \<Rightarrow> time \<Rightarrow> rp \<Rightarrow> bool" for C b p u where
  well_init: "well_served C b p u 0 (configured b p)"
| well_step: "well_served C b p u t s \<Longrightarrow> t \<le> now E \<Longrightarrow> wire E = C \<Longrightarrow> any_addr E = u \<Longrightarrow>
    fresh_sockets E s \<Longrightarrow> heard_on_socket E ev s \<Longrightarrow> ev \<noteq> EvDispose \<Longrightarrow> admitted (harmless u) E ev \<Longrightarrow>
    agent_step E ev s s' \<Longrightarrow> well_served C b p u (now E) s'"

lemma well_served_served: "well_served C b p u t s \<Longrightarrow> served C b p u t s"
  by (induction rule: well_served.induct) (auto intro: served_init served_step)

lemma well_served_reachable: "well_served C b p u t s \<Longrightarrow> reachable C b p t s"
  by (blast intro: served_reachable well_served_served)

lemma tame_agent_any: "any_addr E = any_addr E' \<Longrightarrow> tame_agent E s = tame_agent E' s"
  by (simp add: tame_agent_def)

lemma well_served_tame:
  "well_served C b p u t s \<Longrightarrow> any_addr E = u \<Longrightarrow> u \<noteq> ip4 127 0 0 1 \<Longrightarrow> tame_agent E s"
proof (induction rule: well_served.induct)
  case well_init
  then show ?case by (simp add: tame_agent_def construction Let_def ta.inv_new)
next
  case (well_step t s E' ev s')
  have "no_blacklist s" using reachable_no_blacklist [OF well_served_reachable [OF well_step(1)]] .
  then have "\<not> agent_step E' (EvAckTimer a d) s s'" for a d
    using no_ack_enabled by (auto simp: agent_step_iff)
  moreover have "tame_agent E' s" using well_step tame_agent_any [of E' E] by simp
  moreover from this have "tame_agent E' (SetMaxQueueLen n s)" for n
    by (simp add: tame_agent_def SetMaxQueueLen_def)
  ultimately have "tame_agent E' s'"
    using tame.J_agent_step [OF well_step(9)] well_step(4,8,9) by blast
  then show ?case using well_step(4,11) tame_agent_any [of E' E] by simp
qed

text \<open>Fewer than 31 requests counted for each search.\<close>

definition modest :: "rte \<Rightarrow> bool" where
  "modest e \<longleftrightarrow> unat (m_reqCount e) \<le> 30"

interpretation modest: entry_invariant "\<lambda>_. modest"
  by unfold_locales (auto simp: modest_def Invalidate_def)

text \<open>Attributes under which no request aborts and the queue takes packets.\<close>

definition workable :: "params \<Rightarrow> bool" where
  "workable p \<longleftrightarrow> sane p \<and> 0 \<le> m_activeRouteTimeout p \<and> m_maxQueueLen p \<noteq> 0"

definition working :: "ns3 \<Rightarrow> rp \<Rightarrow> bool" where
  "working E s \<longleftrightarrow> able E (m_socketAddresses s) (m_socketSubnetBroadcastAddresses s) 3 s \<and>
     entries_all (\<lambda>_. modest) (m_routingTable s) \<and> workable (par s)"

subsection \<open>Data\<close>

lemma room_touch: "rp_inv s \<Longrightarrow> room n s \<Longrightarrow> room n (touch E a s)"
  using room_stored(2) [of "s\<lparr>m_routingTable := purged E s\<rparr>" n] room_purged [of n s E] inv_keys(2) [of s E]
  by (simp add: touch_def UpdateRouteLifeTime_def lookup_eq Let_def split: option.split)

lemma able_touch: "able E S B n s \<Longrightarrow> able E S B n (touch E a s)"
  unfolding able_def by (intro conjI good.I_touch routed.I_touch tame.I_touch room_touch) simp_all

lemma able_no_route:
  assumes "able E S B n s" and "origin \<noteq> ip4 127 0 0 1"
  shows "SendRerrWhenNoRouteToForward E dst q origin s \<noteq> None"
proof -
  have "\<exists>k. FindSocketWithInterfaceAddress (m_iface e) s = Some k"
    if "route_of (purged E s) origin = Some e" "m_flag e = VALID" for e
    by (rule able_socket [OF assms(1)], rule able_iface [OF assms(1) that(1)]) (use that assms(2) valid_settled in auto)
  moreover have "tm_started (m_rerrRateLimitTimer s)" using assms(1) by (simp add: able_def room_def)
  ultimately show ?thesis by (auto simp: report_eq Let_def)
qed

lemma returns:
  "(b \<Longrightarrow> x \<noteq> None) \<Longrightarrow> (\<not> b \<Longrightarrow> y \<noteq> None) \<Longrightarrow> (if b then x else y) \<noteq> None"
  "m \<noteq> None \<Longrightarrow> map_option f m \<noteq> None" "Some z \<noteq> None"
  by simp_all

lemma able_looked_up: "able E S B n s \<Longrightarrow> able E S B n (snd (lookup E a s))"
  by (simp add: lookup_eq able_lookup)

lemma able_Forwarding:
  assumes s: "able E S B n s" and src: "ih_source h \<noteq> ip4 127 0 0 1"
  shows "Forwarding E p h ucb ecb s \<noteq> None"
proof -
  have nb: "(do { s \<leftarrow> nb_update E a x s; s \<leftarrow> nb_update E (a' s) (x' s) s; Some (f s) }) \<noteq> None"
    if s: "able E S B n s" for a x a' x' s and f :: "rp \<Rightarrow> 'b"
  proof -
    obtain s1 where s1: "nb_update E a x s = Some s1" "able E S B n s1"
      using able_nb_update [OF s] by (auto simp: yields_iff)
    obtain s2 where "nb_update E (a' s1) (x' s1) s1 = Some s2"
      using able_nb_update [OF s1(2)] by (auto simp: yields_iff)
    with s1 show ?thesis by simp
  qed
  note able = able_touch able_looked_up able_lookup [unfolded purged_def]
  show ?thesis
    unfolding Forwarding_def Let_def split_beta
    by (intro returns nb able_no_route [where S = S and B = B and n = n] able s src)
qed

lemma able_unicast_input:
  assumes "able E S B n s"
  shows "unicast_input E p h iif lcb ecb s \<noteq> None"
proof -
  let ?t = "touch E (ih_source h) s"
  have t: "able E S B n ?t" using assms by (rule able_touch)
  have "nb_update E a x (touch E a (?t\<lparr>m_routingTable := purged E ?t\<rparr>)) \<noteq> None" for a x
    using able_nb_update [OF able_touch [OF able_lookup [OF t], of a], of a x] by (auto simp: yields_iff)
  then show ?thesis
    by (auto simp: unicast_input_def lookup_valid_eq lookup_eq Let_def bind_eq_Some_conv split: option.split bool.split)
qed

subsection \<open>Searches\<close>

lemma modest_request:
  assumes "rp_inv s" and "entries_all (\<lambda>_. modest) (m_routingTable s)" and "sane (par s)"
  shows "SendRequest E dst s \<noteq> None"
proof -
  have "entries_all (\<lambda>_. modest) (purged E s)" using modest.inv_Purge [OF assms(2)] by (simp add: purged_def)
  then have "\<exists>s'. SendRequest E dst s = Some s'"
    using SendRequest_total [OF assms(1,3), of E dst] by (auto simp: entries_all_def modest_def)
  then show ?thesis by blast
qed

lemma modest_purged:
  "entries_all (\<lambda>_. modest) (m_routingTable s) \<Longrightarrow> entries_all (\<lambda>_. modest) (purged E s)"
  by (simp add: purged_def modest.inv_Purge)

lemma enqueue_returns:
  assumes "rp_inv s" "m_maxQueueLen (par s) \<noteq> 0"
  shows "enqueue E e s \<noteq> None"
proof -
  obtain q ds where q: "RequestQueue_Purge (now E) (rp_queue s) = (q, ds)" by fastforce
  then have "m_maxLen q \<noteq> 0" using assms by (auto simp: rp_inv_def RequestQueue_Purge_def)
  with q show ?thesis
    by (cases "m_queue q") (auto simp: enqueue_def RequestQueue_Enqueue_def Let_def unsigned_eq_0_iff)
qed

lemma working_deferred:
  assumes "working E s"
  shows "DeferredRouteOutput E p h ucb ecb s \<noteq> None"
proof -
  have s: "rp_inv s" "sane (par s)" "entries_all (\<lambda>_. modest) (m_routingTable s)" "m_maxQueueLen (par s) \<noteq> 0"
    using assms by (simp_all add: working_def able_def workable_def)
  obtain b s1 where 1: "enqueue E (QueueEntry_new (now E) p h ucb ecb (now E)) s = Some (b, s1)"
    using enqueue_returns [OF s(1,4)] by fastforce
  then have f: "par s1 = par s" "m_routingTable s1 = m_routingTable s" by (auto simp: enqueue_def bind_eq_Some_conv emits_def)
  let ?v = "s1\<lparr>m_routingTable := purged E s1\<rparr>"
  have "rp_inv ?v" using good.I_lookupD [OF _ lookup_eq] presD [OF good.I_enqueue [OF s(1)] 1] by simp
  then have "SendRequest E (ih_destination h) ?v \<noteq> None"
    using modest_purged [of s1 E] s f by (intro modest_request) simp_all
  with 1 show ?thesis by (auto simp: DeferredRouteOutput_def lookup_eq split: option.split)
qed

lemma working_retry:
  assumes "rp_inv s" "sane (par s)" "entries_all (\<lambda>_. modest) (m_routingTable s)"
  shows "RouteRequestTimerExpire E dst s \<noteq> None"
proof -
  let ?v = "s\<lparr>m_routingTable := purged E s\<rparr>"
  have "rp_inv ?v" using good.I_lookupD [OF assms(1) lookup_eq] .
  then have "SendRequest E dst ?v \<noteq> None"
    using modest_purged [OF assms(3), of E] assms(2) by (intro modest_request) simp_all
  then show ?thesis by (auto simp: RouteRequestTimerExpire_def lookup_valid_eq lookup_eq Let_def)
qed

subsection \<open>The events\<close>

text \<open>What the handlers ask of an event: a message comes from a socket of the agent and is sound; a packet
  from below comes from a device of the stack and does not claim to be from loopback; for a packet from
  above the loopback device is known, and there is a socket to take the source address from.\<close>

fun serviceable :: "ns3 \<Rightarrow> event \<Rightarrow> rp \<Rightarrow> bool" where
  "serviceable E (EvRecv k p a) s \<longleftrightarrow>
     receiver_of k s \<noteq> None \<and> sound_message (wire E) (any_addr E) (par s) (pk_bytes p)"
| "serviceable E (EvRouteInput p h idev ucb lcb ecb) s \<longleftrightarrow>
     0 \<le> ip_if_for_dev (stack E) (Some idev) \<and> ih_source h \<noteq> ip4 127 0 0 1"
| "serviceable E (EvRouteOutput p h oif) s \<longleftrightarrow>
     m_lo s \<noteq> None \<and> (p = None \<longrightarrow> m_socketAddresses s \<noteq> []) \<and>
     (\<forall>j\<in>set (m_socketAddresses s). ia_local (snd j) \<noteq> any_addr E) \<and>
     (case oif of None \<Rightarrow> True
      | Some d \<Rightarrow> \<exists>j\<in>set (m_socketAddresses s). d = ip_net_device (stack E) (ip_if_for_addr (stack E) (ia_local (snd j))))"
| "serviceable E ev s \<longleftrightarrow> True"

lemma found_in: "\<exists>x\<in>set xs. P x \<Longrightarrow> \<exists>x\<in>set xs. List.find P xs = Some x"
  by (induction xs) auto

lemma loopback_route:
  assumes "serviceable E (EvRouteOutput p h oif) s" "m_socketAddresses s \<noteq> []"
  shows "LoopbackRoute E h oif s \<noteq> None"
proof -
  let ?P = "\<lambda>d j. d = ip_net_device (stack E) (ip_if_for_addr (stack E) (ia_local (snd j)))"
  have "\<exists>j\<in>set (m_socketAddresses s). List.find (?P d) (m_socketAddresses s) = Some j" if "oif = Some d" for d
    using assms(1) that found_in [of "m_socketAddresses s" "?P d"] by simp
  with assms show ?thesis
    by (cases oif) (auto simp: LoopbackRoute_def neq_Nil_conv Let_def)
qed

lemma output_returns:
  assumes "serviceable E (EvRouteOutput p h oif) s"
  shows "RouteOutput E p h oif s \<noteq> None"
proof -
  let ?v = "s\<lparr>m_routingTable := purged E s\<rparr>"
  have l: "LoopbackRoute E h oif x \<noteq> None" if "x \<in> {s, ?v}" "m_socketAddresses s \<noteq> []" for x
    using that assms by (intro loopback_route [where p = p]) (auto split: option.splits)
  show ?thesis
    using l assms by (cases p)
      (auto simp: RouteOutput_def lookup_valid_eq lookup_eq split_beta bind_eq_Some_conv Let_def split: option.split bool.split)
qed

lemma input_returns:
  assumes s: "working E s" and ev: "serviceable E (EvRouteInput p h idev ucb lcb ecb) s"
  shows "RouteInput E p h idev ucb lcb ecb s \<noteq> None"
proof -
  have able: "able E (m_socketAddresses s) (m_socketSubnetBroadcastAddresses s) 3 s" using s by (simp add: working_def)
  then have "m_socketAddresses s \<noteq> [] \<Longrightarrow> m_ipv4 s" by (simp add: able_def rp_inv_def)
  with ev working_deferred [OF s] able_unicast_input [OF able] able_Forwarding [OF able] show ?thesis
    by (auto simp: RouteInput_def Let_def)
qed

lemma working_returns:
  assumes s: "working E s" and C: "codec_ok C" "wire E = C"
    and ev: "traffic_event ev \<or> idle_event ev" "admitted (harmless (any_addr E)) E ev" "heard_on_socket E ev s"
      "serviceable E ev s"
  shows "handle E ev (expire ev s) \<noteq> None"
proof -
  let ?S = "m_socketAddresses s" and ?B = "m_socketSubnetBroadcastAddresses s"
  have able: "able E ?S ?B 3 s" and req: "rp_inv s" "entries_all (\<lambda>_. modest) (m_routingTable s)" "sane (par s)"
    and t: "0 \<le> m_activeRouteTimeout (par s)"
    using s by (simp_all add: working_def workable_def able_def)
  have lost: "nb_purge E s \<noteq> None" "NotifyTxError E a s \<noteq> None" for a
    using able_nb_purge [OF able] able_NotifyTxError [OF able] by (auto simp: yields_iff)
  show ?thesis
  proof (cases ev)
    case (EvRecv k q a)
    with ev(4) obtain r where k: "receiver_of k s = Some r" by auto
    moreover from this have "recv_iface E r \<in> snd ` set ?S" using ev(3) EvRecv by (simp add: heard_on_socket_def)
    ultimately have "RecvMadaodv E k q a s \<noteq> None"
      using able C ev(2,4) t EvRecv by (intro able_RecvMadaodv [where n = 0]) (simp_all add: numeral_3_eq_3)
    with EvRecv show ?thesis by simp
  next
    case (EvSendRequest d dst)
    have "rp_inv (emit x s)" for x using req(1) by (simp add: rp_inv_def emit_def)
    then have "SendRequest E dst (emit x s) \<noteq> None" for x
      using req by (intro modest_request) (simp_all add: emit_def)
    with EvSendRequest show ?thesis by simp
  next
    case (EvRreqTimer dst)
    have "RouteRequestTimerExpire E dst (s\<lparr>m_addressReqTimer := m\<rparr>) \<noteq> None" if "smap_inv m" for m
      using req that by (intro working_retry) (auto simp: rp_inv_def)
    moreover have "smap_inv (m_addressReqTimer s)" using req(1) by (simp add: rp_inv_def)
    moreover have "RouteRequestTimerExpire E dst s \<noteq> None" using req by (intro working_retry)
    ultimately show ?thesis using EvRreqTimer by (auto split: option.split)
  qed (use ev lost input_returns [OF s] output_returns in auto)
qed

lemma well_served_working:
  assumes run: "well_served C b p u t s" and "any_addr E = u" "u \<noteq> ip4 127 0 0 1" and "Ran SchedStart \<in> set (log s)"
    and "length (m_ipv4AddressEntry (m_routingTable s)) \<le> 252"
    and "entries_all (\<lambda>_. modest) (m_routingTable s)" and "workable (par s)"
  shows "working E s"
proof -
  have r: "reachable C b p t s" using run by (rule well_served_reachable)
  have "routed E (m_socketAddresses s) (m_socketSubnetBroadcastAddresses s) s"
    using served_routes_ok [OF well_served_served [OF run]] assms(2) by (simp add: routes_ok_def routed_def)
  moreover have "tame_agent E s" using run assms(2,3) by (rule well_served_tame)
  moreover have "tm_started (m_rerrRateLimitTimer s)" using reachable_armed [OF r] assms(4) by (simp add: armed_def)
  ultimately show ?thesis
    using reachable_inv [OF r] assms(5-7) by (simp add: working_def able_def room_def)
qed


text \<open>A station that has started and hears a request of a neighbour.\<close>

definition started_station :: rp where
  "started_station = Start (emit (Ran SchedStart) (station example_params 9))"

lemma station_well_served:
  assumes "a \<noteq> ip4 127 0 0 1"
  shows "well_served be_codec True p 0 0 (station p a)"
proof -
  have 1: "agent_step (station_env a) EvSetIpv4 (configured True p) (station_start p a)"
    by (simp add: agent_step_iff station_start_def station_env_def SetIpv4_def construction Let_def example_stack_def)
  have m: "m_ipv4 (station_start p a)" "m_socketAddresses (station_start p a) = []"
    "m_socketSubnetBroadcastAddresses (station_start p a) = []"
    by (simp_all add: station_defs run_defs Let_def)
  then have 2: "agent_step (station_env a) (EvInterfaceUp 1) (station_start p a) (station p a)"
    by (simp add: agent_step_iff station_def NotifyInterfaceUp_def Let_def)
  have f: "fresh_sockets (station_env a) (configured True p)" "fresh_sockets (station_env a) (station_start p a)"
    using m by (simp_all add: fresh_sockets_def station_env_def construction Let_def)
  have k: "admitted (harmless 0) (station_env a) EvSetIpv4" "admitted (harmless 0) (station_env a) (EvInterfaceUp 1)"
    by (simp_all add: station_env_def station_iface_def ip4_def)
  have "well_served be_codec True p 0 (now (station_env a)) (station p a)"
    by (rule well_step [OF well_step [OF well_init _ _ _ f(1) _ _ k(1) 1] _ _ _ f(2) _ _ k(2) 2])
      (simp_all add: heard_on_socket_def)
  then show ?thesis by simp
qed

lemma started_station_well_served: "well_served be_codec True example_params 0 0 started_station"
proof -
  let ?E = "station_env 9" and ?s = "station example_params 9"
  have 9: "(9 :: ipv4) \<noteq> ip4 127 0 0 1" by (simp add: ip4_def)
  have "agent_step ?E EvStart ?s started_station"
    using 9 by (simp add: agent_step_iff started_station_def due_def station_defs run_defs Let_def)
  moreover have "fresh_sockets ?E ?s"
    using station_tables [OF 9] by (simp add: fresh_sockets_def station_env_def)
  ultimately have "well_served be_codec True example_params 0 (now ?E) started_station"
    by (intro well_step [OF station_well_served [OF 9]]) (simp_all add: heard_on_socket_def)
  then show ?thesis by simp
qed

lemma started_station_same:
  "m_routingTable started_station = m_routingTable (station example_params 9)" "par started_station = par (station example_params 9)"
  "m_socketAddresses started_station = m_socketAddresses (station example_params 9)"
  "m_socketSubnetBroadcastAddresses started_station = m_socketSubnetBroadcastAddresses (station example_params 9)"
  "Ran SchedStart \<in> set (log started_station)"
  by (simp_all add: started_station_def Start_def emit_def Let_def)

lemma started_station_state:
  "length (m_ipv4AddressEntry (m_routingTable started_station)) \<le> 252"
  "entries_all (\<lambda>_. modest) (m_routingTable started_station)" "par started_station = example_params"
  "receiver_of 0 started_station = Some 9" "own_ifaces started_station = {station_iface 9}"
proof -
  have 9: "(9 :: ipv4) \<noteq> ip4 127 0 0 1" by (simp add: ip4_def)
  note same = started_station_same
  have "length (map fst (m_ipv4AddressEntry (m_routingTable started_station))) = 2"
    by (simp only: same station_fields(5) [OF 9]) simp
  then show "length (m_ipv4AddressEntry (m_routingTable started_station)) \<le> 252" by simp
  have "m_reqCount e = 0 \<and> m_flag e = VALID" if "route_of (m_routingTable (station example_params 9)) k = Some e" for k e
    using that by (auto simp: station_defs run_defs Let_def split: if_splits)
  then show "entries_all (\<lambda>_. modest) (m_routingTable started_station)"
    using keyed_table [OF reachable_inv [OF station_reachable]] by (auto simp: entries_all_def modest_def same)
  show "receiver_of 0 started_station = Some 9"
    using station_addresses(4) [OF 9, of example_params] unfolding receiver_of_def same by simp
qed (simp_all add: started_station_same station_fields ip4_def)


end
