(* ===== verification/Search_Overrun.thy ===== *)
theory Search_Overrun
  imports Rate_Props Request_Props
begin

text \<open>
  A search can overrun its retries. A request that meets the rate limit is scheduled again whether or
  not the destination is searched for by then, so packets that arrive while the limit is reached leave
  one delayed \<open>SendRequest\<close> each. When they run, each counts as a retry, but only the retry timer compares
  the count with \<open>RreqRetries\<close>, and each call puts that timer off. The run below has the default
  attributes: ten packets for ten hosts exhaust the limit, 36 packets for one more host are deferred, and
  in the following seconds ten of the delayed requests run each.
\<close>

declare One_nat_def [simp del]

definition host :: "nat \<Rightarrow> ipv4" where
  "host k = word_of_nat (100 + k)"

lemma unat_host: "k \<le> 10 \<Longrightarrow> unat (host k) = 100 + k"
  unfolding host_def by (subst unat_of_nat) simp

abbreviation later :: effect where
  "later \<equiv> SchedRequest (MicroSeconds 100) 9"

definition deferred :: "nat \<Rightarrow> ipv4 \<Rightarrow> event" where
  "deferred k dst = EvRouteInput (example_deferred\<lparr>pk_uid := word_of_nat k\<rparr>) (example_header dst) 0 1 None 2"

subsection \<open>Packets arrive\<close>

definition asking :: "nat \<Rightarrow> ipv4 set \<Rightarrow> rp \<Rightarrow> bool" where
  "asking q D s \<longleftrightarrow> reachable be_codec True example_params 0 s \<and> Ran SchedStart \<in> set (log s) \<and>
     m_socketAddresses s = [(0, example_iface)] \<and> m_ipv4 s \<and> m_lo s = Some 0 \<and> par s = example_params \<and>
     (\<forall>k. route_of (m_routingTable s) k \<noteq> None \<longrightarrow> k \<in> D) \<and>
     (\<forall>e\<in>set (m_queue (rp_queue s)). unat (pk_uid (qe_packet e)) < q)"

definition started_agent :: rp where
  "started_agent = Start (emit (Ran SchedStart) example_agent)"

lemma unknown_stays: "rp_inv s \<Longrightarrow> route_of (m_routingTable s) k = None \<Longrightarrow> route_of (purged E s) k = None"
  using route_of_purged [OF keyed_table, of s E k] by simp

lemma enqueue_new:
  assumes "\<forall>i\<in>set (m_queue q). unat (pk_uid (qe_packet i)) < k" and "unat (pk_uid (qe_packet e)) = k" and "m_maxLen q \<noteq> 0"
  shows "\<exists>Q ds. RequestQueue_Enqueue t e q = Some (True, Q, ds) \<and> (\<forall>i\<in>set (m_queue Q). unat (pk_uid (qe_packet i)) < Suc k)"
proof -
  obtain P ps where P: "RequestQueue_Purge t q = (P, ps)" by fastforce
  then have old: "\<forall>i\<in>set (m_queue P). unat (pk_uid (qe_packet i)) < k" "m_maxLen P \<noteq> 0"
    using assms(1,3) by (auto simp: RequestQueue_Purge_def)
  then have "\<not> (\<exists>i\<in>set (m_queue P). pk_uid (qe_packet i) = pk_uid (qe_packet e) \<and> qe_dst i = qe_dst e)"
    using assms(2) by auto
  moreover have "\<forall>i\<in>set (m_queue P). unat (pk_uid (qe_packet i)) < Suc k" using old(1) by auto
  ultimately show ?thesis
    using old(2) assms(2) by (cases "m_queue P")
      (auto simp: RequestQueue_Enqueue_def P Let_def QueueEntry_SetExpireTime_def unsigned_eq_0_iff)
qed

lemma asked_known:
  assumes "asking q D s" and "route_of (purged E s) k \<noteq> None"
  shows "k \<in> D"
proof (rule ccontr)
  assume "k \<notin> D"
  with assms(1) have "route_of (m_routingTable s) k = None" "rp_inv s" using reachable_inv by (auto simp: asking_def)
  with assms(2) unknown_stays [of s k E] show False by simp
qed

text \<open>What the handler of a deferred packet hands to \<open>SendRequest\<close>.\<close>

lemma deferred_queued:
  assumes "asking q D s" and "q < 2 ^ 64" and "dst \<notin> D"
  obtains Q ds where "SendRequest (example_env 0) dst (s\<lparr>log := log s @ ds, rp_queue := Q, m_routingTable := purged (example_env 0) s\<rparr>)
      = handle (example_env 0) (deferred q dst) s"
    "\<forall>x\<in>set ds. sendable be_codec x" "\<forall>e\<in>set (m_queue Q). unat (pk_uid (qe_packet e)) < Suc q"
    "rp_inv (s\<lparr>log := log s @ ds, rp_queue := Q, m_routingTable := purged (example_env 0) s\<rparr>)"
proof -
  let ?E = "example_env 0"
  let ?e = "QueueEntry_new 0 (example_deferred\<lparr>pk_uid := word_of_nat q\<rparr>) (example_header dst) 1 2 0"
  have inv: "rp_inv s" using assms(1) reachable_inv by (auto simp: asking_def)
  have "unat (pk_uid (qe_packet ?e)) = q" using assms(2) by (simp add: unat_of_nat QueueEntry_new_def)
  moreover have "m_maxLen (rp_queue s) \<noteq> 0" using assms(1) inv by (auto simp: asking_def rp_inv_def run_defs Let_def)
  ultimately obtain Q ds where Q: "RequestQueue_Enqueue 0 ?e (rp_queue s) = Some (True, Q, ds)"
    and new: "\<forall>e\<in>set (m_queue Q). unat (pk_uid (qe_packet e)) < Suc q"
    using assms(1) enqueue_new [of "rp_queue s" q ?e 0] unfolding asking_def by blast
  then have enq: "enqueue ?E ?e s = Some (True, s\<lparr>log := log s @ ds, rp_queue := Q\<rparr>)"
    by (simp add: enqueue_def emits_def)
  from presD [OF good.I_enqueue [OF inv] enq] have i1: "rp_inv (s\<lparr>log := log s @ ds, rp_queue := Q\<rparr>)" by simp
  have "route_of (purged ?E s) dst = None"
    using assms(1,3) by (intro unknown_stays inv) (auto simp: asking_def)
  then have "handle ?E (deferred q dst) s =
      SendRequest ?E dst (s\<lparr>log := log s @ ds, rp_queue := Q, m_routingTable := purged ?E s\<rparr>)"
    using assms(1) enq
    by (simp add: deferred_def RouteInput_def DeferredRouteOutput_def lookup_eq purged_def asking_def
        example_stack_def example_deferred_def example_header_def option.map_comp comp_def option.map_ident)
  moreover have "rp_inv (s\<lparr>log := log s @ ds, rp_queue := Q, m_routingTable := purged ?E s\<rparr>)"
    using good.I_lookupD [OF i1 lookup_eq [of ?E 0]] by (simp add: purged_def)
  ultimately show thesis using that new sendable_queue_drops(1) [OF Q] by metis
qed

lemma sendable_silent: "\<forall>x\<in>set ds. sendable C x \<Longrightarrow> count_list ds (SchedRequest d k) = 0 \<and> count_list ds (Ran x) = 0"
  using count_list_0_iff [of ds "SchedRequest d k"] count_list_0_iff [of ds "Ran x"] by fastforce

lemma requests_silent:
  "log s' = log s @ map (\<lambda>(n, j). SchedSend (f n) (fst j) (g j) (h j)) js \<Longrightarrow>
   count_list (log s') (SchedRequest d k) = count_list (log s) (SchedRequest d k) \<and>
   count_list (log s') (Ran x) = count_list (log s) (Ran x)"
proof -
  have "count_list (map (\<lambda>(n, j). SchedSend (f n) (fst j) (g j) (h j)) js) y = 0" if "\<forall>a b c e. y \<noteq> SchedSend a b c e" for y
    using that by (induction js) auto
  then show "log s' = log s @ map (\<lambda>(n, j). SchedSend (f n) (fst j) (g j) (h j)) js \<Longrightarrow> ?thesis" by simp
qed

text \<open>After the event the agent is as before but for the queue, the table, the counters and the log.\<close>

lemma asking_step:
  assumes "asking q D s" and "handle (example_env 0) (deferred q dst) s = Some s'"
    and "\<And>k. route_of (m_routingTable s') k \<noteq> None \<Longrightarrow> k \<in> D'"
    and "\<forall>e\<in>set (m_queue (rp_queue s')). unat (pk_uid (qe_packet e)) < q'"
  shows "asking q' D' s'"
proof -
  have "agent_step (example_env 0) (deferred q dst) s s'"
    using assms(2) by (simp add: agent_step_iff deferred_def)
  then have "reachable be_codec True example_params (now (example_env 0)) s'"
    using assms(1) by (intro reachable_step [where t = 0]) (simp_all add: asking_def)
  moreover have "traffic_event (deferred q dst)" by (simp add: deferred_def)
  ultimately show ?thesis
    using traffic_keeps_configuration [OF _ assms(2)] assms(1,3,4) by (auto simp: asking_def)
qed

lemma host_asked:
  assumes s: "asking q D s" "q < 2 ^ 64" "dst \<notin> D" and c: "m_rreqCount s \<noteq> 10"
  shows "\<exists>s'. asking (Suc q) (insert dst D) s' \<and> m_rreqCount s' = m_rreqCount s + 1
     \<and> count_list (log s') later = count_list (log s) later \<and> count_list (log s') (Ran later) = count_list (log s) (Ran later)"
proof -
  let ?E = "example_env 0"
  obtain Q ds where run: "SendRequest ?E dst (s\<lparr>log := log s @ ds, rp_queue := Q, m_routingTable := purged ?E s\<rparr>)
      = handle ?E (deferred q dst) s"
    and ds: "\<forall>x\<in>set ds. sendable be_codec x" and Q: "\<forall>e\<in>set (m_queue Q). unat (pk_uid (qe_packet e)) < Suc q"
    and inv: "rp_inv (s\<lparr>log := log s @ ds, rp_queue := Q, m_routingTable := purged ?E s\<rparr>)"
    by (rule deferred_queued [OF s])
  let ?v = "s\<lparr>log := log s @ ds, rp_queue := Q, m_routingTable := purged ?E s\<rparr>"
  have p: "par ?v = example_params" and s_inv: "rp_inv s" using s(1) reachable_inv by (auto simp: asking_def)
  have known: "k \<in> D" if "route_of (purged ?E ?v) k \<noteq> None" for k
    using that unknown_stays [OF inv, of k ?E] asked_known [OF s(1), of ?E k] by force
  have count: "m_rreqCount ?v \<noteq> m_rreqRateLimit (par ?v)" using c p by (simp add: example_params_def initial_params_def Let_def)
  have "route_of (purged ?E ?v) dst = None" using known s(3) by blast
  then have "ucast (m_hops (searched ?E dst ?v)) < m_netDiameter (par ?v)"
    by (simp add: searched_def p) (simp add: example_params_def initial_params_def Let_def)
  with SendRequest_ok [OF inv count] obtain s' tm d where s': "SendRequest ?E dst ?v = Some s'"
    "s' = (request_sent ?E dst ?v)\<lparr>m_routingTable := m_routingTable s',
       m_addressReqTimer := smap_put dst (tm @ [TmSchedule (Some d)]) (m_addressReqTimer ?v)\<rparr>"
    "route_of (m_routingTable s') = (route_of (purged ?E ?v))(dst \<mapsto> searched ?E dst ?v)" by blast
  have f: "rp_queue s' = Q" "m_rreqCount s' = m_rreqCount s + 1" "log s' = log (request_sent ?E dst ?v)"
    by (subst s'(2), simp add: request_sent_frame)+
  have "asking (Suc q) (insert dst D) s'"
    using s'(1,3) known run f(1) Q by (intro asking_step [OF s(1)]) (auto split: if_splits)
  moreover note requests_silent [OF f(3) [unfolded request_sent_frame], of "MicroSeconds 100" 9 later] sendable_silent [OF ds]
  ultimately show ?thesis using f(2) by auto
qed

lemma host_deferred:
  assumes s: "asking q D s" "q < 2 ^ 64" "9 \<notin> D" and c: "m_rreqCount s = 10"
  shows "\<exists>s'. asking (Suc q) D s' \<and> m_rreqCount s' = 10
     \<and> count_list (log s') later = Suc (count_list (log s) later) \<and> count_list (log s') (Ran later) = count_list (log s) (Ran later)"
proof -
  let ?E = "example_env 0"
  obtain Q ds where run: "SendRequest ?E 9 (s\<lparr>log := log s @ ds, rp_queue := Q, m_routingTable := purged ?E s\<rparr>)
      = handle ?E (deferred q 9) s"
    and ds: "\<forall>x\<in>set ds. sendable be_codec x" and Q: "\<forall>e\<in>set (m_queue Q). unat (pk_uid (qe_packet e)) < Suc q"
    by (rule deferred_queued [OF s])
  let ?s = "s\<lparr>log := log s @ ds @ [later], rp_queue := Q, m_routingTable := purged ?E s\<rparr>"
  have inv: "rp_inv s" using s(1) reachable_inv by (auto simp: asking_def)
  have "m_rreqRateLimit (par s) = 10" using s(1) by (simp add: asking_def example_params_def initial_params_def Let_def)
  then have h: "handle ?E (deferred q 9) s = Some ?s"
    unfolding run [symmetric] using c by (simp add: SendRequest_def emit_def example_env_def)
  have "asking (Suc q) D ?s"
    using Q asked_known [OF s(1)] by (intro asking_step [OF s(1) h]) auto
  with c sendable_silent [OF ds] show ?thesis by (intro exI [of _ ?s]) auto
qed

subsection \<open>The delayed requests run\<close>

text \<open>The host after \<open>n\<close> requests: the ring grows by two up to the threshold, then every request counts.\<close>

definition overrun :: "nat \<Rightarrow> rp \<Rightarrow> bool" where
  "overrun n s \<longleftrightarrow> (\<exists>t. reachable be_codec True example_params t s) \<and> Ran SchedStart \<in> set (log s) \<and>
     par s = example_params \<and> count_list (log s) later = 36 \<and> count_list (log s) (Ran later) = n \<and>
     (case route_of (m_routingTable s) 9 of
        None \<Rightarrow> n = 0
      | Some e \<Rightarrow> 0 < n \<and> m_flag e = IN_SEARCH \<and> unat (m_reqCount e) = n - 4 \<and>
          unat (m_hops e) = (if n \<le> 4 then 2 * n - 1 else 35))"

lemma next_second:
  assumes "overrun n s"
  obtains s' where "overrun n s'" "m_rreqCount s' \<noteq> m_rreqRateLimit (par s')"
proof (cases "m_rreqCount s = m_rreqRateLimit (par s)")
  case False
  with assms that show ?thesis by blast
next
  case True
  obtain t where r: "reachable be_codec True example_params t s" using assms by (auto simp: overrun_def)
  let ?s = "RreqRateLimitTimerExpire (expire EvRreqLimitTimer s)"
  have "tm_started (m_rreqRateLimitTimer s)"
    using reachable_armed [OF r] assms by (simp add: armed_def overrun_def)
  then have "agent_step (example_env (t + Seconds 1)) EvRreqLimitTimer s ?s" by (simp add: agent_step_iff)
  with r have "reachable be_codec True example_params (now (example_env (t + Seconds 1))) ?s"
    by (intro reachable_step [OF r]) (simp_all add: time_units)
  with assms have "overrun n ?s" by (auto simp: overrun_def RreqRateLimitTimerExpire_def)
  moreover have "m_rreqCount ?s \<noteq> m_rreqRateLimit (par ?s)"
    using assms by (simp add: RreqRateLimitTimerExpire_def overrun_def example_params_def initial_params_def Let_def)
  ultimately show ?thesis using that by blast
qed

text \<open>A search is not purged.\<close>

lemma search_not_purged:
  assumes "rp_inv s"
  shows "(case route_of (m_routingTable s) 9 of None \<Rightarrow> True | Some e \<Rightarrow> m_flag e = IN_SEARCH) \<Longrightarrow>
    route_of (purged E s) 9 = route_of (m_routingTable s) 9"
  using purged_search [OF assms] unknown_stays [OF assms] by (auto split: option.splits)

lemma default_ring: "m_ttlStart example_params = 1" "m_ttlIncrement example_params = 2" "m_ttlThreshold example_params = 7"
  "m_netDiameter example_params = 35" "m_rreqRetries example_params = 2"
  by (simp_all add: example_params_def initial_params_def Let_def)

lemma searched_emit: "searched E k (emit x s) = searched E k s"
  by (simp add: searched_def purged_def emit_def split: option.split)

lemma overrun_entry:
  assumes s: "overrun n s" and n: "n \<le> 35"
  shows "unat (m_reqCount (searched E 9 s)) = Suc n - 4"
    "unat (m_hops (searched E 9 s)) = (if Suc n \<le> 4 then 2 * Suc n - 1 else 35)"
proof -
  have p: "par s = example_params" and "rp_inv s" using s reachable_inv by (auto simp: overrun_def)
  then have T: "route_of (purged E s) 9 = route_of (m_routingTable s) 9"
    using s by (intro search_not_purged) (auto simp: overrun_def split: option.splits)
  have "unat (m_reqCount (searched E 9 s)) = Suc n - 4 \<and>
    unat (m_hops (searched E 9 s)) = (if Suc n \<le> 4 then 2 * Suc n - 1 else 35)"
  proof (cases "route_of (m_routingTable s) 9")
    case None
    with s have "n = 0" by (simp add: overrun_def)
    with None show ?thesis by (simp add: searched_def T p default_ring)
  next
    case (Some e)
    with s have e: "0 < n" "m_flag e = IN_SEARCH" "unat (m_reqCount e) = n - 4"
      "unat (m_hops e) = (if n \<le> 4 then 2 * n - 1 else 35)"
      by (simp_all add: overrun_def)
    then have ttl: "unat (next_ttl example_params e) = (if unat (m_hops e) + 2 > 7 then 35 else unat (m_hops e) + 2)"
      using next_ttl_search [OF sane_example e(2)] by (simp add: default_ring split: if_splits)
    moreover have "unat (m_reqCount e + 1) = Suc (unat (m_reqCount e))"
      using e(3) n by (simp add: unat_word_ariths)
    ultimately show ?thesis
      using Some e n by (auto simp: searched_def T p ucast_eq_diameter default_ring split: if_splits)
  qed
  then show "unat (m_reqCount (searched E 9 s)) = Suc n - 4"
    "unat (m_hops (searched E 9 s)) = (if Suc n \<le> 4 then 2 * Suc n - 1 else 35)" by auto
qed

lemma overrun_next:
  assumes s: "overrun n s" and n: "n < 35"
  shows "\<exists>s'. overrun (Suc n) s'"
proof -
  obtain u where u: "overrun n u" "m_rreqCount u \<noteq> m_rreqRateLimit (par u)" using s by (rule next_second)
  obtain t where r: "reachable be_codec True example_params t u" using u(1) by (auto simp: overrun_def)
  let ?E = "example_env t" and ?v = "emit (Ran later) u"
  have v: "rp_inv ?v" "m_rreqCount ?v \<noteq> m_rreqRateLimit (par ?v)" "par ?v = example_params"
    "searched ?E 9 ?v = searched ?E 9 u" "m_routingTable ?v = m_routingTable u"
    using reachable_inv [OF r] u by (simp_all add: rp_inv_def emit_def overrun_def searched_emit [unfolded emit_def])
  have n35: "n \<le> 35" using n by simp
  note entry = overrun_entry [OF u(1) n35, of ?E]
  have "ucast (m_hops (searched ?E 9 ?v)) < m_netDiameter (par ?v)
      \<or> 0 < unat (m_reqCount (searched ?E 9 ?v)) \<and> unat (m_reqCount (searched ?E 9 ?v)) \<le> 31"
    using entry n by (auto simp: v ucast_less_diameter default_ring)
  from SendRequest_ok [OF v(1,2) this] obtain s' tm d where s': "SendRequest ?E 9 ?v = Some s'"
    "s' = (request_sent ?E 9 ?v)\<lparr>m_routingTable := m_routingTable s',
       m_addressReqTimer := smap_put 9 (tm @ [TmSchedule (Some d)]) (m_addressReqTimer ?v)\<rparr>"
    "route_of (m_routingTable s') = (route_of (purged ?E ?v))(9 \<mapsto> searched ?E 9 ?v)" by blast
  have f: "par s' = example_params" "log s' = log (request_sent ?E 9 ?v)"
    by (subst s'(2), simp add: request_sent_frame v)+
  have "due later (log u)" using u(1) n by (simp add: due_def overrun_def)
  then have "agent_step ?E (EvSendRequest (MicroSeconds 100) 9) u s'" using s'(1) by (simp add: agent_step_iff)
  then have "reachable be_codec True example_params t s'" using reachable_step [OF r, of ?E] by simp
  moreover have "count_list (log s') later = 36" "count_list (log s') (Ran later) = Suc n" "Ran SchedStart \<in> set (log s')"
    using requests_silent [OF f(2) [unfolded request_sent_frame], of "MicroSeconds 100" 9 later] u(1) f(2)
    by (auto simp: overrun_def emit_def request_sent_frame)
  ultimately have "overrun (Suc n) s'"
    using entry f(1) s'(3) v(4) by (auto simp: overrun_def)
  then show ?thesis by blast
qed

lemma overrun_stops:
  assumes s: "overrun 35 s" and c: "m_rreqCount s \<noteq> m_rreqRateLimit (par s)"
  shows "SendRequest E 9 (emit (Ran later) s) = None"
proof -
  let ?v = "emit (Ran later) s"
  have "rp_inv s" using s reachable_inv by (auto simp: overrun_def)
  then have inv: "rp_inv ?v" by (simp add: rp_inv_def emit_def)
  have p: "par ?v = example_params" "m_rreqCount ?v \<noteq> m_rreqRateLimit (par ?v)" "searched E 9 ?v = searched E 9 s"
    using s c by (simp_all add: overrun_def emit_def searched_emit [unfolded emit_def])
  note entry = overrun_entry [OF s order.refl, of E]
  have "31 \<le> uint (m_reqCount (searched E 9 s)) - 1" "m_reqCount (searched E 9 s) \<noteq> 0"
    using entry(1) by (auto simp: uint_nat)
  moreover have "\<not> ucast (m_hops (searched E 9 s)) < m_netDiameter example_params"
    using entry(2) by (simp add: ucast_less_diameter default_ring)
  ultimately have "retry_delay example_params (searched E 9 s) = None" by (simp add: retry_delay_def Let_def)
  moreover have "route_of (purged E (request_sent E 9 ?v)) 9 = Some (searched E 9 s)"
    using purged_request_sent [OF inv] p(3) by simp
  ultimately show ?thesis
    unfolding SendRequest_eq [OF p(2)]
    by (simp add: ScheduleRreqRetry_def lookup_eq into_def Let_def request_sent_frame p(1))
qed

subsection \<open>The run\<close>

definition own_routes :: "ipv4 set" where
  "own_routes = {ip4 127 0 0 1, ip4 10 1 1 255}"

lemma started_agent_asking:
  "asking 0 own_routes started_agent" "m_rreqCount started_agent = 0"
  "count_list (log started_agent) later = 0" "count_list (log started_agent) (Ran later) = 0"
proof -
  let ?E = "example_env 0"
  have log: "due SchedStart (log example_agent)" "count_list (log example_agent) later = 0"
    "count_list (log example_agent) (Ran later) = 0"
    by (simp_all add: due_def run_defs Let_def)
  then have "agent_step ?E EvStart example_agent started_agent"
    by (simp add: agent_step_iff started_agent_def)
  from reachable_step [OF example_reachable _ _ this] have "reachable be_codec True example_params 0 started_agent" by simp
  moreover have "k \<in> own_routes" if "route_of (m_routingTable example_agent) k \<noteq> None" for k
    using that by (auto simp: own_routes_def run_defs Let_def split: if_splits)
  ultimately show "asking 0 own_routes started_agent"
    by (auto simp: asking_def started_agent_def Start_def emit_def Let_def example_agent_fields)
  show "m_rreqCount started_agent = 0" "count_list (log started_agent) later = 0"
    "count_list (log started_agent) (Ran later) = 0"
    by (simp_all add: started_agent_def Start_def emit_def Let_def log example_agent_fields)
qed

lemma hosts_asked:
  assumes "n \<le> 10"
  shows "\<exists>s. asking n (own_routes \<union> host ` {..<n}) s \<and> m_rreqCount s = word_of_nat n
     \<and> count_list (log s) later = 0 \<and> count_list (log s) (Ran later) = 0"
  using assms
proof (induction n)
  case 0
  with started_agent_asking show ?case by auto
next
  case (Suc n)
  then obtain s where s: "asking n (own_routes \<union> host ` {..<n}) s" "m_rreqCount s = word_of_nat n"
    "count_list (log s) later = 0" "count_list (log s) (Ran later) = 0" by auto
  have "host n \<notin> own_routes \<union> host ` {..<n}"
    using Suc.prems by (auto simp: own_routes_def ip4_def word_unat_eq_iff unat_host)
  moreover have "m_rreqCount s \<noteq> 10"
    using Suc.prems s(2) by (auto simp: word_unat_eq_iff unat_of_nat)
  ultimately obtain s' where "asking (Suc n) (insert (host n) (own_routes \<union> host ` {..<n})) s'"
    "m_rreqCount s' = m_rreqCount s + 1" "count_list (log s') later = 0" "count_list (log s') (Ran later) = 0"
    using host_asked [OF s(1)] Suc.prems s(3,4) by fastforce
  then show ?case by (intro exI [of _ s']) (simp add: lessThan_Suc s(2))
qed

lemma more_deferred:
  assumes s: "asking 10 D s" "9 \<notin> D" "m_rreqCount s = 10"
    "count_list (log s) later = 0" "count_list (log s) (Ran later) = 0" and "m \<le> 36"
  shows "\<exists>s. asking (10 + m) D s \<and> m_rreqCount s = 10 \<and> count_list (log s) later = m \<and> count_list (log s) (Ran later) = 0"
  using assms(6)
proof (induction m)
  case 0
  with s show ?case by auto
next
  case (Suc m)
  then obtain u where "asking (10 + m) D u" "m_rreqCount u = 10" "count_list (log u) later = m"
    "count_list (log u) (Ran later) = 0" by auto
  with host_deferred [of "10 + m" D u] s(2) Suc.prems show ?case by force
qed

lemma overrun_starts: "\<exists>s. overrun 0 s"
proof -
  let ?D = "own_routes \<union> host ` {..<10}"
  have 9: "9 \<notin> ?D" by (auto simp: own_routes_def ip4_def word_unat_eq_iff unat_host)
  obtain s where "asking 10 ?D s" "m_rreqCount s = 10" "count_list (log s) later = 0" "count_list (log s) (Ran later) = 0"
    using hosts_asked [of 10] by auto
  from more_deferred [OF this(1) 9 this(2-4) order.refl] obtain u where
    u: "asking 46 ?D u" "count_list (log u) later = 36" "count_list (log u) (Ran later) = 0" by auto
  moreover have "route_of (m_routingTable u) 9 = None" using u(1) 9 unfolding asking_def by blast
  ultimately have "overrun 0 u" by (auto simp: overrun_def asking_def)
  then show ?thesis by blast
qed

lemma overrun_goes_on: "n \<le> 35 \<Longrightarrow> \<exists>s. overrun n s"
  using overrun_starts overrun_next by (induction n) force+

text \<open>C13: a delayed request can stop the agent. The retry timer ends a search after \<open>RreqRetries\<close>
  retries, but only by comparing the count when it expires. A request that meets the rate limit is scheduled
  again for each packet, whether or not the destination is searched for by then. Each of these delayed calls
  counts as a retry, even past \<open>RreqRetries\<close>, and restarts the timer. With the default attributes the agent
  reaches a state in which such a call is due, the search has passed \<open>RreqRetries\<close> and the call
  does not return: the delay of the next retry is a multiple of \<open>1 << 31\<close>, which is negative.\<close>

theorem deferred_requests_stop_agent:
  "\<exists>t s d e. reachable be_codec True example_params t s \<and> enabled (EvSendRequest d 9) s
     \<and> route_of (m_routingTable s) 9 = Some e \<and> m_rreqRetries (par s) < ucast (m_reqCount e)
     \<and> (\<forall>E s'. \<not> agent_step E (EvSendRequest d 9) s s')"
proof -
  obtain s where s: "overrun 35 s" "m_rreqCount s \<noteq> m_rreqRateLimit (par s)"
    using overrun_goes_on [of 35] next_second by blast
  then obtain t e where "reachable be_codec True example_params t s" "route_of (m_routingTable s) 9 = Some e"
    "unat (m_reqCount e) = 31" "par s = example_params"
    by (auto simp: overrun_def split: option.splits)
  moreover have "enabled (EvSendRequest (MicroSeconds 100) 9) s" using s(1) by (simp add: overrun_def due_def)
  moreover have "\<not> agent_step E (EvSendRequest (MicroSeconds 100) 9) s s'" for E s'
    using overrun_stops [OF s] by (simp add: agent_step_iff)
  ultimately show ?thesis
    by (intro exI [of _ t] exI [of _ s] exI [of _ "MicroSeconds 100"] exI [of _ e])
      (simp add: default_ring word_less_nat_alt unsigned_ucast_eq)
qed

end
