(* ===== verification/Wire_Props.thy ===== *)
theory Wire_Props
  imports Machine_Props Packet_Props
begin

text \<open>
  What an agent puts on the wire. Every datagram it hands to a socket, at once or by a scheduled call,
  is a message of the protocol, and a peer that shares its byte order takes it apart without error.
\<close>

subsection \<open>What a receiver does with the bytes\<close>

text \<open>The reads of \<open>RecvMadaodv\<close> and of the handler it passes the packet to; all bytes are to be
  used up.\<close>

definition parses :: "codec \<Rightarrow> u8 list \<Rightarrow> bool" where
  "parses C bs =
     (case TypeHeader_Deserialize (TypeHeader_new MADAODVTYPE_RREQ) bs of
        None \<Rightarrow> False
      | Some (tHeader, rest) \<Rightarrow>
          th_valid tHeader \<and>
          (case th_type tHeader of
             MADAODVTYPE_RREQ \<Rightarrow> map_option snd (RreqHeader_Deserialize C rest) = Some []
           | MADAODVTYPE_RREP \<Rightarrow> map_option snd (RrepHeader_Deserialize C rest) = Some []
           | MADAODVTYPE_RERR \<Rightarrow> map_option snd (RerrHeader_Deserialize C rest) = Some []
           | MADAODVTYPE_RREP_ACK \<Rightarrow> map_option snd (RrepAckHeader_Deserialize rest) = Some []))"

lemma th_new [simp]: "th_valid (TypeHeader_new t)" "th_type (TypeHeader_new t) = t"
  by (simp_all add: TypeHeader_new_def)

context byte_order
begin

lemma message_parses: "message C bs \<Longrightarrow> parses C bs"
proof (induction rule: message.induct)
  case (message_rreq h)
  show ?case using rreq_des_ser [of h "[]"] by (simp add: parses_def type_des_ser)
next
  case (message_rrep g)
  show ?case using rrep_des_ser [of g "[]"] by (simp add: parses_def type_des_ser)
next
  case (message_ack a)
  show ?case
    by (simp add: parses_def type_des_ser RrepAckHeader_Serialize_def RrepAckHeader_Deserialize_def
        RrepAckHeader_GetSerializedSize_def)
next
  case (message_rerr e)
  then show ?case
    using rerr_des_ser [of e "[]"] by (simp add: parses_def type_des_ser rerr_good_def)
qed

end

subsection \<open>The invariant\<close>

text \<open>That a call of \<open>SendRequest\<close> is scheduled, or a scheduled call has run, says nothing of messages.\<close>

fun fine :: "codec \<Rightarrow> effect \<Rightarrow> bool" where
  "fine C (Ran e) = True"
| "fine C (SchedRequest d dst) = True"
| "fine C e = sendable C e"

lemma sendable_fine: "sendable C e \<Longrightarrow> fine C e"
  by (cases e) simp_all

definition sends_messages :: "codec \<Rightarrow> rp \<Rightarrow> bool" where
  "sends_messages C s \<longleftrightarrow> (\<forall>e\<in>set (log s). fine C e)"

interpretation msgs: full_client free free free free E "sends_messages (wire E)"
  rewrites "\<And>P. (True \<Longrightarrow> P) \<equiv> Trueprop P"
  by unfold_locales
    (auto simp: sends_messages_def agent_ops delete_routes_from_def DoDispose_def emits_def SendTo_def
      Let_def dest: sendable_fine error_report_sendable)

lemma reachable_sends_messages: "reachable C b p t s \<Longrightarrow> sends_messages C s"
proof (induction rule: reachable.induct)
  case reachable_init
  show ?case by (simp add: sends_messages_def construction Let_def)
next
  case (reachable_step t s E ev s')
  then show ?case
    using msgs.J_agent_step [of E ev s s'] by (auto simp: sends_messages_def AckTimerExpire_def SetMaxQueueLen_def)
qed

text \<open>C4: type safety of the wire. In every reachable state, whatever datagram the agent has handed to
  a socket or scheduled to be handed to one, a receiver with the same byte order reads a known type
  from it and then a whole header of that type, leaving no byte and failing no check of size.\<close>

theorem sent_messages_parse:
  assumes "reachable C b p t s" and "codec_ok C"
    and "SockSend k m a \<in> set (log s) \<or> SchedSend d k m a \<in> set (log s)"
  shows "parses C (ct_bytes m)"
  using reachable_sends_messages [OF assms(1)] assms(3)
  by (auto simp: sends_messages_def intro!: byte_order.message_parses [OF byte_orderI [OF assms(2)]])

text \<open>The agent of the witnesses starts its hello timer, and the timer's time comes.\<close>

definition hello_ready :: rp where
  "hello_ready = DoInitialize (example_env 0) example_agent"

definition hello_agent :: rp where
  "hello_agent = HelloTimerExpire (example_env 0) (expire EvHelloTimer hello_ready)"

definition hello_message :: control where
  "hello_message = rrep_packet (example_env 0) 1
     (RrepHeader_new (example_env 0) 0 0 (ip4 10 1 1 1) (rp_seqNo example_agent) (ip4 10 1 1 1) (Seconds 2))"

lemma hello_ready_fields:
  "tm_started (m_htimer hello_ready)" "par hello_ready = example_params"
  "m_lastBcastTime hello_ready = 0" "m_socketAddresses hello_ready = [(0, example_iface)]"
  "rp_seqNo hello_ready = rp_seqNo example_agent"
  by (simp_all add: hello_ready_def DoInitialize_def example_agent_fields draw_def Let_def)
    (simp_all add: example_params_def tm_started_def)

lemma hello_agent_reachable: "reachable be_codec True example_params 0 hello_agent"
proof -
  have 1: "agent_step (example_env 0) EvInitialize example_agent hello_ready"
    by (simp add: agent_step_iff hello_ready_def)
  have 2: "agent_step (example_env 0) EvHelloTimer hello_ready hello_agent"
    by (simp add: agent_step_iff hello_agent_def hello_ready_fields)
  have "reachable be_codec True example_params (now (example_env 0)) hello_agent"
    by (rule reachable_step [OF reachable_step [OF example_reachable _ _ 1] _ _ 2]) simp_all
  then show ?thesis by simp
qed

lemma hello_agent_sends: "SchedSend 0 0 hello_message (ip4 10 1 1 255) \<in> set (log hello_agent)"
  by (simp add: hello_agent_def HelloTimerExpire_def hello_ready_fields SendHello_def hello_on_def
      schedule_send_def jitter_def draw_def emit_def Let_def hello_message_def example_iface_def
      broadcast_destination_def)
    (simp add: example_params_def initial_params_def Let_def time_units example_env_def ip4_def)

theorem sent_messages_parse_witness: "parses be_codec (ct_bytes hello_message)"
  using sent_messages_parse [OF hello_agent_reachable be_codec_ok] hello_agent_sends by blast

end
