(* ===== verification/Chain_Example.thy ===== *)
theory Chain_Example
  imports Chain_Props
begin

text \<open>
  A path of three agents, for \<open>discovery_over_path\<close>: 10.1.1.1 asks for 10.1.1.2, with a first TTL of 2,
  and 10.1.1.3 is in between.
\<close>

definition far_params :: params where
  "far_params = example_params\<lparr>m_ttlStart := 2\<rparr>"

definition asker :: ipv4 where
  "asker = ip4 10 1 1 1"

definition relay :: ipv4 where
  "relay = ip4 10 1 1 3"

definition target :: ipv4 where
  "target = ip4 10 1 1 2"

lemma stations [simp]:
  "a \<in> {asker, relay, target} \<Longrightarrow> a \<noteq> ip4 127 0 0 1" "a \<in> {asker, relay, target} \<Longrightarrow> a \<noteq> ip4 10 1 1 255"
  "a \<in> {asker, relay, target} \<Longrightarrow> a \<noteq> 0"
  "asker \<noteq> relay" "asker \<noteq> target" "relay \<noteq> target" "relay \<noteq> asker" "target \<noteq> asker" "target \<noteq> relay"
  by (auto simp: asker_def relay_def target_def ip4_def)

lemmas station_facts = station_fields [OF stations(1)] station_addresses [OF stations(1)] station_unknown [OF stations(1)]

lemma far_sane: "sane far_params" "m_rreqRateLimit far_params = 10" "m_ttlStart far_params = 2"
  by (simp_all add: sane_def far_params_def example_params_def initial_params_def Let_def)

lemma far_asks:
  "\<exists>a1 d m b h. SendRequest (station_env asker) target (station far_params asker) = Some a1
     \<and> SchedSend d 0 m b \<in> set (drop (length (log (station far_params asker))) (log a1))
     \<and> ct_bytes m = rreq_bytes be_codec h \<and> ct_ttl m = 2 \<and> rq_dst h = target \<and> rq_origin h = asker
     \<and> rq_hopCount h = 0"
proof -
  let ?E = "station_env asker" and ?a = "station far_params asker" and ?dst = "target"
  have none: "route_of (purged ?E ?a) ?dst = None" using stations(2) [of target] stations(1) [of target] by (intro station_facts) simp_all
  have count: "m_rreqCount ?a \<noteq> m_rreqRateLimit (par ?a)" by (simp add: station_facts far_sane)
  obtain a1 where a1: "SendRequest ?E ?dst ?a = Some a1"
    using SendRequest_total [OF reachable_inv [OF station_reachable], of far_params asker ?E ?dst] none
    by (auto simp: station_facts far_sane)
  then have "ScheduleRreqRetry ?E ?dst (request_sent ?E ?dst ?a) = Some a1" using count by (simp add: SendRequest_eq)
  from ScheduleRreqRetry_frame [OF this]
  have log: "log a1 = log ?a @ [SchedSend (MilliSeconds (uniform ?E (draws ?a) 0 10)) 0
      (rreq_packet ?E (request_header ?E ?dst ?a) (m_hops (searched ?E ?dst ?a)) (station_iface asker))
      (broadcast_destination ?E (station_iface asker))]"
    by (simp add: request_sent_frame station_facts)
  have "m_hops (searched ?E ?dst ?a) = 2"
    by (simp add: searched_def none first_search_def Let_def station_facts far_sane IncrementRreqCnt_def)
  then have "ct_ttl (rreq_packet ?E (request_header ?E ?dst ?a) (m_hops (searched ?E ?dst ?a)) (station_iface asker)) = 2"
    by (simp add: rreq_packet_def control_packet_def)
  moreover obtain h where "ct_bytes (rreq_packet ?E (request_header ?E ?dst ?a) (m_hops (searched ?E ?dst ?a))
      (station_iface asker)) = rreq_bytes be_codec h"
    "rq_dst h = ?dst" "rq_origin h = asker" "rq_hopCount h = 0"
    using request_copies [OF a1 count, of _ 0] by (auto simp: log station_facts station_iface_def)
  ultimately show ?thesis using a1 log by auto
qed

text \<open>The request at the relay.\<close>

lemma example_new: "rq_hopCount h = 0 \<or> rq_hopCount h = 1 \<Longrightarrow>
    0 \<le> reverse_lifetime example_params (rq_hopCount h + 1)"
  by (rule example_times(1)) auto

lemma station_received:
  "RecvMadaodv (station_env a) k p src (station q a) = Some s' \<Longrightarrow>
   received be_codec \<lparr>rx_env = station_env a, rx_sock = k, rx_packet = p, rx_sender = src, rx_before = station q a, rx_after = s'\<rparr>"
  by (simp add: received_def) (blast intro: station_reachable)

lemma relay_passes:
  assumes "SchedSend d 0 m b \<in> set es" "(0, i) \<in> set socks" "ia_local i = asker"
    and m: "ct_bytes m = rreq_bytes be_codec h" "ct_ttl m = 2"
    and h: "rq_dst h = target" "rq_origin h = asker" "rq_hopCount h = 0"
  shows "\<exists>x d b e. rx_env x = station_env relay \<and> rx_before x = station example_params relay \<and> rx_sender x = asker
     \<and> rx_sock x = 0 \<and> received be_codec x \<and> request_heard be_codec es socks h x \<and> request_new h x
     \<and> SchedSend d 0 (control_packet 1 MADAODVTYPE_RREQ (RreqHeader_Serialize be_codec (next_hop h))) b \<in> set (sent x)
     \<and> route_of (m_routingTable (rx_after x)) asker = Some e \<and> m_flag e = VALID \<and> 0 \<le> GetLifeTime 0 e
     \<and> m_iface e = station_iface relay \<and> unknown target (rx_after x)"
proof -
  let ?p = "\<lparr>pk_uid = 1, pk_bytes = ct_bytes m, pk_ttl_tag = Some 2, pk_oif_tag = None\<rparr>"
  let ?E = "station_env relay" and ?s = "station example_params relay"
  obtain s' where s': "RecvMadaodv ?E 0 ?p asker ?s = Some s'"
    using station_hears [of relay ?p h asker example_params] m(1) h example_times stations(1,2) [of target] stations(1,2) [of asker]
      stations(1) [of relay] example_new [of h]
    by auto
  let ?x = "\<lparr>rx_env = ?E, rx_sock = 0, rx_packet = ?p, rx_sender = asker, rx_before = ?s, rx_after = s'\<rparr>"
  have rx: "received be_codec ?x" using s' station_received by simp
  have heard: "request_heard be_codec es socks h ?x" using m assms(3) by (intro request_heardI [OF assms(1,2)]) simp_all
  have new: "request_new h ?x"
    using h example_new [of h] example_times(2) by (simp add: request_new_def IdCache_seen_def station_facts)
  have none: "route_of (purged ?E ?s) target = None"
    using stations(1,2) [of target] by (intro station_facts) simp_all
  have own: "\<not> IsMyOwnAddress (rq_dst h) ?s" by (simp add: station_facts h)
  from request_on_the_way [OF rx be_codec_ok heard new] own none h obtain es' d' where
    "sent ?x = es' @ rreq_copies ?E (next_hop h) 1 d' (m_socketAddresses ?s)"
    by (auto simp: ttl_of_def)
  then have sent: "\<exists>d b. SchedSend d 0 (control_packet 1 MADAODVTYPE_RREQ (RreqHeader_Serialize be_codec (next_hop h))) b
      \<in> set (sent ?x)"
    by (auto simp: rreq_copies_def station_facts)
  from rx be_codec_ok heard new obtain p receiver u where
    eq: "u = UpdateRouteToNeighbor ?E asker receiver ?s"
    and u: "rp_inv u" "taken_up ?E h asker u" "pk_bytes p = RreqHeader_Serialize be_codec h @ []"
    "RecvRequest ?E p receiver asker u = Some s'"
    "par u = par ?s" "m_socketAddresses u = m_socketAddresses ?s"
    and to: "receiver_of 0 ?s = Some receiver"
    by (rule request_enters) simp
  obtain T where uT: "u = ?s\<lparr>m_routingTable := T\<rparr>" unfolding eq using neighbor_update_frame by blast
  have parse: "RreqHeader_Deserialize (wire ?E) (pk_bytes p) = Some (h, [])"
    using be.rreq_des_ser [of h "[]"] u(3) by simp
  have inv: "rp_inv ?s" by (rule reachable_inv [OF station_reachable])
  have dst: "\<not> IsMyOwnAddress (rq_dst h) u" "route_of (purged ?E u) (rq_dst h) = None"
    "rq_dst h \<noteq> rq_origin h" "rq_dst h \<noteq> asker"
    using own u(6) h none neighbor_update_purged [OF inv, of target asker ?E receiver]
    by (simp_all add: IsMyOwnAddress_def eq)
  have times: "0 \<le> reverse_lifetime (par u) (rq_hopCount h + 1)" "0 \<le> m_activeRouteTimeout (par u)"
    "0 \<le> hello_lifetime (par u)" "lost (now ?E) (rp_nb u) = []"
    using example_new [of h] h example_times(2,3) by (simp_all add: u(5) station_facts) (simp add: uT lost_def station_facts)
  from RecvRequest_leaves [OF u(1) parse u(2) times(2,4,3) dst u(4)] obtain e where
    e: "route_of (m_routingTable s') asker = Some e" "m_flag e = VALID" "0 \<le> GetLifeTime 0 e" "unknown target s'"
    using h by auto
  from RecvRequest_reaches [OF u(1) parse u(2) times(1,2) _ u(4)] dst to e(1) h have "m_iface e = station_iface relay"
    by (auto simp: reaches_def station_facts)
  with e rx heard new sent show ?thesis
    by (intro exI [of _ ?x]) simp
qed

text \<open>The request at its target.\<close>

lemma target_answers:
  assumes "SchedSend d 0 (control_packet 1 MADAODVTYPE_RREQ (RreqHeader_Serialize be_codec h)) b \<in> set es"
    "(0, i) \<in> set socks" "ia_local i = relay"
    and h: "rq_dst h = target" "rq_origin h = asker" "rq_hopCount h = 1"
  shows "\<exists>x m g. rx_before x = station example_params target \<and> rx_sender x = relay
     \<and> received be_codec x \<and> request_heard be_codec es socks h x \<and> request_new h x
     \<and> SockSend 0 m relay \<in> set (sent x) \<and> ct_bytes m = rrep_bytes be_codec g \<and> ct_ttl m = 2
     \<and> rp_dst g = target \<and> rp_origin g = asker \<and> rp_flags g = 0 \<and> rp_hopCount g = 0"
proof -
  let ?m = "control_packet 1 MADAODVTYPE_RREQ (RreqHeader_Serialize be_codec h)"
  let ?p = "\<lparr>pk_uid = 2, pk_bytes = ct_bytes ?m, pk_ttl_tag = Some 1, pk_oif_tag = None\<rparr>"
  let ?E = "station_env target" and ?s = "station example_params target"
  have m: "ct_bytes ?m = rreq_bytes be_codec h" "ct_ttl ?m = 1" by (simp_all add: control_packet_def)
  obtain s' where s': "RecvMadaodv ?E 0 ?p relay ?s = Some s'"
    using station_hears [of target ?p h relay example_params] m(1) h example_times stations(1,2) [of asker]
      stations(1) [of target] example_new [of h]
    by auto
  let ?x = "\<lparr>rx_env = ?E, rx_sock = 0, rx_packet = ?p, rx_sender = relay, rx_before = ?s, rx_after = s'\<rparr>"
  have rx: "received be_codec ?x" using s' station_received by simp
  have heard: "request_heard be_codec es socks h ?x" using m assms(3) by (intro request_heardI [OF assms(1,2)]) simp_all
  have new: "request_new h ?x"
    using h example_new [of h] example_times(2) by (simp add: request_new_def IdCache_seen_def station_facts)
  have own: "IsMyOwnAddress (rq_dst h) (rx_before ?x)" by (simp add: station_facts h)
  from request_at_destination [OF rx be_codec_ok heard new own] h
  obtain k es' g where "sent ?x = es' @ [SockSend k (rrep_packet ?E 2 g) relay]" "k = 0"
    "rp_dst g = target" "rp_origin g = asker" "rp_flags g = 0" "rp_hopCount g = 0"
    by (auto simp: station_facts)
  with rx heard new show ?thesis
    by (intro exI [of _ ?x] exI [of _ "rrep_packet ?E 2 g"] exI [of _ g])
      (simp add: rrep_packet_def control_packet_def)
qed

text \<open>The reply at the relay.\<close>

lemma relay_returns:
  assumes z: "rx_env z = station_env relay" "rx_before z = station example_params relay" "rx_sock z = 0"
    "received be_codec z" "route_of (m_routingTable (rx_after z)) asker = Some e" "m_flag e = VALID"
    "0 \<le> GetLifeTime 0 e" "m_iface e = station_iface relay" "unknown target (rx_after z)"
    and y: "SockSend 0 m relay \<in> set es" "(0, i) \<in> set socks" "ia_local i = target"
    and g: "ct_bytes m = rrep_bytes be_codec g" "ct_ttl m = 2"
      "rp_dst g = target" "rp_origin g = asker" "rp_flags g = 0"
  shows "\<exists>y. rx_env y = station_env relay \<and> rx_before y = rx_after z \<and> rx_sender y = target
     \<and> received be_codec y \<and> reply_heard be_codec es socks g y \<and> way_back asker target z y"
proof -
  let ?E = "station_env relay" and ?s = "rx_after z"
  let ?p = "\<lparr>pk_uid = 3, pk_bytes = ct_bytes m, pk_ttl_tag = Some 2, pk_oif_tag = None\<rparr>"
  let ?u = "UpdateRouteToNeighbor ?E target relay ?s"
  have recv: "RecvMadaodv ?E 0 (rx_packet z) (rx_sender z) (station example_params relay) = Some ?s"
    using z(1-4) by (simp add: received_def)
  then have "agent_step ?E (EvRecv 0 (rx_packet z) (rx_sender z)) (station example_params relay) ?s"
    by (simp add: agent_step_iff)
  with reachable_step [OF station_reachable [of example_params relay], of ?E]
  have reach: "reachable be_codec True example_params (now ?E) ?s" by simp
  then have inv: "rp_inv ?s" by (rule reachable_inv)
  have socks: "m_socketAddresses ?s = [(0, station_iface relay)]"
    using presD [OF config.J_RecvMadaodv [OF same_config_refl, simplified] recv] by (simp add: same_config_def station_facts)
  then have own: "IsMyOwnAddress k ?s \<longleftrightarrow> k = relay" "FindSocketWithInterfaceAddress (station_iface relay) ?s = Some 0"
    "receiver_of 0 ?s = Some relay" for k
    by (auto simp: IsMyOwnAddress_def FindSocketWithInterfaceAddress_def receiver_of_def station_iface_def)
  obtain T where u: "?u = ?s\<lparr>m_routingTable := T\<rparr>" using neighbor_update_frame by blast
  have live: "live ?E e" using z(7) by (simp add: live_def)
  from purge_entry_live [OF this] z(5) have "route_of (purged ?E ?s) asker = Some e"
    by (simp add: route_of_purged [OF keyed_table [OF inv]])
  with live have stands: "stands ?E asker e ?u"
    using neighbor_update_other [OF inv, of asker target ?E relay] keyed_table [OF good.I_UpdateRouteToNeighbor [OF inv]]
    by (simp add: stands_def)
  have none: "route_of (purged ?E ?s) target = None"
    using unknown_purged [OF z(9)] by (simp add: unknown_def)
  let ?q = "?p\<lparr>pk_bytes := RrepHeader_Serialize be_codec g\<rparr>"
  have "\<exists>s'. RecvReply ?E ?q relay target ?u = Some s'"
  proof (rule RecvReply_forward_total)
    show "RrepHeader_Deserialize (wire ?E) (pk_bytes ?q) = Some (g, [])" using be.rrep_des_ser [of g "[]"] by simp
    show "stands ?E (rp_origin g) e ?u" using stands g(4) by simp
    show "\<not> m_validSeqNo e'" if "route_of (purged ?E ?u) (rp_dst g) = Some e'" for e'
      using neighbor_update_valid [OF inv _ that] none g(3) by simp
    show "FindSocketWithInterfaceAddress (m_iface e) ?u \<noteq> None"
      using own(2) by (auto simp: u z(8) FindSocketWithInterfaceAddress_def)
    show "\<not> IsMyOwnAddress (rp_origin g) ?u" using own(1) [of asker] g(4) by (simp add: u IsMyOwnAddress_def)
  qed (simp_all add: g z(6))
  then obtain s' where s': "RecvMadaodv ?E 0 ?p target ?s = Some s'"
    using own(3) g(1) by (auto simp: RecvMadaodv_eq)
  let ?y = "\<lparr>rx_env = ?E, rx_sock = 0, rx_packet = ?p, rx_sender = target, rx_before = ?s, rx_after = s'\<rparr>"
  have "received be_codec ?y" using s' reach by (auto simp: received_def)
  moreover have "reply_heard be_codec es socks g ?y" using g(1,2) y(3) own(1) by (intro reply_heardI [OF y(1,2)]) simp_all
  moreover have "way_back asker target z ?y"
    using z none socks by (auto simp: way_back_def station_facts)
  ultimately show ?thesis by (intro exI [of _ ?y]) simp
qed

text \<open>The reply at the agent that asked.\<close>

lemma asker_learns:
  assumes "SockSend 0 m asker \<in> set es" "(0, i) \<in> set socks" "ia_local i = relay"
    and g: "ct_bytes m = rrep_bytes be_codec g" "ct_ttl m = 1"
      "rp_dst g = target" "rp_origin g = asker" "rp_flags g = 0"
  shows "\<exists>y. rx_before y = station far_params asker \<and> rx_sender y = relay
     \<and> received be_codec y \<and> reply_heard be_codec es socks g y \<and> still_asks asker target y"
proof -
  let ?E = "station_env asker" and ?s = "station far_params asker"
  let ?p = "\<lparr>pk_uid = 4, pk_bytes = ct_bytes m, pk_ttl_tag = Some 1, pk_oif_tag = None\<rparr>"
  let ?u = "UpdateRouteToNeighbor ?E relay asker ?s"
  let ?q = "?p\<lparr>pk_bytes := RrepHeader_Serialize be_codec g\<rparr>"
  have inv: "rp_inv ?s" by (rule reachable_inv [OF station_reachable])
  have none: "route_of (purged ?E ?s) target = None"
    using stations(1,2) [of target] by (intro station_facts) simp_all
  obtain T where u: "?u = ?s\<lparr>m_routingTable := T\<rparr>" using neighbor_update_frame by blast
  have "\<exists>s'. RecvReply ?E ?q asker relay ?u = Some s'"
  proof (rule RecvReply_own_total)
    show "RrepHeader_Deserialize (wire ?E) (pk_bytes ?q) = Some (g, [])" using be.rrep_des_ser [of g "[]"] by simp
    show "\<not> m_validSeqNo e'" if "route_of (purged ?E ?u) (rp_dst g) = Some e'" for e'
      using neighbor_update_valid [OF inv _ that] none g(3) by simp
    show "IsMyOwnAddress (rp_origin g) ?u" using g(4) by (simp add: u IsMyOwnAddress_def station_facts station_iface_def)
  qed (simp_all add: g)
  then obtain s' where s': "RecvMadaodv ?E 0 ?p relay ?s = Some s'"
    using g(1) station_facts(11) [of asker far_params] by (auto simp: RecvMadaodv_eq)
  let ?y = "\<lparr>rx_env = ?E, rx_sock = 0, rx_packet = ?p, rx_sender = relay, rx_before = ?s, rx_after = s'\<rparr>"
  have "received be_codec ?y" using s' station_received by simp
  moreover have "reply_heard be_codec es socks g ?y"
    using g(1,2) assms(3) by (intro reply_heardI [OF assms(1,2)]) (simp_all add: station_facts)
  moreover have "still_asks asker target ?y"
    using none stations(3) [of target] by (simp add: still_asks_def station_facts)
  ultimately show ?thesis by (intro exI [of _ ?y]) simp
qed

theorem discovery_over_path_witness:
  "\<exists>a1 x1 x2 y1 y2 e.
     SendRequest (station_env asker) target (station far_params asker) = Some a1
     \<and> request_path be_codec asker target (drop (length (log (station far_params asker))) (log a1))
         (m_socketAddresses (station far_params asker)) [x1, x2]
     \<and> reply_path be_codec asker target (sent x2) (m_socketAddresses (rx_before x2)) [x1] [y1, y2]
     \<and> route_of (m_routingTable (rx_after y2)) target = Some e \<and> m_flag e = VALID \<and> GetNextHop e = relay \<and> m_hops e = 2"
proof -
  let ?a = "station far_params asker" and ?E = "station_env asker"
  have socks: "(0, station_iface a) \<in> set (m_socketAddresses (station q a))" "ia_local (station_iface a) = a"
    if "a \<in> {asker, relay, target}" for a q
    using station_facts(1) [OF that] by (simp_all add: station_iface_def)
  obtain a1 d m b h where a1: "SendRequest ?E target ?a = Some a1"
    and m: "SchedSend d 0 m b \<in> set (drop (length (log ?a)) (log a1))" "ct_bytes m = rreq_bytes be_codec h" "ct_ttl m = 2"
    and h: "rq_dst h = target" "rq_origin h = asker" "rq_hopCount h = 0"
    using far_asks by blast
  obtain x1 d1 b1 e1 where x1: "rx_env x1 = station_env relay" "rx_before x1 = station example_params relay" "rx_sender x1 = asker"
    "rx_sock x1 = 0" "received be_codec x1"
    "request_heard be_codec (drop (length (log ?a)) (log a1)) (m_socketAddresses ?a) h x1" "request_new h x1"
    "SchedSend d1 0 (control_packet 1 MADAODVTYPE_RREQ (RreqHeader_Serialize be_codec (next_hop h))) b1 \<in> set (sent x1)"
    and e1: "route_of (m_routingTable (rx_after x1)) asker = Some e1" "m_flag e1 = VALID" "0 \<le> GetLifeTime 0 e1"
    "m_iface e1 = station_iface relay" "unknown target (rx_after x1)"
    using relay_passes [OF m(1) _ _ m(2,3) h, of "station_iface asker" "m_socketAddresses ?a"] socks [of asker] by auto
  have hop: "rq_dst (next_hop h) = target" "rq_origin (next_hop h) = asker" "rq_hopCount (next_hop h) = 1"
    using h by simp_all
  obtain x2 m2 g where x2: "rx_before x2 = station example_params target" "rx_sender x2 = relay" "received be_codec x2"
    "request_heard be_codec (sent x1) (m_socketAddresses (rx_before x1)) (next_hop h) x2" "request_new (next_hop h) x2"
    and m2: "SockSend 0 m2 relay \<in> set (sent x2)" "ct_bytes m2 = rrep_bytes be_codec g" "ct_ttl m2 = 2"
    and g: "rp_dst g = target" "rp_origin g = asker" "rp_flags g = 0" "rp_hopCount g = 0"
    using target_answers [OF x1(8) _ _ hop, of "station_iface relay" "m_socketAddresses (rx_before x1)"] socks [of relay] x1(2)
    by auto
  have x2_socks: "m_socketAddresses (rx_before x2) = [(0, station_iface target)]" by (simp add: x2(1) station_facts)
  obtain y1 where y1: "rx_env y1 = station_env relay" "rx_before y1 = rx_after x1" "rx_sender y1 = target" "received be_codec y1"
    "reply_heard be_codec [SockSend 0 m2 relay] (m_socketAddresses (rx_before x2)) g y1" "way_back asker target x1 y1"
    using relay_returns [OF x1(1,2,4,5) e1, of m2 "[SockSend 0 m2 relay]" "station_iface target" "m_socketAddresses (rx_before x2)" g]
      m2(2,3) g(1-3) x2_socks
    by (auto simp: station_iface_def)
  have path: "request_path be_codec asker target (drop (length (log ?a)) (log a1)) (m_socketAddresses ?a) [x1, x2]"
    using x1 x2 stations(1,2) [of target] by (auto simp: station_facts)
  have start: "request_after be_codec asker target 0 (drop (length (log ?a)) (log a1)) (m_socketAddresses ?a)"
    using request_starts [OF reachable_inv [OF station_reachable] _ a1, of asker]
    by (simp add: be_codec_ok station_facts far_sane)
  from request_path_routes [OF be_codec_ok _ path start] x1(3) obtain i where
    r1: "reaches (rx_env x1) asker (rx_sender x1, i, 1) (rx_after x1)"
    by fastforce
  have after: "reply_after be_codec asker target (rp_dstSeqNo g) 0 (Suc (Suc 0)) [SockSend 0 m2 relay] (m_socketAddresses (rx_before x2))"
    using g m2(2,3) message_kinds(2) [OF be_codec_ok]
    by (auto simp: reply_after_def x2_socks station_iface_def)
  have same: "m_socketAddresses (rx_before y1) = m_socketAddresses (station example_params relay)"
    using y1(6) x1(2) by (simp add: way_back_def)
  then have own: "\<not> IsMyOwnAddress asker (rx_before y1)"
    using station_facts(8) [of relay asker example_params] by (simp add: IsMyOwnAddress_def)
  from reply_on_the_way [OF y1(4) be_codec_ok _ after y1(5,6) own _ _ r1] x1(3) obtain k m3 where
    m3: "sent y1 = [SockSend k m3 asker]" "k \<in> fst ` set (m_socketAddresses (rx_before y1))" "ct_ttl m3 = 1"
    "ct_bytes m3 = rrep_bytes be_codec (g\<lparr>rp_hopCount := 1\<rparr>)"
    by auto
  have "k = 0" using m3(2) by (simp add: same station_facts)
  obtain y2 where y2: "rx_before y2 = station far_params asker" "rx_sender y2 = relay" "received be_codec y2"
    "reply_heard be_codec (sent y1) (m_socketAddresses (rx_before y1)) (g\<lparr>rp_hopCount := 1\<rparr>) y2" "still_asks asker target y2"
    using asker_learns [of m3 "sent y1" "station_iface relay" "m_socketAddresses (rx_before y1)" "g\<lparr>rp_hopCount := 1\<rparr>"]
      m3 \<open>k = 0\<close> g(1-3) same by (auto simp: station_facts station_iface_def)
  have "reply_heard be_codec (sent x2) (m_socketAddresses (rx_before x2)) g y1"
    using y1(5) m2(1) by (auto simp: reply_heard_def)
  then have answers: "reply_path be_codec asker target (sent x2) (m_socketAddresses (rx_before x2)) [x1] [y1, y2]"
    using y1(4,6) y2(3-5) by auto
  have "\<exists>e. route_of (m_routingTable (rx_after y2)) target = Some e \<and> m_flag e = VALID \<and> GetNextHop e = relay \<and> m_hops e = 2"
    using discovery_over_path [OF be_codec_ok station_env_simps(2) station_reachable _ a1, of "[x1, x2]" "[y1, y2]"]
      path answers x1(3) y2(2)
    by (fastforce simp: station_facts far_sane)
  with a1 path answers show ?thesis by blast
qed

end
