(* ===== verification/Output.thy ===== *)
theory Output
  imports Packet_Format Routing_Table_Props Protocol_State
begin

text \<open>
  What the module prints: the \<open>Print\<close> functions of the headers (\<open>model/madaodv-packet.cc\<close>) and of the
  tag for deferred packets, the routing table with its own purge of a copy (\<open>model/madaodv-rtable.cc\<close>),
  and \<open>PrintRoutingTable\<close> (\<open>model/madaodv-routing-protocol.cc\<close>). How an address and a time are written
  is ns-3's; decimal numbers, the fields of a table and the state of the stream are modelled.
\<close>

subsection \<open>Streams\<close>

text \<open>\<open>show_time n unit t\<close> is \<open>t.As (unit)\<close> on a stream of precision \<open>n\<close>.\<close>

record 'u printer =
  show_ipv4 :: "ipv4 \<Rightarrow> string"
  show_time :: "nat \<Rightarrow> 'u \<Rightarrow> time \<Rightarrow> string"
  node_id :: u32
  local_time :: time

text \<open>The part of a stream's format that the code sets: \<open>std::left\<close>, the width of the next output,
  the precision.\<close>

record ostream =
  os_text :: string
  os_left :: bool
  os_width :: nat
  os_precision :: nat

definition pad :: "bool \<Rightarrow> nat \<Rightarrow> string \<Rightarrow> string" where
  "pad left w s =
     (if left then s @ replicate (w - length s) CHR '' '' else replicate (w - length s) CHR '' '' @ s)"

text \<open>An output is padded to the width, which it uses up; \<open>std::endl\<close> is not formatted.\<close>

definition out :: "string \<Rightarrow> ostream \<Rightarrow> ostream" where
  "out s os = os\<lparr>os_text := os_text os @ pad (os_left os) (os_width os) s, os_width := 0\<rparr>"

definition endl :: "ostream \<Rightarrow> ostream" where
  "endl os = os\<lparr>os_text := os_text os @ [CHR 0x0A]\<rparr>"

definition setw :: "nat \<Rightarrow> ostream \<Rightarrow> ostream" where
  "setw w os = os\<lparr>os_width := w\<rparr>"

definition copyfmt :: "ostream \<Rightarrow> ostream \<Rightarrow> ostream" where
  "copyfmt old os = os\<lparr>os_left := os_left old, os_width := os_width old, os_precision := os_precision old\<rparr>"

fun show_dec :: "nat \<Rightarrow> string" where
  "show_dec n = (if n < 10 then [char_of (48 + n)] else show_dec (n div 10) @ [char_of (48 + n mod 10)])"

declare show_dec.simps [simp del]

definition show_bool :: "bool \<Rightarrow> string" where
  "show_bool b = (if b then ''1'' else ''0'')"

definition show_signed :: "int \<Rightarrow> string" where
  "show_signed i = (if i < 0 then CHR ''-'' # show_dec (nat (- i)) else show_dec (nat i))"

subsection \<open>Headers\<close>

definition RreqHeader_Print :: "'u printer \<Rightarrow> RreqHeader \<Rightarrow> string" where
  "RreqHeader_Print P h =
     ''RREQ ID '' @ show_dec (unat (rq_requestID h)) @ '' destination: ipv4 '' @ show_ipv4 P (rq_dst h)
     @ '' sequence number '' @ show_dec (unat (rq_dstSeqNo h)) @ '' source: ipv4 '' @ show_ipv4 P (rq_origin h)
     @ '' sequence number '' @ show_dec (unat (rq_originSeqNo h)) @ '' flags:''
     @ '' Gratuitous RREP '' @ show_bool (RreqHeader_GetGratuitousRrep h)
     @ '' Destination only '' @ show_bool (RreqHeader_GetDestinationOnly h)
     @ '' Unknown sequence number '' @ show_bool (RreqHeader_GetUnknownSeqno h)"

text \<open>The prefix size is a \<open>uint8_t\<close>: the stream writes it as a character.\<close>

definition RrepHeader_Print :: "'u printer \<Rightarrow> RrepHeader \<Rightarrow> string" where
  "RrepHeader_Print P h =
     ''destination: ipv4 '' @ show_ipv4 P (rp_dst h) @ '' sequence number '' @ show_dec (unat (rp_dstSeqNo h))
     @ (if rp_prefixSize h \<noteq> 0 then '' prefix size '' @ [char_of (unat (rp_prefixSize h))] else [])
     @ '' source ipv4 '' @ show_ipv4 P (rp_origin h) @ '' lifetime '' @ show_dec (unat (rp_lifeTime h))
     @ '' acknowledgment required flag '' @ show_bool (RrepHeader_GetAckRequired h)"

definition RrepAckHeader_Print :: "RrepAckHeader \<Rightarrow> string" where
  "RrepAckHeader_Print h = []"

definition RerrHeader_Print :: "'u printer \<Rightarrow> RerrHeader \<Rightarrow> string" where
  "RerrHeader_Print P h =
     ''Unreachable destination (ipv4 address, seq. number):''
     @ concat (map (\<lambda>(a, q). show_ipv4 P a @ '', '' @ show_dec (unat q)) (re_unreachable h))
     @ ''No delete flag '' @ show_bool (RerrHeader_GetNoDelete h)"

subsection \<open>The tag of deferred packets\<close>

text \<open>A packet carries tags as bytes: the interface asked for is kept there as an unsigned word. The
  order of the bytes is the tag buffer's.\<close>

record DeferredRouteOutputTag =
  m_oif :: s32

definition DeferredRouteOutputTag_new :: "int \<Rightarrow> DeferredRouteOutputTag" where
  "DeferredRouteOutputTag_new i = \<lparr>m_oif = word_of_int i\<rparr>"

definition DeferredRouteOutputTag_GetInterface :: "DeferredRouteOutputTag \<Rightarrow> int" where
  "DeferredRouteOutputTag_GetInterface h = sint (m_oif h)"

definition DeferredRouteOutputTag_SetInterface :: "int \<Rightarrow> DeferredRouteOutputTag \<Rightarrow> DeferredRouteOutputTag" where
  "DeferredRouteOutputTag_SetInterface i h = h\<lparr>m_oif := word_of_int i\<rparr>"

definition DeferredRouteOutputTag_GetSerializedSize :: nat where
  "DeferredRouteOutputTag_GetSerializedSize = 4"

definition DeferredRouteOutputTag_Serialize :: "(u32 \<Rightarrow> u8 list) \<Rightarrow> DeferredRouteOutputTag \<Rightarrow> u8 list" where
  "DeferredRouteOutputTag_Serialize WriteU32 h = WriteU32 (m_oif h)"

definition DeferredRouteOutputTag_Deserialize ::
  "(u8 list \<Rightarrow> u32) \<Rightarrow> u8 list \<Rightarrow> DeferredRouteOutputTag \<Rightarrow> DeferredRouteOutputTag" where
  "DeferredRouteOutputTag_Deserialize ReadU32 i h = h\<lparr>m_oif := ReadU32 i\<rparr>"

definition DeferredRouteOutputTag_Print :: "DeferredRouteOutputTag \<Rightarrow> string" where
  "DeferredRouteOutputTag_Print h =
     ''DeferredRouteOutputTag: output interface = '' @ show_signed (sint (m_oif h))"

text \<open>What is asked of the packet later is what was given to the tag.\<close>

lemma tag_roundtrip:
  assumes "\<And>w. ReadU32 (WriteU32 w) = w" and "- (2 ^ 31) \<le> i" and "i < 2 ^ 31"
  shows "DeferredRouteOutputTag_GetInterface (DeferredRouteOutputTag_Deserialize ReadU32
    (DeferredRouteOutputTag_Serialize WriteU32 (DeferredRouteOutputTag_SetInterface i h)) g) = i"
  using assms by (simp add: DeferredRouteOutputTag_GetInterface_def DeferredRouteOutputTag_Deserialize_def
      DeferredRouteOutputTag_Serialize_def DeferredRouteOutputTag_SetInterface_def sint_sbintrunc' signed_take_bit_int_eq_self)

subsection \<open>The routing table\<close>

text \<open>One line of the table; the columns before the number of hops are 16 characters wide. The format
  of the stream is put back.\<close>

definition RoutingTableEntry_Print :: "'u printer \<Rightarrow> time \<Rightarrow> 'u \<Rightarrow> rte \<Rightarrow> ostream \<Rightarrow> ostream" where
  "RoutingTableEntry_Print P t unit e os =
     (let old = os;
          os = os\<lparr>os_left := True\<rparr>;
          dest = show_ipv4 P (GetDestination e);
          gw = show_ipv4 P (GetNextHop e);
          iface = show_ipv4 P (ia_local (m_iface e));
          expire = show_time P 2 unit (m_lifeTime e - t);
          os = out dest (setw 16 os);
          os = out gw (setw 16 os);
          os = out iface (setw 16 os);
          os = out (case m_flag e of VALID \<Rightarrow> ''UP'' | INVALID \<Rightarrow> ''DOWN'' | IN_SEARCH \<Rightarrow> ''IN_SEARCH'') (setw 16 os);
          os = out expire (setw 16 os);
          os = endl (out (show_dec (unat (m_hops e))) os) in
      copyfmt old os)"

text \<open>The \<open>Purge\<close> of \<open>Print\<close>, for a copy of the entries.\<close>

fun RoutingTable_Purge_copy :: "time \<Rightarrow> time \<Rightarrow> (ipv4, rte) smap \<Rightarrow> (ipv4, rte) smap" where
  "RoutingTable_Purge_copy t bad [] = []"
| "RoutingTable_Purge_copy t bad ((k, e) # i) =
     (if GetLifeTime t e < Seconds 0
      then (if m_flag e = INVALID then RoutingTable_Purge_copy t bad i
            else if m_flag e = VALID then (k, Invalidate t bad e) # RoutingTable_Purge_copy t bad i
            else (k, e) # RoutingTable_Purge_copy t bad i)
      else (k, e) # RoutingTable_Purge_copy t bad i)"

text \<open>The format is copied here as well, but nothing puts it back.\<close>

definition RoutingTable_Print :: "'u printer \<Rightarrow> time \<Rightarrow> 'u \<Rightarrow> rtable \<Rightarrow> ostream \<Rightarrow> ostream" where
  "RoutingTable_Print P t unit T os =
     (let table = RoutingTable_Purge_copy t (m_badLinkLifetime T) (m_ipv4AddressEntry T);
          os = os\<lparr>os_left := True\<rparr>;
          os = out (CHR 0x0A # ''MADAODV Routing table'' @ [CHR 0x0A]) os;
          os = out ''Destination'' (setw 16 os);
          os = out ''Gateway'' (setw 16 os);
          os = out ''Interface'' (setw 16 os);
          os = out ''Flag'' (setw 16 os);
          os = out ''Expire'' (setw 16 os);
          os = endl (out ''Hops'' os);
          os = fold (\<lambda>i. RoutingTableEntry_Print P t unit (snd i)) table os in
      out [CHR 0x0A] os)"

text \<open>The node is found through the IPv4 object, which must be there.\<close>

definition PrintRoutingTable :: "'u printer \<Rightarrow> ns3 \<Rightarrow> 'u \<Rightarrow> rp \<Rightarrow> ostream \<Rightarrow> ostream option" where
  "PrintRoutingTable P E unit s os =
     (if \<not> m_ipv4 s then None
      else let os = out (show_dec (unat (node_id P))) (out ''Node: '' os);
               os = out (show_time P (os_precision os) unit (now E)) (out ''; Time: '' os);
               os = out (show_time P (os_precision os) unit (local_time P)) (out '', Local time: '' os);
               os = endl (out '', MADAODV Routing table'' os) in
           Some (endl (RoutingTable_Print P (now E) unit (m_routingTable s) os)))"

subsection \<open>What the table shows\<close>

definition table_line :: "'u printer \<Rightarrow> time \<Rightarrow> 'u \<Rightarrow> rte \<Rightarrow> string" where
  "table_line P t unit e =
     pad True 16 (show_ipv4 P (GetDestination e)) @ pad True 16 (show_ipv4 P (GetNextHop e))
     @ pad True 16 (show_ipv4 P (ia_local (m_iface e)))
     @ pad True 16 (case m_flag e of VALID \<Rightarrow> ''UP'' | INVALID \<Rightarrow> ''DOWN'' | IN_SEARCH \<Rightarrow> ''IN_SEARCH'')
     @ pad True 16 (show_time P 2 unit (GetLifeTime t e)) @ show_dec (unat (m_hops e)) @ [CHR 0x0A]"

definition table_head :: string where
  "table_head = CHR 0x0A # ''MADAODV Routing table'' @ [CHR 0x0A]
     @ pad True 16 ''Destination'' @ pad True 16 ''Gateway'' @ pad True 16 ''Interface'' @ pad True 16 ''Flag''
     @ pad True 16 ''Expire'' @ ''Hops'' @ [CHR 0x0A]"

lemma Purge_copy_eq: "RoutingTable_Purge_copy t bad m = purge_entries t bad m"
  by (induction t bad m rule: purge_entries.induct) simp_all

lemma pad_0 [simp]: "pad left 0 s = s"
  by (simp add: pad_def)

lemmas stream_defs = out_def endl_def setw_def copyfmt_def

lemma Entry_Print_eq:
  "os_width os = 0 \<Longrightarrow>
   RoutingTableEntry_Print P t unit e os = os\<lparr>os_text := os_text os @ table_line P t unit e\<rparr>"
  by (simp add: RoutingTableEntry_Print_def table_line_def stream_defs Let_def GetLifeTime_def)

lemma entries_Print_eq:
  "os_width os = 0 \<Longrightarrow>
   fold (\<lambda>i. RoutingTableEntry_Print P t unit (snd i)) m os =
     os\<lparr>os_text := os_text os @ concat (map (\<lambda>i. table_line P t unit (snd i)) m)\<rparr>"
  by (induction m arbitrary: os) (simp_all add: Entry_Print_eq)

text \<open>C28: what \<open>RoutingTable::Print\<close> shows is what a lookup at that time would find. The lines are those of
  an ordered map of entries that gives for each address the result of \<open>LookupRoute\<close>, although the table
  itself is not purged; after them the stream is left-adjusted, whatever it was before.\<close>

theorem table_print_shows_lookup:
  assumes "smap_inv (m_ipv4AddressEntry T)" and "os_width os = 0"
  shows "\<exists>m. smap_inv m \<and> (\<forall>k. map_of m k = fst (RoutingTable_LookupRoute t k T))
     \<and> RoutingTable_Print P t unit T os =
         os\<lparr>os_left := True,
            os_text := os_text os @ table_head @ concat (map (\<lambda>(k, e). table_line P t unit e) m) @ [CHR 0x0A]\<rparr>"
proof (intro exI conjI)
  let ?m = "purge_entries t (m_badLinkLifetime T) (m_ipv4AddressEntry T)"
  show "smap_inv ?m" using assms(1) by simp
  show "\<forall>k. map_of ?m k = fst (RoutingTable_LookupRoute t k T)"
    by (simp add: RoutingTable_LookupRoute_def RoutingTable_Purge_def Let_def)
  show "RoutingTable_Print P t unit T os =
      os\<lparr>os_left := True,
         os_text := os_text os @ table_head @ concat (map (\<lambda>(k, e). table_line P t unit e) ?m) @ [CHR 0x0A]\<rparr>"
    using assms(2)
    by (simp add: RoutingTable_Print_def Purge_copy_eq entries_Print_eq table_head_def stream_defs Let_def split_def)
qed

definition example_printer :: "unit printer" where
  "example_printer = \<lparr>show_ipv4 = (\<lambda>a. show_dec (unat a)), show_time = (\<lambda>n u t. show_signed t),
     node_id = 0, local_time = 0\<rparr>"

definition example_stream :: ostream where
  "example_stream = \<lparr>os_text = [], os_left = False, os_width = 0, os_precision = 6\<rparr>"

text \<open>The route to 3 has expired and is shown as down.\<close>

theorem table_print_shows_lookup_witness:
  "os_text (RoutingTable_Print example_printer 20 () example_table example_stream) =
     table_head @ table_line example_printer 20 () (Invalidate 20 15 (example_rte 3 5 10))
     @ table_line example_printer 20 () (example_rte 4 6 90) @ [CHR 0x0A]
   \<and> os_left (RoutingTable_Print example_printer 20 () example_table example_stream)"
proof -
  from table_print_shows_lookup [of example_table example_stream 20 example_printer "()"]
  obtain m where m: "smap_inv m" "\<forall>k. map_of m k = fst (RoutingTable_LookupRoute 20 k example_table)"
    and print: "RoutingTable_Print example_printer 20 () example_table example_stream =
         example_stream\<lparr>os_left := True, os_text := os_text example_stream @ table_head
           @ concat (map (\<lambda>(k, e). table_line example_printer 20 () e) m) @ [CHR 0x0A]\<rparr>"
    by (auto simp: example_stream_def)
  have "m = purge_entries 20 15 (m_ipv4AddressEntry example_table)"
    using m by (intro smap_ext) (simp_all add: RoutingTable_LookupRoute_def RoutingTable_Purge_def Let_def)
  then have "m = [(3, Invalidate 20 15 (example_rte 3 5 10)), (4, example_rte 4 6 90)]"
    by (simp add: example_table_def example_rte_def RoutingTableEntry_new_def GetLifeTime_def)
  with print show ?thesis by (simp add: example_stream_def)
qed

end
