(* ===== verification/Accessors.thy ===== *)
theory Accessors
  imports Packet_Props Routing_Table Request_Queue Id_Cache Protocol_State
begin

text \<open>
  The accessors of the classes: one getter and one setter for most members. Elsewhere the model reads
  and writes the members of a record directly; here every accessor has its definition and meets the
  laws of a member, the locales \<open>weak_member\<close>, \<open>member\<close> and \<open>separate_members\<close> (two members that share
  the place they are kept in, as the flags of a header do).
\<close>

subsection \<open>The laws of a member\<close>

locale weak_member =
  fixes get :: "'s \<Rightarrow> 'a" and put :: "'a \<Rightarrow> 's \<Rightarrow> 's"
  assumes get_put: "get (put v s) = v"
begin

lemma put_inj: "put v s = put w t \<Longrightarrow> v = w"
  by (metis get_put)

end

locale member = weak_member +
  assumes put_get: "put (get s) s = s"
    and put_put: "put v (put w s) = put v s"
begin

lemma put_fixed: "put v s = s \<longleftrightarrow> v = get s"
  using put_get [of s] get_put [of v s] by auto

text \<open>Two objects that agree but for the member are equal once it is written.\<close>

lemma put_cong: "put v s = put v t \<Longrightarrow> put w s = put w t"
  using put_put [of w v s] put_put [of w v t] by simp

end

locale separate_members = one: member get1 put1 + two: member get2 put2
  for get1 :: "'s \<Rightarrow> 'a" and put1 and get2 :: "'s \<Rightarrow> 'b" and put2 +
  assumes commute: "put1 v (put2 w s) = put2 w (put1 v s)"
begin

lemma first_kept: "get1 (put2 w s) = get1 s"
proof -
  have "put2 w s = put1 (get1 s) (put2 w s)" by (simp add: commute one.put_get)
  then show ?thesis using one.get_put by metis
qed

lemma second_kept: "get2 (put1 v s) = get2 s"
proof -
  have "put1 v s = put2 (get2 s) (put1 v s)" by (simp flip: commute add: two.put_get)
  then show ?thesis using two.get_put by metis
qed

text \<open>Writing both determines the object up to the rest of it, whatever the order and however often.\<close>

lemma both_written: "get1 (put1 v (put2 w s)) = v \<and> get2 (put1 v (put2 w s)) = w"
  by (simp add: second_kept one.get_put two.get_put)

end

subsection \<open>Headers\<close>

definition TypeHeader_Get :: "TypeHeader \<Rightarrow> MessageType" where
  "TypeHeader_Get h = th_type h"

definition TypeHeader_IsValid :: "TypeHeader \<Rightarrow> bool" where
  "TypeHeader_IsValid h = th_valid h"

definition RreqHeader_GetHopCount :: "RreqHeader \<Rightarrow> u8" where
  "RreqHeader_GetHopCount h = rq_hopCount h"

definition RreqHeader_SetHopCount :: "u8 \<Rightarrow> RreqHeader \<Rightarrow> RreqHeader" where
  "RreqHeader_SetHopCount x h = h\<lparr>rq_hopCount := x\<rparr>"

definition RreqHeader_GetId :: "RreqHeader \<Rightarrow> u32" where
  "RreqHeader_GetId h = rq_requestID h"

definition RreqHeader_SetId :: "u32 \<Rightarrow> RreqHeader \<Rightarrow> RreqHeader" where
  "RreqHeader_SetId x h = h\<lparr>rq_requestID := x\<rparr>"

definition RreqHeader_GetDst :: "RreqHeader \<Rightarrow> ipv4" where
  "RreqHeader_GetDst h = rq_dst h"

definition RreqHeader_SetDst :: "ipv4 \<Rightarrow> RreqHeader \<Rightarrow> RreqHeader" where
  "RreqHeader_SetDst x h = h\<lparr>rq_dst := x\<rparr>"

definition RreqHeader_GetDstSeqno :: "RreqHeader \<Rightarrow> u32" where
  "RreqHeader_GetDstSeqno h = rq_dstSeqNo h"

definition RreqHeader_SetDstSeqno :: "u32 \<Rightarrow> RreqHeader \<Rightarrow> RreqHeader" where
  "RreqHeader_SetDstSeqno x h = h\<lparr>rq_dstSeqNo := x\<rparr>"

definition RreqHeader_GetOrigin :: "RreqHeader \<Rightarrow> ipv4" where
  "RreqHeader_GetOrigin h = rq_origin h"

definition RreqHeader_SetOrigin :: "ipv4 \<Rightarrow> RreqHeader \<Rightarrow> RreqHeader" where
  "RreqHeader_SetOrigin x h = h\<lparr>rq_origin := x\<rparr>"

definition RreqHeader_GetOriginSeqno :: "RreqHeader \<Rightarrow> u32" where
  "RreqHeader_GetOriginSeqno h = rq_originSeqNo h"

definition RreqHeader_SetOriginSeqno :: "u32 \<Rightarrow> RreqHeader \<Rightarrow> RreqHeader" where
  "RreqHeader_SetOriginSeqno x h = h\<lparr>rq_originSeqNo := x\<rparr>"

interpretation rreq_hopcount: member RreqHeader_GetHopCount RreqHeader_SetHopCount
  by unfold_locales (simp_all add: RreqHeader_GetHopCount_def RreqHeader_SetHopCount_def)

interpretation rreq_id: member RreqHeader_GetId RreqHeader_SetId
  by unfold_locales (simp_all add: RreqHeader_GetId_def RreqHeader_SetId_def)

interpretation rreq_dst: member RreqHeader_GetDst RreqHeader_SetDst
  by unfold_locales (simp_all add: RreqHeader_GetDst_def RreqHeader_SetDst_def)

interpretation rreq_dstseqno: member RreqHeader_GetDstSeqno RreqHeader_SetDstSeqno
  by unfold_locales (simp_all add: RreqHeader_GetDstSeqno_def RreqHeader_SetDstSeqno_def)

interpretation rreq_origin: member RreqHeader_GetOrigin RreqHeader_SetOrigin
  by unfold_locales (simp_all add: RreqHeader_GetOrigin_def RreqHeader_SetOrigin_def)

interpretation rreq_originseqno: member RreqHeader_GetOriginSeqno RreqHeader_SetOriginSeqno
  by unfold_locales (simp_all add: RreqHeader_GetOriginSeqno_def RreqHeader_SetOriginSeqno_def)

definition RrepHeader_GetHopCount :: "RrepHeader \<Rightarrow> u8" where
  "RrepHeader_GetHopCount h = rp_hopCount h"

definition RrepHeader_SetHopCount :: "u8 \<Rightarrow> RrepHeader \<Rightarrow> RrepHeader" where
  "RrepHeader_SetHopCount x h = h\<lparr>rp_hopCount := x\<rparr>"

definition RrepHeader_GetDst :: "RrepHeader \<Rightarrow> ipv4" where
  "RrepHeader_GetDst h = rp_dst h"

definition RrepHeader_SetDst :: "ipv4 \<Rightarrow> RrepHeader \<Rightarrow> RrepHeader" where
  "RrepHeader_SetDst x h = h\<lparr>rp_dst := x\<rparr>"

definition RrepHeader_GetDstSeqno :: "RrepHeader \<Rightarrow> u32" where
  "RrepHeader_GetDstSeqno h = rp_dstSeqNo h"

definition RrepHeader_SetDstSeqno :: "u32 \<Rightarrow> RrepHeader \<Rightarrow> RrepHeader" where
  "RrepHeader_SetDstSeqno x h = h\<lparr>rp_dstSeqNo := x\<rparr>"

definition RrepHeader_GetOrigin :: "RrepHeader \<Rightarrow> ipv4" where
  "RrepHeader_GetOrigin h = rp_origin h"

definition RrepHeader_SetOrigin :: "ipv4 \<Rightarrow> RrepHeader \<Rightarrow> RrepHeader" where
  "RrepHeader_SetOrigin x h = h\<lparr>rp_origin := x\<rparr>"

definition RrepHeader_GetPrefixSize :: "RrepHeader \<Rightarrow> u8" where
  "RrepHeader_GetPrefixSize h = rp_prefixSize h"

definition RrepHeader_SetPrefixSize :: "u8 \<Rightarrow> RrepHeader \<Rightarrow> RrepHeader" where
  "RrepHeader_SetPrefixSize x h = h\<lparr>rp_prefixSize := x\<rparr>"

interpretation rrep_hopcount: member RrepHeader_GetHopCount RrepHeader_SetHopCount
  by unfold_locales (simp_all add: RrepHeader_GetHopCount_def RrepHeader_SetHopCount_def)

interpretation rrep_dst: member RrepHeader_GetDst RrepHeader_SetDst
  by unfold_locales (simp_all add: RrepHeader_GetDst_def RrepHeader_SetDst_def)

interpretation rrep_dstseqno: member RrepHeader_GetDstSeqno RrepHeader_SetDstSeqno
  by unfold_locales (simp_all add: RrepHeader_GetDstSeqno_def RrepHeader_SetDstSeqno_def)

interpretation rrep_origin: member RrepHeader_GetOrigin RrepHeader_SetOrigin
  by unfold_locales (simp_all add: RrepHeader_GetOrigin_def RrepHeader_SetOrigin_def)

interpretation rrep_prefixsize: member RrepHeader_GetPrefixSize RrepHeader_SetPrefixSize
  by unfold_locales (simp_all add: RrepHeader_GetPrefixSize_def RrepHeader_SetPrefixSize_def)

lemmas rreq_accessors =
  RreqHeader_GetHopCount_def RreqHeader_SetHopCount_def RreqHeader_GetId_def RreqHeader_SetId_def
  RreqHeader_GetDst_def RreqHeader_SetDst_def RreqHeader_GetDstSeqno_def RreqHeader_SetDstSeqno_def
  RreqHeader_GetOrigin_def RreqHeader_SetOrigin_def RreqHeader_GetOriginSeqno_def RreqHeader_SetOriginSeqno_def

lemmas rrep_accessors =
  RrepHeader_GetHopCount_def RrepHeader_SetHopCount_def RrepHeader_GetDst_def RrepHeader_SetDst_def
  RrepHeader_GetDstSeqno_def RrepHeader_SetDstSeqno_def RrepHeader_GetOrigin_def RrepHeader_SetOrigin_def
  RrepHeader_GetPrefixSize_def RrepHeader_SetPrefixSize_def

text \<open>The flags: single bits of one octet.\<close>

lemma set_get_flag: "n < 8 \<Longrightarrow> set_flag n (get_flag n w) w = w"
  by (rule bit_word_eqI) (auto simp: get_flag_bit set_flag_def bit_or_iff bit_and_iff bit_not_iff bit_exp_iff)

lemma set_set_flag: "set_flag n f (set_flag n g w) = set_flag n f w"
  by (rule bit_word_eqI) (auto simp: set_flag_def bit_or_iff bit_and_iff bit_not_iff bit_exp_iff)

lemma set_flag_commute: "n \<noteq> m \<Longrightarrow> set_flag n f (set_flag m g w) = set_flag m g (set_flag n f w)"
  by (rule bit_word_eqI) (auto simp: set_flag_def bit_or_iff bit_and_iff bit_not_iff bit_exp_iff)

lemmas flag_laws = flag_defs get_set_flag set_get_flag set_set_flag

interpretation gratuitous_destination_only: separate_members RreqHeader_GetGratuitousRrep RreqHeader_SetGratuitousRrep
    RreqHeader_GetDestinationOnly RreqHeader_SetDestinationOnly
  by unfold_locales (simp_all add: flag_laws set_flag_commute)

interpretation gratuitous_unknown: separate_members RreqHeader_GetGratuitousRrep RreqHeader_SetGratuitousRrep
    RreqHeader_GetUnknownSeqno RreqHeader_SetUnknownSeqno
  by unfold_locales (simp_all add: flag_laws set_flag_commute)

interpretation destination_only_unknown: separate_members RreqHeader_GetDestinationOnly RreqHeader_SetDestinationOnly
    RreqHeader_GetUnknownSeqno RreqHeader_SetUnknownSeqno
  by unfold_locales (simp_all add: flag_laws set_flag_commute)

interpretation ack_required: member RrepHeader_GetAckRequired RrepHeader_SetAckRequired
  by unfold_locales (simp_all add: flag_laws)

interpretation no_delete: member RerrHeader_GetNoDelete RerrHeader_SetNoDelete
  by unfold_locales (simp_all add: flag_laws)

subsection \<open>Routing table\<close>

definition GetRoute :: "rte \<Rightarrow> ipv4_route" where
  "GetRoute e = m_ipv4Route e"

definition SetRoute :: "ipv4_route \<Rightarrow> rte \<Rightarrow> rte" where
  "SetRoute x e = e\<lparr>m_ipv4Route := x\<rparr>"

definition GetInterface :: "rte \<Rightarrow> iface" where
  "GetInterface e = m_iface e"

definition SetInterface :: "iface \<Rightarrow> rte \<Rightarrow> rte" where
  "SetInterface x e = e\<lparr>m_iface := x\<rparr>"

definition GetValidSeqNo :: "rte \<Rightarrow> bool" where
  "GetValidSeqNo e = m_validSeqNo e"

definition SetValidSeqNo :: "bool \<Rightarrow> rte \<Rightarrow> rte" where
  "SetValidSeqNo x e = e\<lparr>m_validSeqNo := x\<rparr>"

definition GetSeqNo :: "rte \<Rightarrow> u32" where
  "GetSeqNo e = m_seqNo e"

definition SetSeqNo :: "u32 \<Rightarrow> rte \<Rightarrow> rte" where
  "SetSeqNo x e = e\<lparr>m_seqNo := x\<rparr>"

definition GetHop :: "rte \<Rightarrow> u16" where
  "GetHop e = m_hops e"

definition SetHop :: "u16 \<Rightarrow> rte \<Rightarrow> rte" where
  "SetHop x e = e\<lparr>m_hops := x\<rparr>"

definition GetFlag :: "rte \<Rightarrow> RouteFlags" where
  "GetFlag e = m_flag e"

definition SetFlag :: "RouteFlags \<Rightarrow> rte \<Rightarrow> rte" where
  "SetFlag x e = e\<lparr>m_flag := x\<rparr>"

definition GetRreqCnt :: "rte \<Rightarrow> u8" where
  "GetRreqCnt e = m_reqCount e"

definition SetRreqCnt :: "u8 \<Rightarrow> rte \<Rightarrow> rte" where
  "SetRreqCnt x e = e\<lparr>m_reqCount := x\<rparr>"

definition IsUnidirectional :: "rte \<Rightarrow> bool" where
  "IsUnidirectional e = m_blackListState e"

definition SetUnidirectional :: "bool \<Rightarrow> rte \<Rightarrow> rte" where
  "SetUnidirectional x e = e\<lparr>m_blackListState := x\<rparr>"

definition GetBlacklistTimeout :: "rte \<Rightarrow> time" where
  "GetBlacklistTimeout e = m_blackListTimeout e"

definition SetBlacklistTimeout :: "time \<Rightarrow> rte \<Rightarrow> rte" where
  "SetBlacklistTimeout x e = e\<lparr>m_blackListTimeout := x\<rparr>"

interpretation rte_route: member GetRoute SetRoute
  by unfold_locales (simp_all add: GetRoute_def SetRoute_def)

interpretation rte_interface: member GetInterface SetInterface
  by unfold_locales (simp_all add: GetInterface_def SetInterface_def)

interpretation rte_validseqno: member GetValidSeqNo SetValidSeqNo
  by unfold_locales (simp_all add: GetValidSeqNo_def SetValidSeqNo_def)

interpretation rte_seqno: member GetSeqNo SetSeqNo
  by unfold_locales (simp_all add: GetSeqNo_def SetSeqNo_def)

interpretation rte_hop: member GetHop SetHop
  by unfold_locales (simp_all add: GetHop_def SetHop_def)

interpretation rte_flag: member GetFlag SetFlag
  by unfold_locales (simp_all add: GetFlag_def SetFlag_def)

interpretation rte_rreqcnt: member GetRreqCnt SetRreqCnt
  by unfold_locales (simp_all add: GetRreqCnt_def SetRreqCnt_def)

interpretation rte_unidirectional: member IsUnidirectional SetUnidirectional
  by unfold_locales (simp_all add: IsUnidirectional_def SetUnidirectional_def)

interpretation rte_blacklisttimeout: member GetBlacklistTimeout SetBlacklistTimeout
  by unfold_locales (simp_all add: GetBlacklistTimeout_def SetBlacklistTimeout_def)

text \<open>The lifetime is set and read relative to the clock, and the next hop and the device are kept in
  the route.\<close>

interpretation rte_lifetime: member "GetLifeTime t" "SetLifeTime t"
  by unfold_locales (simp_all add: GetLifeTime_def SetLifeTime_def)

interpretation next_hop_and_device: separate_members "\<lambda>e. GetNextHop e" SetNextHop "\<lambda>e. GetOutputDevice e" SetOutputDevice
  by unfold_locales (simp_all add: SetNextHop_def SetOutputDevice_def)

definition RoutingTableEntry_eq :: "rte \<Rightarrow> ipv4 \<Rightarrow> bool" where
  "RoutingTableEntry_eq e dst = (GetDestination e = dst)"

definition RoutingTable_GetBadLinkLifetime :: "rtable \<Rightarrow> time" where
  "RoutingTable_GetBadLinkLifetime T = m_badLinkLifetime T"

definition RoutingTable_SetBadLinkLifetime :: "time \<Rightarrow> rtable \<Rightarrow> rtable" where
  "RoutingTable_SetBadLinkLifetime x T = T\<lparr>m_badLinkLifetime := x\<rparr>"

interpretation bad_link_lifetime: member RoutingTable_GetBadLinkLifetime RoutingTable_SetBadLinkLifetime
  by unfold_locales (simp_all add: RoutingTable_GetBadLinkLifetime_def RoutingTable_SetBadLinkLifetime_def)

subsection \<open>Queue and caches\<close>

definition QueueEntry_GetUnicastForwardCallback :: "queue_entry \<Rightarrow> callback" where
  "QueueEntry_GetUnicastForwardCallback en = qe_ucb en"

definition QueueEntry_SetUnicastForwardCallback :: "callback \<Rightarrow> queue_entry \<Rightarrow> queue_entry" where
  "QueueEntry_SetUnicastForwardCallback x en = en\<lparr>qe_ucb := x\<rparr>"

definition QueueEntry_GetErrorCallback :: "queue_entry \<Rightarrow> callback" where
  "QueueEntry_GetErrorCallback en = qe_ecb en"

definition QueueEntry_SetErrorCallback :: "callback \<Rightarrow> queue_entry \<Rightarrow> queue_entry" where
  "QueueEntry_SetErrorCallback x en = en\<lparr>qe_ecb := x\<rparr>"

definition QueueEntry_GetPacket :: "queue_entry \<Rightarrow> packet" where
  "QueueEntry_GetPacket en = qe_packet en"

definition QueueEntry_SetPacket :: "packet \<Rightarrow> queue_entry \<Rightarrow> queue_entry" where
  "QueueEntry_SetPacket x en = en\<lparr>qe_packet := x\<rparr>"

definition QueueEntry_GetIpv4Header :: "queue_entry \<Rightarrow> ipv4_header" where
  "QueueEntry_GetIpv4Header en = qe_header en"

definition QueueEntry_SetIpv4Header :: "ipv4_header \<Rightarrow> queue_entry \<Rightarrow> queue_entry" where
  "QueueEntry_SetIpv4Header x en = en\<lparr>qe_header := x\<rparr>"

interpretation qe_unicastforwardcallback: member QueueEntry_GetUnicastForwardCallback QueueEntry_SetUnicastForwardCallback
  by unfold_locales (simp_all add: QueueEntry_GetUnicastForwardCallback_def QueueEntry_SetUnicastForwardCallback_def)

interpretation qe_errorcallback: member QueueEntry_GetErrorCallback QueueEntry_SetErrorCallback
  by unfold_locales (simp_all add: QueueEntry_GetErrorCallback_def QueueEntry_SetErrorCallback_def)

interpretation qe_packet: member QueueEntry_GetPacket QueueEntry_SetPacket
  by unfold_locales (simp_all add: QueueEntry_GetPacket_def QueueEntry_SetPacket_def)

interpretation qe_ipv4header: member QueueEntry_GetIpv4Header QueueEntry_SetIpv4Header
  by unfold_locales (simp_all add: QueueEntry_GetIpv4Header_def QueueEntry_SetIpv4Header_def)

interpretation qe_expiretime: member "QueueEntry_GetExpireTime t" "QueueEntry_SetExpireTime t"
  by unfold_locales (simp_all add: QueueEntry_GetExpireTime_def QueueEntry_SetExpireTime_def)

definition RequestQueue_GetMaxQueueLen :: "request_queue \<Rightarrow> u32" where
  "RequestQueue_GetMaxQueueLen q = m_maxLen q"

definition RequestQueue_GetQueueTimeout :: "request_queue \<Rightarrow> time" where
  "RequestQueue_GetQueueTimeout q = m_queueTimeout q"

definition IdCache_GetLifeTime :: "id_cache \<Rightarrow> time" where
  "IdCache_GetLifeTime c = m_lifetime c"

interpretation max_queue_len: member RequestQueue_GetMaxQueueLen RequestQueue_SetMaxQueueLen
  by unfold_locales (simp_all add: RequestQueue_GetMaxQueueLen_def RequestQueue_SetMaxQueueLen_def)

interpretation queue_timeout: member RequestQueue_GetQueueTimeout RequestQueue_SetQueueTimeout
  by unfold_locales (simp_all add: RequestQueue_GetQueueTimeout_def RequestQueue_SetQueueTimeout_def)

interpretation id_lifetime: member IdCache_GetLifeTime IdCache_SetLifetime
  by unfold_locales (simp_all add: IdCache_GetLifeTime_def IdCache_SetLifetime_def)

interpretation dpd_lifetime: member Dpd_GetLifetime Dpd_SetLifetime
  by unfold_locales (simp_all add: Dpd_GetLifetime_def Dpd_SetLifetime_def IdCache_SetLifetime_def)

subsection \<open>Attributes of the agent\<close>

definition GetMaxQueueTime :: "rp \<Rightarrow> time" where
  "GetMaxQueueTime s = m_maxQueueTime (par s)"

definition GetMaxQueueLen :: "rp \<Rightarrow> u32" where
  "GetMaxQueueLen s = m_maxQueueLen (par s)"

definition GetDestinationOnlyFlag :: "rp \<Rightarrow> bool" where
  "GetDestinationOnlyFlag s = m_destinationOnly (par s)"

definition GetGratuitousReplyFlag :: "rp \<Rightarrow> bool" where
  "GetGratuitousReplyFlag s = m_gratuitousReply (par s)"

definition GetHelloEnable :: "rp \<Rightarrow> bool" where
  "GetHelloEnable s = m_enableHello (par s)"

definition GetBroadcastEnable :: "rp \<Rightarrow> bool" where
  "GetBroadcastEnable s = m_enableBroadcast (par s)"

interpretation destination_only_flag: member GetDestinationOnlyFlag SetDestinationOnlyFlag
  by unfold_locales (simp_all add: GetDestinationOnlyFlag_def SetDestinationOnlyFlag_def)

interpretation gratuitous_reply_flag: member GetGratuitousReplyFlag SetGratuitousReplyFlag
  by unfold_locales (simp_all add: GetGratuitousReplyFlag_def SetGratuitousReplyFlag_def)

interpretation hello_enable: member GetHelloEnable SetHelloEnable
  by unfold_locales (simp_all add: GetHelloEnable_def SetHelloEnable_def)

interpretation broadcast_enable: member GetBroadcastEnable SetBroadcastEnable
  by unfold_locales (simp_all add: GetBroadcastEnable_def SetBroadcastEnable_def)

text \<open>The queue's limits are kept twice, in the agent and in its queue: writing one writes both, so that
  writing back what was read changes nothing only while the two agree.\<close>

interpretation agent_queue_len: weak_member GetMaxQueueLen SetMaxQueueLen
  by unfold_locales (simp add: GetMaxQueueLen_def SetMaxQueueLen_def)

interpretation agent_queue_time: weak_member GetMaxQueueTime SetMaxQueueTime
  by unfold_locales (simp add: GetMaxQueueTime_def SetMaxQueueTime_def)

lemma queue_limits_written_back:
  "SetMaxQueueLen (GetMaxQueueLen s) s = s \<longleftrightarrow> RequestQueue_GetMaxQueueLen (rp_queue s) = GetMaxQueueLen s"
  "SetMaxQueueTime (GetMaxQueueTime s) s = s \<longleftrightarrow> RequestQueue_GetQueueTimeout (rp_queue s) = GetMaxQueueTime s"
proof -
  have rp: "s\<lparr>rp_queue := q\<rparr> = s \<longleftrightarrow> q = rp_queue s" for q by (cases s) simp
  show "SetMaxQueueLen (GetMaxQueueLen s) s = s \<longleftrightarrow> RequestQueue_GetMaxQueueLen (rp_queue s) = GetMaxQueueLen s"
    using max_queue_len.put_fixed [of "GetMaxQueueLen s" "rp_queue s"]
    by (auto simp: SetMaxQueueLen_def rp GetMaxQueueLen_def)
  show "SetMaxQueueTime (GetMaxQueueTime s) s = s \<longleftrightarrow> RequestQueue_GetQueueTimeout (rp_queue s) = GetMaxQueueTime s"
    using queue_timeout.put_fixed [of "GetMaxQueueTime s" "rp_queue s"]
    by (auto simp: SetMaxQueueTime_def rp GetMaxQueueTime_def)
qed

subsection \<open>What is set is what arrives\<close>

text \<open>C34: whatever a sender sets in a RREQ with the accessors, the receiver reads with them: a header on
  which every setter was called, in any state before, goes out behind its type octet, and the receiver,
  whose byte order is the sender's, finds in the header it takes off the packet each of the nine values.
  The three flags share an octet, so that setting one must leave the others.\<close>

theorem request_fields_received:
  assumes "codec_ok C"
    and "h = RreqHeader_SetGratuitousRrep gratuitous (RreqHeader_SetDestinationOnly only
      (RreqHeader_SetUnknownSeqno unknown (RreqHeader_SetHopCount hops (RreqHeader_SetId i
      (RreqHeader_SetDst dst (RreqHeader_SetDstSeqno dseq (RreqHeader_SetOrigin origin
      (RreqHeader_SetOriginSeqno oseq h0))))))))"
  shows "\<exists>g. (do {
           (t, bs) \<leftarrow> TypeHeader_Deserialize t0
              (TypeHeader_Serialize (TypeHeader_new MADAODVTYPE_RREQ) @ RreqHeader_Serialize C h @ rest);
           (h', bs) \<leftarrow> RreqHeader_Deserialize C bs;
           Some (TypeHeader_IsValid t, TypeHeader_Get t, h', bs)
         }) = Some (True, MADAODVTYPE_RREQ, g, rest)
     \<and> RreqHeader_GetGratuitousRrep g = gratuitous \<and> RreqHeader_GetDestinationOnly g = only
     \<and> RreqHeader_GetUnknownSeqno g = unknown \<and> RreqHeader_GetHopCount g = hops \<and> RreqHeader_GetId g = i
     \<and> RreqHeader_GetDst g = dst \<and> RreqHeader_GetDstSeqno g = dseq \<and> RreqHeader_GetOrigin g = origin
     \<and> RreqHeader_GetOriginSeqno g = oseq"
proof (intro exI [of _ h] conjI)
  show "(do {
      (t, bs) \<leftarrow> TypeHeader_Deserialize t0
         (TypeHeader_Serialize (TypeHeader_new MADAODVTYPE_RREQ) @ RreqHeader_Serialize C h @ rest);
      (h', bs) \<leftarrow> RreqHeader_Deserialize C bs;
      Some (TypeHeader_IsValid t, TypeHeader_Get t, h', bs)
    }) = Some (True, MADAODVTYPE_RREQ, h, rest)"
    by (simp add: type_des_ser byte_order.rreq_des_ser [OF byte_orderI [OF assms(1)]] TypeHeader_IsValid_def
        TypeHeader_Get_def TypeHeader_new_def)
qed (simp_all add: assms(2) flag_laws rreq_accessors)

definition accessor_example :: RreqHeader where
  "accessor_example = RreqHeader_SetGratuitousRrep True (RreqHeader_SetDestinationOnly False
      (RreqHeader_SetUnknownSeqno True (RreqHeader_SetHopCount 7 (RreqHeader_SetId 55
      (RreqHeader_SetDst (ip4 1 1 1 1) (RreqHeader_SetDstSeqno 5 (RreqHeader_SetOrigin (ip4 4 4 4 4)
      (RreqHeader_SetOriginSeqno 23 example_rreq))))))))"

theorem request_fields_received_witness:
  "\<exists>g. (do {
      (t, bs) \<leftarrow> TypeHeader_Deserialize (TypeHeader_new MADAODVTYPE_RERR)
         (TypeHeader_Serialize (TypeHeader_new MADAODVTYPE_RREQ) @ RreqHeader_Serialize be_codec accessor_example @ [9]);
      (h', bs) \<leftarrow> RreqHeader_Deserialize be_codec bs;
      Some (TypeHeader_IsValid t, TypeHeader_Get t, h', bs)
    }) = Some (True, MADAODVTYPE_RREQ, g, [9])
    \<and> RreqHeader_GetGratuitousRrep g \<and> \<not> RreqHeader_GetDestinationOnly g \<and> RreqHeader_GetUnknownSeqno g
    \<and> RreqHeader_GetHopCount g = 7"
  using request_fields_received [OF be_codec_ok accessor_example_def, of "TypeHeader_new MADAODVTYPE_RERR" "[9]"]
  by blast

end
