(* ===== verification/Unit_Tests.thy ===== *)
theory Unit_Tests
  imports Accessors Neighbor_List
begin

text \<open>
  The unit tests of the repository, replayed on the model. A test is its \<open>DoRun\<close> with the functions it
  schedules, in the order in which the simulator calls them; an \<open>NS_TEST_EXPECT_MSG_EQ\<close> is an \<open>expect\<close>,
  which ends the test with \<open>None\<close> when the two values differ. So a test passes when its value is not
  \<open>None\<close>: every expectation was met, and no operation of the model stopped.
\<close>

definition expect :: "'a \<Rightarrow> 'a \<Rightarrow> unit option" where
  "expect actual limit = (if actual = limit then Some () else None)"

lemma expect_True [simp]: "expect x x = Some ()"
  by (simp add: expect_def)

text \<open>For evaluation: the rest of a test is looked at only when the calls before it have a value.\<close>

lemma bind_weak_cong: "m = n \<Longrightarrow> Option.bind m f = Option.bind n f"
  by simp

subsection \<open>test/madaodv-test-suite.cc: the neighbour list\<close>

text \<open>\<open>NeighborTest::Handler\<close> does nothing. The clock of a call is its first argument.\<close>

definition NeighborTest_Handler :: "unit link_failure" where
  "NeighborTest_Handler = Some (\<lambda>addr s. Some s)"

definition expect_neighbor :: "time \<Rightarrow> ipv4 \<Rightarrow> bool \<Rightarrow> neighbors \<Rightarrow> neighbors option" where
  "expect_neighbor t addr b nb = do {
     (r, nb, _) \<leftarrow> Neighbors_IsNeighbor t NeighborTest_Handler addr nb ();
     _ \<leftarrow> expect r b;
     Some nb
   }"

definition expect_expire :: "time \<Rightarrow> ipv4 \<Rightarrow> time \<Rightarrow> neighbors \<Rightarrow> neighbors option" where
  "expect_expire t addr x nb = do {
     (r, nb, _) \<leftarrow> Neighbors_GetExpireTime t NeighborTest_Handler addr nb ();
     _ \<leftarrow> expect r x;
     Some nb
   }"

definition update_neighbor :: "ns3 \<Rightarrow> ipv4 \<Rightarrow> time \<Rightarrow> neighbors \<Rightarrow> neighbors option" where
  "update_neighbor E addr x nb = map_option fst (Neighbors_Update E NeighborTest_Handler addr x nb ())"

text \<open>The expiries of the list's own timer, which calls \<open>Purge\<close> every second.\<close>

definition timer_purges :: "nat list \<Rightarrow> neighbors \<Rightarrow> neighbors option" where
  "timer_purges ts nb =
     foldM (\<lambda>t nb. map_option fst (Neighbors_Purge (Seconds (int t)) NeighborTest_Handler nb ())) ts nb"

definition NeighborTest_CheckTimeout1 :: "time \<Rightarrow> neighbors \<Rightarrow> neighbors option" where
  "NeighborTest_CheckTimeout1 t nb = do {
     nb \<leftarrow> expect_neighbor t (ip4 1 2 3 4) True nb;
     nb \<leftarrow> expect_neighbor t (ip4 1 1 1 1) True nb;
     nb \<leftarrow> expect_neighbor t (ip4 2 2 2 2) True nb;
     expect_neighbor t (ip4 3 3 3 3) True nb
   }"

definition NeighborTest_CheckTimeout2 :: "time \<Rightarrow> neighbors \<Rightarrow> neighbors option" where
  "NeighborTest_CheckTimeout2 t nb = do {
     nb \<leftarrow> expect_neighbor t (ip4 1 2 3 4) False nb;
     nb \<leftarrow> expect_neighbor t (ip4 1 1 1 1) False nb;
     nb \<leftarrow> expect_neighbor t (ip4 2 2 2 2) False nb;
     expect_neighbor t (ip4 3 3 3 3) True nb
   }"

definition NeighborTest_CheckTimeout3 :: "time \<Rightarrow> neighbors \<Rightarrow> neighbors option" where
  "NeighborTest_CheckTimeout3 t nb = do {
     nb \<leftarrow> expect_neighbor t (ip4 1 2 3 4) False nb;
     nb \<leftarrow> expect_neighbor t (ip4 1 1 1 1) False nb;
     nb \<leftarrow> expect_neighbor t (ip4 2 2 2 2) False nb;
     expect_neighbor t (ip4 3 3 3 3) False nb
   }"

text \<open>All of \<open>DoRun\<close> happens at time 0. Every call that purges a list that is not empty starts the timer
  anew; the expiry at 2 s is undone by the check at 2 s, which was scheduled first. At 21 s the last
  neighbour is removed, and the expiry at 22 s, of an empty list, starts the timer no more.\<close>

definition NeighborTest_DoRun :: "ns3 \<Rightarrow> neighbors option" where
  "NeighborTest_DoRun E = do {
     let E = E\<lparr>now := 0\<rparr>;
     nb \<leftarrow> update_neighbor E (ip4 1 2 3 4) (Seconds 1) (Neighbors_new (Seconds 1));
     nb \<leftarrow> expect_neighbor 0 (ip4 1 2 3 4) True nb;
     nb \<leftarrow> expect_neighbor 0 (ip4 4 3 2 1) False nb;
     nb \<leftarrow> update_neighbor E (ip4 1 2 3 4) (Seconds 10) nb;
     nb \<leftarrow> expect_neighbor 0 (ip4 1 2 3 4) True nb;
     nb \<leftarrow> expect_expire 0 (ip4 1 2 3 4) (Seconds 10) nb;
     nb \<leftarrow> expect_expire 0 (ip4 4 3 2 1) (Seconds 0) nb;
     nb \<leftarrow> update_neighbor E (ip4 1 1 1 1) (Seconds 5) nb;
     nb \<leftarrow> update_neighbor E (ip4 2 2 2 2) (Seconds 10) nb;
     nb \<leftarrow> update_neighbor E (ip4 3 3 3 3) (Seconds 20) nb;
     nb \<leftarrow> timer_purges [1] nb;
     nb \<leftarrow> NeighborTest_CheckTimeout1 (Seconds 2) nb;
     nb \<leftarrow> timer_purges [3, 4, 5, 6, 7, 8, 9, 10, 11, 12, 13, 14] nb;
     nb \<leftarrow> NeighborTest_CheckTimeout2 (Seconds 15) nb;
     nb \<leftarrow> timer_purges [16, 17, 18, 19, 20, 21, 22] nb;
     NeighborTest_CheckTimeout3 (Seconds 30) nb
   }"

lemmas neighbor_test_defs = expect_neighbor_def expect_expire_def update_neighbor_def
  NeighborTest_Handler_def Neighbors_IsNeighbor_def Neighbors_GetExpireTime_def Neighbors_Update_def
  Neighbors_Purge_def Neighbors_LookupMacAddress_def CloseNeighbor_def time_units ip4_def

lemma neighbor_test_passes: "NeighborTest_DoRun E \<noteq> None"
  by (simp add: NeighborTest_DoRun_def NeighborTest_CheckTimeout1_def NeighborTest_CheckTimeout2_def
      NeighborTest_CheckTimeout3_def timer_purges_def Neighbors_new_def neighbor_test_defs)

subsection \<open>test/madaodv-test-suite.cc: the headers\<close>

text \<open>\<open>AddHeader\<close> on an empty packet, \<open>RemoveHeader\<close>: the bytes taken and the header read.\<close>

definition add_and_remove :: "u8 list \<Rightarrow> (u8 list \<Rightarrow> ('h \<times> u8 list) option) \<Rightarrow> (nat \<times> 'h) option" where
  "add_and_remove bs des = do { (h, rest) \<leftarrow> des bs; Some (length bs - length rest, h) }"

context wire_format
begin

lemma add_remove: "good h \<Longrightarrow> add_and_remove (ser h) des = Some (sz h, h)"
  using ser_des_alone [of h] ser_size [of h] by (simp add: add_and_remove_def)

end

definition TypeHeaderTest_DoRun :: "unit option" where
  "TypeHeaderTest_DoRun = do {
     let h = TypeHeader_new MADAODVTYPE_RREQ;
     _ \<leftarrow> expect (TypeHeader_IsValid h) True;
     _ \<leftarrow> expect (TypeHeader_Get h) MADAODVTYPE_RREQ;
     (bytes, h2) \<leftarrow> add_and_remove (TypeHeader_Serialize h) (TypeHeader_Deserialize (TypeHeader_new MADAODVTYPE_RREP));
     _ \<leftarrow> expect bytes 1;
     expect (TypeHeader_eq h h2) True
   }"

definition RreqHeaderTest_DoRun :: "codec \<Rightarrow> unit option" where
  "RreqHeaderTest_DoRun C = do {
     let h = \<lparr>rq_flags = 0, rq_reserved = 0, rq_hopCount = 6, rq_requestID = 1, rq_dst = ip4 1 2 3 4,
              rq_dstSeqNo = 40, rq_origin = ip4 4 3 2 1, rq_originSeqNo = 10\<rparr>;
     _ \<leftarrow> expect (RreqHeader_GetGratuitousRrep h) False;
     _ \<leftarrow> expect (RreqHeader_GetDestinationOnly h) False;
     _ \<leftarrow> expect (RreqHeader_GetHopCount h) 6;
     _ \<leftarrow> expect (RreqHeader_GetId h) 1;
     _ \<leftarrow> expect (RreqHeader_GetDst h) (ip4 1 2 3 4);
     _ \<leftarrow> expect (RreqHeader_GetDstSeqno h) 40;
     _ \<leftarrow> expect (RreqHeader_GetOrigin h) (ip4 4 3 2 1);
     _ \<leftarrow> expect (RreqHeader_GetOriginSeqno h) 10;
     let h = RreqHeader_SetGratuitousRrep True h;
     _ \<leftarrow> expect (RreqHeader_GetGratuitousRrep h) True;
     let h = RreqHeader_SetDestinationOnly True h;
     _ \<leftarrow> expect (RreqHeader_GetDestinationOnly h) True;
     let h = RreqHeader_SetUnknownSeqno True h;
     _ \<leftarrow> expect (RreqHeader_GetUnknownSeqno h) True;
     let h = RreqHeader_SetDst (ip4 1 1 1 1) h;
     _ \<leftarrow> expect (RreqHeader_GetDst h) (ip4 1 1 1 1);
     let h = RreqHeader_SetDstSeqno 5 h;
     _ \<leftarrow> expect (RreqHeader_GetDstSeqno h) 5;
     let h = RreqHeader_SetHopCount 7 h;
     _ \<leftarrow> expect (RreqHeader_GetHopCount h) 7;
     let h = RreqHeader_SetId 55 h;
     _ \<leftarrow> expect (RreqHeader_GetId h) 55;
     let h = RreqHeader_SetOrigin (ip4 4 4 4 4) h;
     _ \<leftarrow> expect (RreqHeader_GetOrigin h) (ip4 4 4 4 4);
     let h = RreqHeader_SetOriginSeqno 23 h;
     _ \<leftarrow> expect (RreqHeader_GetOriginSeqno h) 23;
     (bytes, h2) \<leftarrow> add_and_remove (RreqHeader_Serialize C h) (RreqHeader_Deserialize C);
     _ \<leftarrow> expect bytes 23;
     expect (RreqHeader_eq h h2) True
   }"

definition RrepHeaderTest_DoRun :: "ns3 \<Rightarrow> unit option" where
  "RrepHeaderTest_DoRun E = do {
     let h = RrepHeader_new E 0 12 (ip4 1 2 3 4) 2 (ip4 4 3 2 1) (Seconds 3);
     _ \<leftarrow> expect (RrepHeader_GetPrefixSize h) 0;
     _ \<leftarrow> expect (RrepHeader_GetHopCount h) 12;
     _ \<leftarrow> expect (RrepHeader_GetDst h) (ip4 1 2 3 4);
     _ \<leftarrow> expect (RrepHeader_GetDstSeqno h) 2;
     _ \<leftarrow> expect (RrepHeader_GetOrigin h) (ip4 4 3 2 1);
     _ \<leftarrow> expect (RrepHeader_GetLifeTime h) (Seconds 3);
     let h = RrepHeader_SetDst (ip4 1 1 1 1) h;
     _ \<leftarrow> expect (RrepHeader_GetDst h) (ip4 1 1 1 1);
     let h = RrepHeader_SetDstSeqno 123 h;
     _ \<leftarrow> expect (RrepHeader_GetDstSeqno h) 123;
     let h = RrepHeader_SetOrigin (ip4 4 4 4 4) h;
     _ \<leftarrow> expect (RrepHeader_GetOrigin h) (ip4 4 4 4 4);
     let h = RrepHeader_SetLifeTime E (MilliSeconds 1200) h;
     _ \<leftarrow> expect (RrepHeader_GetLifeTime h) (MilliSeconds 1200);
     let h = RrepHeader_SetAckRequired True h;
     _ \<leftarrow> expect (RrepHeader_GetAckRequired h) True;
     let h = RrepHeader_SetAckRequired False h;
     _ \<leftarrow> expect (RrepHeader_GetAckRequired h) False;
     let h = RrepHeader_SetPrefixSize 2 h;
     _ \<leftarrow> expect (RrepHeader_GetPrefixSize h) 2;
     let h = RrepHeader_SetHopCount 15 h;
     _ \<leftarrow> expect (RrepHeader_GetHopCount h) 15;
     let h = RrepHeader_SetHello E (ip4 10 0 0 2) 9 (Seconds 15) h;
     _ \<leftarrow> expect (RrepHeader_GetDst h) (RrepHeader_GetOrigin h);
     _ \<leftarrow> expect (RrepHeader_GetDstSeqno h) 9;
     _ \<leftarrow> expect (RrepHeader_GetLifeTime h) (Seconds 15);
     (bytes, h2) \<leftarrow> add_and_remove (RrepHeader_Serialize (wire E) h) (RrepHeader_Deserialize (wire E));
     _ \<leftarrow> expect bytes 19;
     expect (RrepHeader_eq h h2) True
   }"

definition RrepAckHeaderTest_DoRun :: "unit option" where
  "RrepAckHeaderTest_DoRun = do {
     let h = RrepAckHeader_new;
     (bytes, h2) \<leftarrow> add_and_remove (RrepAckHeader_Serialize h) RrepAckHeader_Deserialize;
     _ \<leftarrow> expect bytes 1;
     expect (RrepAckHeader_eq h h2) True
   }"

definition RerrHeaderTest_DoRun :: "codec \<Rightarrow> unit option" where
  "RerrHeaderTest_DoRun C = do {
     let h = RerrHeader_SetNoDelete True RerrHeader_new;
     _ \<leftarrow> expect (RerrHeader_GetNoDelete h) True;
     let dst = ip4 1 2 3 4;
     (b, h) \<leftarrow> RerrHeader_AddUnDestination dst 12 h;
     _ \<leftarrow> expect b True;
     _ \<leftarrow> expect (RerrHeader_GetDestCount h) 1;
     (b, h) \<leftarrow> RerrHeader_AddUnDestination dst 13 h;
     _ \<leftarrow> expect b True;
     let dst2 = ip4 4 3 2 1;
     (b, h) \<leftarrow> RerrHeader_AddUnDestination dst2 12 h;
     _ \<leftarrow> expect b True;
     _ \<leftarrow> expect (RerrHeader_GetDestCount h) 2;
     (bytes, h2) \<leftarrow> add_and_remove (RerrHeader_Serialize C h) (RerrHeader_Deserialize C);
     _ \<leftarrow> expect bytes (RerrHeader_GetSerializedSize h);
     expect (RerrHeader_eq h h2) True
   }"

lemma rerr_eq_refl: "RerrHeader_eq h h"
proof -
  have "dests_eq n l l" for n l
  proof (induction l arbitrary: n)
    case (Cons a l)
    then show ?case by (cases n) simp_all
  qed (cases n; simp)
  then show ?thesis by (simp add: RerrHeader_eq_def)
qed

lemma type_header_test_passes: "TypeHeaderTest_DoRun \<noteq> None"
  by (simp add: TypeHeaderTest_DoRun_def type_wire.add_remove TypeHeader_GetSerializedSize_def
    TypeHeader_IsValid_def TypeHeader_Get_def TypeHeader_eq_def) (simp add: TypeHeader_new_def)

lemma ack_header_test_passes: "RrepAckHeaderTest_DoRun \<noteq> None"
  by (simp add: RrepAckHeaderTest_DoRun_def ack_wire.add_remove RrepAckHeader_GetSerializedSize_def
    RrepAckHeader_eq_def)

context byte_order
begin

lemma rreq_header_test_passes: "RreqHeaderTest_DoRun C \<noteq> None"
  by (simp add: RreqHeaderTest_DoRun_def rreq.add_remove Let_def flag_laws rreq_accessors
      RreqHeader_GetSerializedSize_def RreqHeader_eq_def) (simp add: get_flag_def)

lemma rerr_header_test_passes: "RerrHeaderTest_DoRun C \<noteq> None"
  by (simp add: RerrHeaderTest_DoRun_def rerr.add_remove Let_def flag_laws RerrHeader_AddUnDestination_def
      RerrHeader_GetDestCount_def RerrHeader_new_def rerr_eq_refl smap_insert_def ip4_def)

lemma rrep_header_test_passes:
  assumes "wire E = C" and "\<forall>n. to_ms E (MilliSeconds n) = n"
  shows "RrepHeaderTest_DoRun E \<noteq> None"
proof -
  have s: "Seconds n = MilliSeconds (1000 * n)" for n by (simp add: time_units)
  show ?thesis
    by (simp add: RrepHeaderTest_DoRun_def Let_def flag_laws s assms rrep.add_remove rrep_accessors
        RrepHeader_new_def RrepHeader_SetLifeTime_def RrepHeader_GetLifeTime_def
        RrepHeader_GetSerializedSize_def RrepHeader_eq_def RrepHeader_SetHello_def)
qed

end

subsection \<open>test/madaodv-test-suite.cc: the queue\<close>

text \<open>\<open>u\<close> and \<open>e\<close> are the callbacks \<open>Unicast\<close> and \<open>Error\<close> of the test, \<open>u2\<close> and \<open>e2\<close> the others; a
  callback is a handle. All is at time \<open>t\<close>.\<close>

definition QueueEntryTest_DoRun ::
  "time \<Rightarrow> packet \<Rightarrow> ipv4_header \<Rightarrow> callback \<Rightarrow> callback \<Rightarrow> callback \<Rightarrow> callback \<Rightarrow> unit option" where
  "QueueEntryTest_DoRun t packet h0 u e u2 e2 = do {
     let h = h0\<lparr>ih_destination := ip4 1 2 3 4, ih_source := ip4 4 3 2 1\<rparr>;
     let en = QueueEntry_new t packet h u e (Seconds 1);
     _ \<leftarrow> expect (ih_destination h) (ih_destination (QueueEntry_GetIpv4Header en));
     _ \<leftarrow> expect (ih_source h) (ih_source (QueueEntry_GetIpv4Header en));
     _ \<leftarrow> expect (u = QueueEntry_GetUnicastForwardCallback en) True;
     _ \<leftarrow> expect (e = QueueEntry_GetErrorCallback en) True;
     _ \<leftarrow> expect (QueueEntry_GetExpireTime t en) (Seconds 1);
     _ \<leftarrow> expect (QueueEntry_GetPacket en) packet;
     let en = QueueEntry_SetExpireTime t (Seconds 3) en;
     _ \<leftarrow> expect (QueueEntry_GetExpireTime t en) (Seconds 3);
     let h2 = h0\<lparr>ih_destination := ip4 1 1 1 1\<rparr>;
     let en = QueueEntry_SetIpv4Header h2 en;
     _ \<leftarrow> expect (ih_destination (QueueEntry_GetIpv4Header en)) (ip4 1 1 1 1);
     let en = QueueEntry_SetErrorCallback e2 en;
     _ \<leftarrow> expect (e2 = QueueEntry_GetErrorCallback en) True;
     let en = QueueEntry_SetUnicastForwardCallback u2 en;
     expect (u2 = QueueEntry_GetUnicastForwardCallback en) True
   }"

lemma queue_entry_test_passes: "QueueEntryTest_DoRun t packet h0 u e u2 e2 \<noteq> None"
  by (simp add: QueueEntryTest_DoRun_def Let_def QueueEntry_new_def QueueEntry_GetIpv4Header_def
      QueueEntry_SetIpv4Header_def QueueEntry_GetPacket_def QueueEntry_GetErrorCallback_def
      QueueEntry_SetErrorCallback_def QueueEntry_GetUnicastForwardCallback_def
      QueueEntry_SetUnicastForwardCallback_def QueueEntry_GetExpireTime_def QueueEntry_SetExpireTime_def)

text \<open>The calls of the queue test, without the effects (packets handed to the error callback). \<open>Enqueue\<close>
  also writes the expiry into the entry it is given, which no expectation looks at.\<close>

definition enq :: "time \<Rightarrow> queue_entry \<Rightarrow> request_queue \<Rightarrow> request_queue option" where
  "enq t en q = map_option (\<lambda>(_, q, _). q) (RequestQueue_Enqueue t en q)"

definition expect_size :: "time \<Rightarrow> u32 \<Rightarrow> request_queue \<Rightarrow> request_queue option" where
  "expect_size t n q = (let (m, q, _) = RequestQueue_GetSize t q in do { _ \<leftarrow> expect m n; Some q })"

definition drop_dst :: "time \<Rightarrow> ipv4 \<Rightarrow> request_queue \<Rightarrow> request_queue" where
  "drop_dst t dst q = fst (RequestQueue_DropPacketWithDst t dst q)"

definition MadaodvRqueueTest_CheckSizeLimit ::
  "time \<Rightarrow> packet \<Rightarrow> ipv4_header \<Rightarrow> callback \<Rightarrow> callback \<Rightarrow> request_queue \<Rightarrow> request_queue option" where
  "MadaodvRqueueTest_CheckSizeLimit t packet header u e q = do {
     let e1 = QueueEntry_new t packet header u e (Seconds 1);
     q \<leftarrow> foldM (\<lambda>_. enq t e1) [0..<unat (RequestQueue_GetMaxQueueLen q)] q;
     q \<leftarrow> expect_size t 2 q;
     q \<leftarrow> foldM (\<lambda>_. enq t e1) [0..<unat (RequestQueue_GetMaxQueueLen q)] q;
     expect_size t 2 q
   }"

definition MadaodvRqueueTest_DoRun ::
  "packet \<Rightarrow> packet \<Rightarrow> packet \<Rightarrow> packet \<Rightarrow> ipv4_header \<Rightarrow> callback \<Rightarrow> callback \<Rightarrow> request_queue option" where
  "MadaodvRqueueTest_DoRun packet packet2 packet4 packet5 h0 u e = do {
     let q = RequestQueue_new 64 (Seconds 30);
     _ \<leftarrow> expect (RequestQueue_GetMaxQueueLen q) 64;
     let q = RequestQueue_SetMaxQueueLen 32 q;
     _ \<leftarrow> expect (RequestQueue_GetMaxQueueLen q) 32;
     _ \<leftarrow> expect (RequestQueue_GetQueueTimeout q) (Seconds 30);
     let q = RequestQueue_SetQueueTimeout (Seconds 10) q;
     _ \<leftarrow> expect (RequestQueue_GetQueueTimeout q) (Seconds 10);
     let h = h0\<lparr>ih_destination := ip4 1 2 3 4, ih_source := ip4 4 3 2 1\<rparr>;
     let e1 = QueueEntry_new 0 packet h u e (Seconds 1);
     q \<leftarrow> enq 0 e1 q;
     q \<leftarrow> enq 0 e1 q;
     q \<leftarrow> enq 0 e1 q;
     _ \<leftarrow> expect (RequestQueue_Find (ip4 1 2 3 4) q) True;
     _ \<leftarrow> expect (RequestQueue_Find (ip4 1 1 1 1) q) False;
     q \<leftarrow> expect_size 0 1 q;
     let q = drop_dst 0 (ip4 1 2 3 4) q;
     _ \<leftarrow> expect (RequestQueue_Find (ip4 1 2 3 4) q) False;
     q \<leftarrow> expect_size 0 0 q;
     let h = h\<lparr>ih_destination := ip4 2 2 2 2\<rparr>;
     let e2 = QueueEntry_new 0 packet h u e (Seconds 1);
     q \<leftarrow> enq 0 e1 q;
     q \<leftarrow> enq 0 e2 q;
     let e3 = QueueEntry_new 0 packet2 h u e (Seconds 1);
     let (r, q, _) = RequestQueue_Dequeue 0 (ip4 3 3 3 3) q;
     _ \<leftarrow> expect (r \<noteq> None) False;
     let (r, q, _) = RequestQueue_Dequeue 0 (ip4 2 2 2 2) q;
     _ \<leftarrow> expect (r \<noteq> None) True;
     let e3 = (case r of None \<Rightarrow> e3 | Some en \<Rightarrow> en);
     _ \<leftarrow> expect (RequestQueue_Find (ip4 2 2 2 2) q) False;
     q \<leftarrow> enq 0 e2 q;
     q \<leftarrow> enq 0 e3 q;
     q \<leftarrow> expect_size 0 2 q;
     let h = h\<lparr>ih_destination := ip4 1 2 3 4\<rparr>;
     let e4 = QueueEntry_new 0 packet4 h u e (Seconds 20);
     q \<leftarrow> enq 0 e4 q;
     q \<leftarrow> expect_size 0 3 q;
     let q = drop_dst 0 (ip4 1 2 3 4) q;
     q \<leftarrow> expect_size 0 1 q;
     q \<leftarrow> MadaodvRqueueTest_CheckSizeLimit 0 packet5 h0 u e q;
     expect_size (RequestQueue_GetQueueTimeout q + Seconds 1) 0 q
   }"

lemmas queue_test_defs = enq_def expect_size_def drop_dst_def MadaodvRqueueTest_CheckSizeLimit_def
  RequestQueue_new_def RequestQueue_GetMaxQueueLen_def RequestQueue_SetMaxQueueLen_def
  RequestQueue_GetQueueTimeout_def RequestQueue_SetQueueTimeout_def RequestQueue_Enqueue_def
  RequestQueue_Purge_def RequestQueue_IsExpired_def RequestQueue_Find_def RequestQueue_GetSize_def
  RequestQueue_DropPacketWithDst_def RequestQueue_Dequeue_def QueueEntry_new_def
  QueueEntry_GetExpireTime_def QueueEntry_SetExpireTime_def

lemma queue_test_passes:
  assumes "distinct (map pk_uid [packet, packet2, packet4, packet5])"
  shows "MadaodvRqueueTest_DoRun packet packet2 packet4 packet5 h0 u e \<noteq> None"
  using assms
  by (simp add: MadaodvRqueueTest_DoRun_def queue_test_defs time_units ip4_def upt_conv_Cons
      cong: bind_weak_cong let_weak_cong del: set_filter filter_filter)

subsection \<open>test/madaodv-test-suite.cc: the routing table\<close>

text \<open>\<open>dev\<close> and \<open>dev2\<close> are null pointers, \<open>iface\<close> and \<open>iface2\<close> whatever the default constructor makes.\<close>

definition MadaodvRtableEntryTest_DoRun :: "time \<Rightarrow> iface \<Rightarrow> iface \<Rightarrow> unit option" where
  "MadaodvRtableEntryTest_DoRun t iface iface2 = do {
     let rt = RoutingTableEntry_new t None (ip4 1 2 3 4) True 10 iface 5 (ip4 3 3 3 3) (Seconds 10);
     _ \<leftarrow> expect (GetOutputDevice rt) None;
     _ \<leftarrow> expect (GetDestination rt) (ip4 1 2 3 4);
     _ \<leftarrow> expect (GetValidSeqNo rt) True;
     _ \<leftarrow> expect (GetSeqNo rt) 10;
     _ \<leftarrow> expect (GetInterface rt) iface;
     _ \<leftarrow> expect (GetHop rt) 5;
     _ \<leftarrow> expect (GetNextHop rt) (ip4 3 3 3 3);
     _ \<leftarrow> expect (GetLifeTime t rt) (Seconds 10);
     _ \<leftarrow> expect (GetFlag rt) VALID;
     _ \<leftarrow> expect (GetRreqCnt rt) 0;
     _ \<leftarrow> expect (IsPrecursorListEmpty rt) True;
     let rt = SetOutputDevice None rt;
     _ \<leftarrow> expect (GetOutputDevice rt) None;
     let rt = SetInterface iface2 rt;
     _ \<leftarrow> expect (GetInterface rt) iface2;
     let rt = SetValidSeqNo False rt;
     _ \<leftarrow> expect (GetValidSeqNo rt) False;
     let rt = SetFlag INVALID rt;
     _ \<leftarrow> expect (GetFlag rt) INVALID;
     let rt = SetFlag IN_SEARCH rt;
     _ \<leftarrow> expect (GetFlag rt) IN_SEARCH;
     let rt = SetHop 12 rt;
     _ \<leftarrow> expect (GetHop rt) 12;
     let rt = SetLifeTime t (Seconds 1) rt;
     _ \<leftarrow> expect (GetLifeTime t rt) (Seconds 1);
     let rt = SetNextHop (ip4 1 1 1 1) rt;
     _ \<leftarrow> expect (GetNextHop rt) (ip4 1 1 1 1);
     let rt = SetUnidirectional True rt;
     _ \<leftarrow> expect (IsUnidirectional rt) True;
     let rt = SetBlacklistTimeout (Seconds 7) rt;
     _ \<leftarrow> expect (GetBlacklistTimeout rt) (Seconds 7);
     let rt = SetRreqCnt 2 rt;
     _ \<leftarrow> expect (GetRreqCnt rt) 2;
     let rt = IncrementRreqCnt rt;
     _ \<leftarrow> expect (GetRreqCnt rt) 3;
     let rt = Invalidate t (Seconds 13) rt;
     _ \<leftarrow> expect (GetFlag rt) INVALID;
     _ \<leftarrow> expect (GetLifeTime t rt) (Seconds 13);
     let rt = SetLifeTime t (MilliSeconds 100) rt;
     _ \<leftarrow> expect (GetLifeTime t rt) (MilliSeconds 100);
     let route = GetRoute rt;
     _ \<leftarrow> expect (rt_destination route) (ip4 1 2 3 4);
     let (b, rt) = InsertPrecursor (ip4 10 0 0 1) rt;
     _ \<leftarrow> expect b True;
     _ \<leftarrow> expect (IsPrecursorListEmpty rt) False;
     let (b, rt) = InsertPrecursor (ip4 10 0 0 2) rt;
     _ \<leftarrow> expect b True;
     let (b, rt) = InsertPrecursor (ip4 10 0 0 2) rt;
     _ \<leftarrow> expect b False;
     _ \<leftarrow> expect (LookupPrecursor (ip4 10 0 0 3) rt) False;
     _ \<leftarrow> expect (LookupPrecursor (ip4 10 0 0 1) rt) True;
     let (b, rt) = DeletePrecursor (ip4 10 0 0 2) rt;
     _ \<leftarrow> expect b True;
     _ \<leftarrow> expect (LookupPrecursor (ip4 10 0 0 2) rt) False;
     let prec = GetPrecursors rt [];
     _ \<leftarrow> expect (length prec) 1;
     let (b, rt) = InsertPrecursor (ip4 10 0 0 4) rt;
     _ \<leftarrow> expect b True;
     let (b, rt) = DeletePrecursor (ip4 10 0 0 5) rt;
     _ \<leftarrow> expect b False;
     let prec = GetPrecursors rt prec;
     _ \<leftarrow> expect (length prec) 2;
     let rt = DeleteAllPrecursors rt;
     _ \<leftarrow> expect (IsPrecursorListEmpty rt) True;
     let prec = GetPrecursors rt prec;
     expect (length prec) 2
   }"

lemmas entry_test_defs = expect_def RoutingTableEntry_new_def GetValidSeqNo_def SetValidSeqNo_def GetSeqNo_def
  GetInterface_def SetInterface_def GetHop_def SetHop_def GetLifeTime_def SetLifeTime_def GetFlag_def
  SetFlag_def GetRreqCnt_def SetRreqCnt_def IncrementRreqCnt_def IsUnidirectional_def
  SetUnidirectional_def GetBlacklistTimeout_def SetBlacklistTimeout_def Invalidate_def GetRoute_def
  SetNextHop_def SetOutputDevice_def InsertPrecursor_def LookupPrecursor_def DeletePrecursor_def
  DeleteAllPrecursors_def IsPrecursorListEmpty_def GetPrecursors_def

lemma rtable_entry_test_passes: "MadaodvRtableEntryTest_DoRun t iface iface2 \<noteq> None"
  by (simp add: MadaodvRtableEntryTest_DoRun_def entry_test_defs ip4_def
      cong: bind_weak_cong let_weak_cong)

text \<open>The test makes one variable, \<open>rt\<close>, the output of every lookup.\<close>

definition MadaodvRtableTest_DoRun :: "ns3 \<Rightarrow> unit option" where
  "MadaodvRtableTest_DoRun E = do {
     let t = now E;
     let rtable = RoutingTable_new (Seconds 2);
     _ \<leftarrow> expect (RoutingTable_GetBadLinkLifetime rtable) (Seconds 2);
     let rtable = RoutingTable_SetBadLinkLifetime (Seconds 1) rtable;
     _ \<leftarrow> expect (RoutingTable_GetBadLinkLifetime rtable) (Seconds 1);
     let iface = any_iface E;
     let rt = RoutingTableEntry_new t None (ip4 1 2 3 4) True 10 iface 5 (ip4 1 1 1 1) (Seconds 10);
     let (b, rtable) = RoutingTable_AddRoute t rt rtable;
     _ \<leftarrow> expect b True;
     let (b, rtable) = RoutingTable_AddRoute t rt rtable;
     _ \<leftarrow> expect b False;
     let rt2 = RoutingTableEntry_new t None (ip4 4 3 2 1) False 0 iface 15 (ip4 1 1 1 1) (Seconds 1);
     let (b, rtable) = RoutingTable_AddRoute t rt2 rtable;
     _ \<leftarrow> expect b True;
     let (r, rtable) = RoutingTable_LookupRoute t (GetDestination rt2) rtable;
     _ \<leftarrow> expect (r \<noteq> None) True;
     let rt = (case r of None \<Rightarrow> rt | Some e \<Rightarrow> e);
     _ \<leftarrow> expect (GetDestination rt2) (GetDestination rt);
     let rt = SetHop 20 rt;
     let (_, rt) = InsertPrecursor (ip4 10 0 0 3) rt;
     let (b, rtable) = RoutingTable_Update rt rtable;
     _ \<leftarrow> expect b True;
     let rt3 = RoutingTableEntry_default E;
     let (r, rtable) = RoutingTable_LookupRoute t (ip4 10 0 0 1) rtable;
     _ \<leftarrow> expect (r \<noteq> None) False;
     let (b, rtable) = RoutingTable_Update rt3 rtable;
     _ \<leftarrow> expect b False;
     let (b, rtable) = RoutingTable_SetEntryState (ip4 10 0 0 1) INVALID rtable;
     _ \<leftarrow> expect b False;
     let (b, rtable) = RoutingTable_SetEntryState (ip4 1 2 3 4) IN_SEARCH rtable;
     _ \<leftarrow> expect b True;
     let (b, rtable) = RoutingTable_DeleteRoute t (ip4 5 5 5 5) rtable;
     _ \<leftarrow> expect b False;
     let rt4 = RoutingTableEntry_new t None (ip4 5 5 5 5) False 0 iface 15 (ip4 1 1 1 1) (Seconds (- 10));
     let (b, rtable) = RoutingTable_AddRoute t rt4 rtable;
     _ \<leftarrow> expect b True;
     let (b, rtable) = RoutingTable_SetEntryState (ip4 5 5 5 5) INVALID rtable;
     _ \<leftarrow> expect b True;
     let (r, rtable) = RoutingTable_LookupRoute t (ip4 5 5 5 5) rtable;
     _ \<leftarrow> expect (r \<noteq> None) False;
     let (b, rtable) = RoutingTable_MarkLinkAsUnidirectional (ip4 1 2 3 4) (Seconds 2) rtable;
     _ \<leftarrow> expect b True;
     let (r, rtable) = RoutingTable_LookupRoute t (ip4 1 2 3 4) rtable;
     _ \<leftarrow> expect (r \<noteq> None) True;
     let rt = (case r of None \<Rightarrow> rt | Some e \<Rightarrow> e);
     _ \<leftarrow> expect (IsUnidirectional rt) True;
     let rt = SetLifeTime t (Seconds (- 5)) rt;
     let (b, rtable) = RoutingTable_Update rt rtable;
     _ \<leftarrow> expect b True;
     let (unreachable, rtable) = RoutingTable_GetListOfDestinationWithNextHop t (ip4 1 1 1 1) rtable;
     _ \<leftarrow> expect (length unreachable) 2;
     let unreachable = smap_insert (ip4 4 3 2 1) 3 unreachable;
     let rtable = RoutingTable_InvalidateRoutesWithDst t unreachable rtable;
     let (r, rtable) = RoutingTable_LookupRoute t (ip4 4 3 2 1) rtable;
     _ \<leftarrow> expect (r \<noteq> None) True;
     let rt = (case r of None \<Rightarrow> rt | Some e \<Rightarrow> e);
     _ \<leftarrow> expect (GetFlag rt) INVALID;
     let (b, rtable) = RoutingTable_DeleteRoute t (ip4 1 2 3 4) rtable;
     _ \<leftarrow> expect b True;
     let (b, rtable) = RoutingTable_DeleteRoute t (ip4 1 2 3 4) rtable;
     expect b False
   }"

lemmas table_test_defs = RoutingTable_new_def RoutingTable_GetBadLinkLifetime_def
  RoutingTable_SetBadLinkLifetime_def RoutingTable_AddRoute_def RoutingTable_Purge_def
  RoutingTable_LookupRoute_def RoutingTable_Update_def RoutingTable_SetEntryState_def
  RoutingTable_DeleteRoute_def RoutingTable_MarkLinkAsUnidirectional_def
  RoutingTable_GetListOfDestinationWithNextHop_def RoutingTable_InvalidateRoutesWithDst_def
  RoutingTableEntry_default_def smap_of_list_def smap_insert_def smap_erase_def

lemma rtable_test_passes:
  assumes "any_addr E \<notin> {ip4 1 2 3 4, ip4 4 3 2 1}"
  shows "MadaodvRtableTest_DoRun E \<noteq> None"
  using assms
  by (simp add: MadaodvRtableTest_DoRun_def table_test_defs entry_test_defs ip4_def time_units
      cong: bind_weak_cong let_weak_cong)

subsection \<open>test/madaodv-id-cache-test-suite.cc\<close>

definition expect_duplicate :: "ipv4 \<Rightarrow> u32 \<Rightarrow> bool \<Rightarrow> id_cache \<Rightarrow> id_cache option" where
  "expect_duplicate addr i b c = (let (r, c) = IdCache_IsDuplicate 0 addr i c in do { _ \<leftarrow> expect r b; Some c })"

definition expect_cached :: "time \<Rightarrow> u32 \<Rightarrow> id_cache \<Rightarrow> id_cache option" where
  "expect_cached t n c = (let (m, c) = IdCache_GetSize t c in do { _ \<leftarrow> expect m n; Some c })"

definition IdCacheTest_DoRun :: "id_cache option" where
  "IdCacheTest_DoRun = do {
     let cache = IdCache_new (Seconds 10);
     _ \<leftarrow> expect (IdCache_GetLifeTime cache) (Seconds 10);
     cache \<leftarrow> expect_duplicate (ip4 1 2 3 4) 3 False cache;
     cache \<leftarrow> expect_duplicate (ip4 1 2 3 4) 4 False cache;
     cache \<leftarrow> expect_duplicate (ip4 4 3 2 1) 3 False cache;
     cache \<leftarrow> expect_duplicate (ip4 1 2 3 4) 3 True cache;
     let cache = IdCache_SetLifetime (Seconds 15) cache;
     _ \<leftarrow> expect (IdCache_GetLifeTime cache) (Seconds 15);
     let (_, cache) = IdCache_IsDuplicate 0 (ip4 1 1 1 1) 4 cache;
     let (_, cache) = IdCache_IsDuplicate 0 (ip4 1 1 1 1) 4 cache;
     let (_, cache) = IdCache_IsDuplicate 0 (ip4 2 2 2 2) 5 cache;
     let (_, cache) = IdCache_IsDuplicate 0 (ip4 3 3 3 3) 6 cache;
     cache \<leftarrow> expect_cached 0 6 cache;
     cache \<leftarrow> expect_cached (Seconds 5) 6 cache;
     cache \<leftarrow> expect_cached (Seconds 11) 3 cache;
     expect_cached (Seconds 30) 0 cache
   }"

lemma id_cache_test_passes: "IdCacheTest_DoRun \<noteq> None"
  by (simp add: IdCacheTest_DoRun_def expect_duplicate_def expect_cached_def IdCache_new_def
      IdCache_GetLifeTime_def IdCache_SetLifetime_def IdCache_IsDuplicate_def IdCache_GetSize_def
      IdCache_Purge_def IdCache_IsExpired_def ip4_def time_units
      cong: bind_weak_cong let_weak_cong del: set_filter filter_filter)

subsection \<open>All of them\<close>

text \<open>C37: the model passes the unit tests that the repository has for the module, all eleven of them: the
  neighbour list and its timer, the four headers and the type octet, entries and queue, entries and
  table, the id cache. Asked of the simulator are only a byte order that can be undone, a conversion to
  milliseconds that is exact on whole ones, a default address that is none of two the table test uses,
  and packets with uids of their own.\<close>

theorem unit_tests_pass:
  assumes "codec_ok (wire E)" and "\<forall>n. to_ms E (MilliSeconds n) = n"
    and "any_addr E \<notin> {ip4 1 2 3 4, ip4 4 3 2 1}"
    and "distinct (map pk_uid [packet, packet2, packet4, packet5])"
  shows "NeighborTest_DoRun E \<noteq> None \<and> TypeHeaderTest_DoRun \<noteq> None \<and> RreqHeaderTest_DoRun (wire E) \<noteq> None
    \<and> RrepHeaderTest_DoRun E \<noteq> None \<and> RrepAckHeaderTest_DoRun \<noteq> None \<and> RerrHeaderTest_DoRun (wire E) \<noteq> None
    \<and> QueueEntryTest_DoRun (now E) packet h0 u e u2 e2 \<noteq> None
    \<and> MadaodvRqueueTest_DoRun packet packet2 packet4 packet5 h0 u e \<noteq> None
    \<and> MadaodvRtableEntryTest_DoRun (now E) (any_iface E) (any_iface E) \<noteq> None
    \<and> MadaodvRtableTest_DoRun E \<noteq> None \<and> IdCacheTest_DoRun \<noteq> None"
proof -
  note order = byte_orderI [OF assms(1)]
  show ?thesis
    by (intro conjI neighbor_test_passes type_header_test_passes ack_header_test_passes
        byte_order.rreq_header_test_passes [OF order] byte_order.rrep_header_test_passes [OF order refl assms(2)]
        byte_order.rerr_header_test_passes [OF order] queue_entry_test_passes queue_test_passes [OF assms(4)]
        rtable_entry_test_passes rtable_test_passes [OF assms(3)] id_cache_test_passes)
qed

definition test_packet :: "u64 \<Rightarrow> packet" where
  "test_packet uid = \<lparr>pk_uid = uid, pk_bytes = [], pk_ttl_tag = None, pk_oif_tag = None\<rparr>"

theorem unit_tests_pass_witness:
  "NeighborTest_DoRun (example_env 0) \<noteq> None \<and> RrepHeaderTest_DoRun (example_env 0) \<noteq> None
   \<and> MadaodvRqueueTest_DoRun (test_packet 0) (test_packet 1) (test_packet 2) (test_packet 3)
       \<lparr>ih_source = 0, ih_destination = 0, ih_protocol = 0, ih_ttl = 0\<rparr> 1 2 \<noteq> None
   \<and> MadaodvRtableTest_DoRun (example_env 0) \<noteq> None"
  using unit_tests_pass [of "example_env 0" "test_packet 0" "test_packet 1" "test_packet 2" "test_packet 3"
      "\<lparr>ih_source = 0, ih_destination = 0, ih_protocol = 0, ih_ttl = 0\<rparr>" 1 2]
  by (simp add: test_packet_def be_codec_ok example_env_simps MilliSeconds_def ip4_def)

end
