(* ===== verification/Helper.thy ===== *)
theory Helper
  imports Protocol_Node
begin

text \<open>
  \<open>helper/madaodv-helper.cc\<close>: the random streams of the agents of a set of nodes. A node's routing
  protocol is the agent itself, a list of protocols that may hold one, or something else; a node
  without IPv4 or without a routing protocol fails an assertion. The object factory behind \<open>Create\<close>
  and \<open>Set\<close> is the simulator's.
\<close>

datatype routing =
    Agent rp
  | ListRouting "rp option list"
  | OtherRouting

type_synonym node = "routing option"

text \<open>The loop over the protocols of a list ends at the first agent.\<close>

fun assign_list :: "int \<Rightarrow> rp option list \<Rightarrow> int \<times> rp option list" where
  "assign_list currentStream [] = (currentStream, [])"
| "assign_list currentStream (Some listMadaodv # l) =
     (let (n, a) = AssignStreams currentStream listMadaodv in (currentStream + n, Some a # l))"
| "assign_list currentStream (None # l) =
     (let (c, l) = assign_list currentStream l in (c, None # l))"

fun assign_routing :: "int \<Rightarrow> routing \<Rightarrow> int \<times> routing" where
  "assign_routing currentStream (Agent madaodv) =
     (let (n, a) = AssignStreams currentStream madaodv in (currentStream + n, Agent a))"
| "assign_routing currentStream (ListRouting l) =
     (let (c, l) = assign_list currentStream l in (c, ListRouting l))"
| "assign_routing currentStream OtherRouting = (currentStream, OtherRouting)"

fun assign_nodes :: "int \<Rightarrow> node list \<Rightarrow> (int \<times> node list) option" where
  "assign_nodes currentStream [] = Some (currentStream, [])"
| "assign_nodes currentStream (None # ns) = None"
| "assign_nodes currentStream (Some r # ns) =
     (let (c, r) = assign_routing currentStream r in do {
        (c, ns) \<leftarrow> assign_nodes c ns;
        Some (c, Some r # ns)
      })"

definition MadaodvHelper_AssignStreams :: "node list \<Rightarrow> int \<Rightarrow> (int \<times> node list) option" where
  "MadaodvHelper_AssignStreams c stream = do {
     (currentStream, c) \<leftarrow> assign_nodes stream c;
     Some (currentStream - stream, c)
   }"

subsection \<open>Which agent gets which stream\<close>

text \<open>The agent of a node that the helper finds.\<close>

fun agent_of :: "node \<Rightarrow> rp option" where
  "agent_of (Some (Agent a)) = Some a"
| "agent_of (Some (ListRouting l)) = (case List.find (\<lambda>x. x \<noteq> None) l of Some x \<Rightarrow> x | None \<Rightarrow> None)"
| "agent_of _ = None"

definition agents :: "node list \<Rightarrow> rp list" where
  "agents ns = List.map_filter agent_of ns"

lemma AssignStreams_eq: "AssignStreams c a = (1, emit (SetStream c) a)"
  by (simp add: AssignStreams_def)

lemma assign_list_agent:
  "assign_list c l = (c', l') \<Longrightarrow>
   (case agent_of (Some (ListRouting l)) of
      None \<Rightarrow> c' = c \<and> l' = l
    | Some a \<Rightarrow> c' = c + 1 \<and> agent_of (Some (ListRouting l')) = Some (emit (SetStream c) a))"
  by (induction l arbitrary: c' l' rule: assign_list.induct)
    (auto simp: AssignStreams_eq Let_def split: option.splits prod.splits)

lemma assign_routing_agent:
  assumes "assign_routing c r = (c', r')"
  shows "case agent_of (Some r) of
      None \<Rightarrow> c' = c \<and> r' = r
    | Some a \<Rightarrow> c' = c + 1 \<and> agent_of (Some r') = Some (emit (SetStream c) a)"
proof (cases r)
  case (ListRouting l)
  with assms obtain l' where l: "assign_list c l = (c', l')" "r' = ListRouting l'"
    by (auto split: prod.splits)
  show ?thesis
    using assign_list_agent [OF l(1)] unfolding ListRouting l(2)
    by (cases "agent_of (Some (ListRouting l))") (simp_all del: agent_of.simps)
qed (use assms in \<open>auto simp: AssignStreams_eq\<close>)

fun streamed :: "int \<Rightarrow> rp list \<Rightarrow> rp list" where
  "streamed c [] = []"
| "streamed c (a # as) = emit (SetStream c) a # streamed (c + 1) as"

lemma length_streamed [simp]: "length (streamed c as) = length as"
  by (induction as arbitrary: c) simp_all

lemma nth_streamed: "k < length as \<Longrightarrow> streamed c as ! k = emit (SetStream (c + int k)) (as ! k)"
  by (induction as arbitrary: c k) (auto simp: nth_Cons algebra_simps split: nat.split)

lemma agents_Cons: "agents (n # ns) = (case agent_of n of None \<Rightarrow> agents ns | Some a \<Rightarrow> a # agents ns)"
  by (simp add: agents_def List.map_filter_def split: option.split)

lemma assign_nodes_agents:
  "assign_nodes c ns = Some (c', ns') \<Longrightarrow>
   c' = c + int (length (agents ns)) \<and> agents ns' = streamed c (agents ns) \<and> length ns' = length ns"
proof (induction ns arbitrary: c c' ns')
  case (Cons n ns)
  from Cons.prems obtain r d r' ms where n: "n = Some r" "assign_routing c r = (d, r')"
    "assign_nodes d ns = Some (c', ms)" "ns' = Some r' # ms"
    by (cases n) (auto split: prod.splits Option.bind_splits)
  from assign_routing_agent [OF n(2)] Cons.IH [OF n(3)] n(1,4) show ?case
    by (auto simp: agents_Cons split: option.splits)
qed (simp add: agents_def List.map_filter_def)

lemma assign_nodes_total: "None \<notin> set ns \<Longrightarrow> \<exists>r. assign_nodes c ns = Some r"
proof (induction ns arbitrary: c)
  case (Cons n ns)
  then obtain r where r: "n = Some r" by (cases n) auto
  obtain d r' where "assign_routing c r = (d, r')" by fastforce
  with Cons.IH [of d] Cons.prems r show ?case by auto
qed simp

text \<open>C39: when every node has IPv4 and a routing protocol, the helper hands out consecutive random
  streams, the first \<open>stream\<close>, one to the agent of each node that has one, and reports how many.\<close>

theorem helper_streams_consecutive:
  assumes "None \<notin> set ns"
  shows "\<exists>ns'. MadaodvHelper_AssignStreams ns stream = Some (int (length (agents ns)), ns')
       \<and> length ns' = length ns \<and> length (agents ns') = length (agents ns)
       \<and> (\<forall>k < length (agents ns). agents ns' ! k = emit (SetStream (stream + int k)) (agents ns ! k))"
proof -
  obtain c ns' where "assign_nodes stream ns = Some (c, ns')"
    using assign_nodes_total [OF assms, of stream] by auto
  with assign_nodes_agents [OF this] show ?thesis
    by (auto simp: MadaodvHelper_AssignStreams_def nth_streamed)
qed

theorem helper_streams_consecutive_witness:
  "\<exists>ns'. MadaodvHelper_AssignStreams [Some OtherRouting, Some (Agent (RoutingProtocol_new True)),
        Some (ListRouting [None, Some (RoutingProtocol_new False)])] 7 = Some (2, ns')
     \<and> log (agents ns' ! 0) = [SetStream 7] \<and> log (agents ns' ! 1) = [SetStream 8]"
proof -
  let ?ns = "[Some OtherRouting, Some (Agent (RoutingProtocol_new True)),
        Some (ListRouting [None, Some (RoutingProtocol_new False)])]"
  have a: "agents ?ns = [RoutingProtocol_new True, RoutingProtocol_new False]"
    by (simp add: agents_Cons) (simp add: agents_def List.map_filter_def)
  have "log (RoutingProtocol_new b) = []" for b
    by (simp add: RoutingProtocol_new_def Let_def)
  with helper_streams_consecutive [of ?ns 7] show ?thesis
    by (auto simp: a emit_def)
qed

end
